theory Spec2Isabelle
  imports Main "HOL-Library.Word"
begin

text \<open>
  A shallow embedding of parts of the CUPTI GPU tracer (\<open>cupti_tracer.cc\<close>,
  \<open>cupti_tracer.h\<close>), of the \<open>IndexFlatMap\<close> dataset iterator
  (\<open>index_flat_map_dataset_op.cc\<close>) and of the operation dispatch of the MHLO to HLO
  exporter (\<open>mlir_hlo_to_hlo.cc\<close>).

  Conventions. A C++ data member \<open>name_\<close> is written \<open>name_'\<close>, since an Isabelle
  name cannot end in an underscore. \<open>size_t\<close> values are natural numbers: a count
  that grows by one with each call does not reach \<open>2 ^ 64\<close> and is computed as such, and
  where a \<open>size_t\<close> is computed from a size the driver reports, the wrap-around at
  \<open>2 ^ 64\<close> is written out. \<open>uint32_t\<close> and \<open>uint64_t\<close> fields that come from the
  driver are words. A C++ pointer that may be null is an \<open>option\<close>. Part I holds the
  definitions, Part II the properties.
\<close>

type_synonym u32 = "32 word"
type_synonym u64 = "64 word"

chapter \<open>Part I: the model\<close>

section \<open>AppendOnlyBuffer\<close>

text \<open>
  The buffer is a \<open>std::list\<close> of \<open>std::vector\<close> blocks. A block is addressed by its
  position in the list, so the pointer \<open>last_block_\<close> of the source is the position of
  the block it points to.
\<close>

record 'a AppendOnlyBuffer =
  block_size_' :: nat
  size_' :: nat
  block_list_' :: "'a list list"
  last_block_' :: nat

definition kBlockSize :: nat where
  "kBlockSize = 32768"

text \<open>\<open>Clear\<close>: empty the list, reset the size, emplace one fresh block and point at it.\<close>

definition Clear :: "'a AppendOnlyBuffer \<Rightarrow> 'a AppendOnlyBuffer" where
  "Clear b = b\<lparr>block_list_' := [[]], size_' := 0, last_block_' := 0\<rparr>"

text \<open>The constructor: \<open>block_size_(std::max((size_t)1024, block_size))\<close>, then \<open>Clear()\<close>.\<close>

definition new_AppendOnlyBuffer :: "nat \<Rightarrow> 'a AppendOnlyBuffer" where
  "new_AppendOnlyBuffer block_size =
     Clear \<lparr>block_size_' = max 1024 block_size, size_' = 0, block_list_' = [], last_block_' = 0\<rparr>"

definition Append :: "'a \<Rightarrow> 'a AppendOnlyBuffer \<Rightarrow> 'a AppendOnlyBuffer" where
  "Append v b =
     (let b1 = (if length (block_list_' b ! last_block_' b) \<ge> block_size_' b
                then b\<lparr>block_list_' := block_list_' b @ [[]],
                       last_block_' := length (block_list_' b)\<rparr>
                else b);
          blk = block_list_' b1 ! last_block_' b1
      in b1\<lparr>block_list_' := (block_list_' b1)[last_block_' b1 := blk @ [v]],
             size_' := size_' b1 + 1\<rparr>)"

text \<open>\<open>Emplace\<close> has the body of \<open>Append\<close>; the element is constructed in place.\<close>

definition Emplace :: "'a \<Rightarrow> 'a AppendOnlyBuffer \<Rightarrow> 'a AppendOnlyBuffer" where
  "Emplace v b =
     (let b1 = (if length (block_list_' b ! last_block_' b) \<ge> block_size_' b
                then b\<lparr>block_list_' := block_list_' b @ [[]],
                       last_block_' := length (block_list_' b)\<rparr>
                else b);
          blk = block_list_' b1 ! last_block_' b1
      in b1\<lparr>block_list_' := (block_list_' b1)[last_block_' b1 := blk @ [v]],
             size_' := size_' b1 + 1\<rparr>)"

definition Size :: "'a AppendOnlyBuffer \<Rightarrow> nat" where
  "Size b = size_' b"

definition GetBlocks :: "'a AppendOnlyBuffer \<Rightarrow> 'a list list" where
  "GetBlocks b = block_list_' b"

text \<open>
  A pointer to an element is the pair (block position, position in the block), and
  \<open>None\<close> is \<open>nullptr\<close>. \<open>LastElement\<close> is \<open>&(last_block_->back())\<close> when
  \<open>size_ > 0\<close>. \<open>valid_ptr\<close> says that a pointer addresses an element that exists and
  \<open>deref\<close> reads it.
\<close>

type_synonym elem_ptr = "nat \<times> nat"

definition LastElement :: "'a AppendOnlyBuffer \<Rightarrow> elem_ptr option" where
  "LastElement b =
     (if size_' b > 0
      then Some (last_block_' b, length (block_list_' b ! last_block_' b) - 1)
      else None)"

definition valid_ptr :: "'a AppendOnlyBuffer \<Rightarrow> elem_ptr \<Rightarrow> bool" where
  "valid_ptr b p = (fst p < length (block_list_' b) \<and> snd p < length (block_list_' b ! fst p))"

definition deref :: "'a AppendOnlyBuffer \<Rightarrow> elem_ptr \<Rightarrow> 'a" where
  "deref b p = block_list_' b ! fst p ! snd p"

text \<open>
  The move assignment \<open>operator=\<close>: take the other buffer's blocks and size, point at the
  last block, and \<open>Clear\<close> the other buffer. It returns the target and the source.
\<close>

definition move_assign :: "'a AppendOnlyBuffer \<Rightarrow> 'a AppendOnlyBuffer
    \<Rightarrow> 'a AppendOnlyBuffer \<times> 'a AppendOnlyBuffer" where
  "move_assign this another =
     (this\<lparr>block_size_' := block_size_' another,
           block_list_' := block_list_' another,
           last_block_' := length (block_list_' another) - 1,
           size_' := size_' another\<rparr>,
      Clear another)"

text \<open>
  A history of calls on one buffer, and the elements a history has appended since its
  last \<open>Clear\<close>.
\<close>

datatype 'a buffer_op = OpAppend 'a | OpEmplace 'a | OpClear

fun apply_op :: "'a AppendOnlyBuffer \<Rightarrow> 'a buffer_op \<Rightarrow> 'a AppendOnlyBuffer" where
  "apply_op b (OpAppend v) = Append v b"
| "apply_op b (OpEmplace v) = Emplace v b"
| "apply_op b OpClear = Clear b"

definition apply_ops :: "'a AppendOnlyBuffer \<Rightarrow> 'a buffer_op list \<Rightarrow> 'a AppendOnlyBuffer" where
  "apply_ops b ops = foldl apply_op b ops"

fun since_clear :: "'a list \<Rightarrow> 'a buffer_op list \<Rightarrow> 'a list" where
  "since_clear acc [] = acc"
| "since_clear acc (OpAppend v # ops) = since_clear (acc @ [v]) ops"
| "since_clear acc (OpEmplace v # ops) = since_clear (acc @ [v]) ops"
| "since_clear acc (OpClear # ops) = since_clear [] ops"

text \<open>The representation invariant of a buffer holding the elements \<open>es\<close>.\<close>

definition buffer_inv :: "'a AppendOnlyBuffer \<Rightarrow> 'a list \<Rightarrow> bool" where
  "buffer_inv b es =
     (size_' b = length es \<and> concat (block_list_' b) = es \<and> block_list_' b \<noteq> [] \<and>
      last_block_' b = length (block_list_' b) - 1 \<and>
      list_all (\<lambda>blk. length blk = block_size_' b) (butlast (block_list_' b)) \<and>
      length (last (block_list_' b)) \<le> block_size_' b \<and>
      (es \<noteq> [] \<longrightarrow> last (block_list_' b) \<noteq> []) \<and>
      1024 \<le> block_size_' b)"

section \<open>Status values, driver results, events and the collector\<close>

text \<open>
  \<open>absl::Status\<close>: the codes the modelled functions return, with the message where the
  source writes a literal (text the source appends from the driver is left out).
\<close>

datatype Status =
    OkStatus
  | Internal string
  | PermissionDenied string
  | InvalidArgumentError string
  | UnimplementedError string
  | OtherError string


text \<open>\<open>CUptiResult\<close>: the result codes the source tells apart, and any other code.\<close>

datatype CUptiResult =
    CUPTI_SUCCESS
  | CUPTI_ERROR_MAX_LIMIT_REACHED
  | CUPTI_ERROR_INSUFFICIENT_PRIVILEGES
  | CUPTI_ERROR_OTHER nat

text \<open>The macro \<open>RETURN_IF_CUPTI_ERROR\<close>: \<open>None\<close> when the call succeeded, else the status returned.\<close>

definition RETURN_IF_CUPTI_ERROR :: "CUptiResult \<Rightarrow> Status option" where
  "RETURN_IF_CUPTI_ERROR status =
     (if status \<noteq> CUPTI_SUCCESS
      then (if status = CUPTI_ERROR_INSUFFICIENT_PRIVILEGES
            then Some (PermissionDenied ''CUPTI need root access!'')
            else Some (Internal ''CUPTI call error''))
      else None)"

datatype CuptiTracerEventType =
    Unsupported | Kernel | MemcpyH2D | MemcpyD2H | MemcpyD2D | MemcpyP2P | MemcpyOther
  | MemoryAlloc | MemoryFree | Memset | Overhead | UnifiedMemory | MemoryResidency
  | HostRegister | HostUnregister | Generic

datatype CuptiTracerEventSource = Invalid | DriverCallback | Activity

text \<open>
  \<open>CuptiTracerEvent\<close>, declared in \<open>cupti_collector.h\<close>. The model keeps the fields
  that identify, time and annotate an event. The event name, the stream and thread ids
  and the per-kind detail unions (\<open>kernel_info\<close>, \<open>memcpy_info\<close>, ...) are copies of
  driver data that no property below reads; they are left out.
\<close>

record CuptiTracerEvent =
  type :: CuptiTracerEventType
  source :: CuptiTracerEventSource
  annotation :: string
  nvtx_range :: string
  start_time_ns :: u64
  end_time_ns :: u64
  device_id :: u32
  correlation_id :: u32
  context_id :: u32

text \<open>
  Modelled from the spec: the value-initialised event \<open>CuptiTracerEvent event{}\<close>; the
  struct is declared in \<open>cupti_collector.h\<close>. Its string views are empty and its numeric
  fields are zero.
\<close>

definition empty_event :: CuptiTracerEvent where
  "empty_event = \<lparr>type = Unsupported, source = Invalid, annotation = [], nvtx_range = [],
     start_time_ns = 0, end_time_ns = 0, device_id = 0, correlation_id = 0, context_id = 0\<rparr>"

record AnnotationInfo =
  info_annotation :: string
  info_nvtx_range :: string

type_synonym AnnotationMap = "u32 \<rightharpoonup> AnnotationInfo"

record CuptiTracerCollectorOptions =
  max_callback_api_events :: nat
  max_activity_api_events :: nat
  max_annotation_strings :: nat

text \<open>
  Modelled from the spec: the collector \<open>CuptiTraceCollector\<close> of \<open>cupti_collector.h\<close>,
  the object the tracer forwards its events to. \<open>AddEvent\<close> and \<open>Flush\<close> are virtual
  there; what the tracer can rely on is that the collector receives the calls in order, so
  the collector is its options, the annotation map it was last given, and the list of the
  producer calls it has received. \<open>LookUpAnnotation\<close> looks the correlation id up in the
  annotation map and yields an empty \<open>AnnotationInfo\<close> when there is no entry.
\<close>

datatype collector_call =
    CallSetAnnotationMap AnnotationMap
  | CallAddEvent CuptiTracerEvent
  | CallFlush

record CuptiTraceCollector =
  options_' :: CuptiTracerCollectorOptions
  annotation_map_' :: AnnotationMap
  calls :: "collector_call list"

definition SetAnnotationMap :: "AnnotationMap \<Rightarrow> CuptiTraceCollector \<Rightarrow> CuptiTraceCollector" where
  "SetAnnotationMap m c = c\<lparr>annotation_map_' := m, calls := calls c @ [CallSetAnnotationMap m]\<rparr>"

definition AddEvent :: "CuptiTracerEvent \<Rightarrow> CuptiTraceCollector \<Rightarrow> CuptiTraceCollector" where
  "AddEvent e c = c\<lparr>calls := calls c @ [CallAddEvent e]\<rparr>"

definition Flush :: "CuptiTraceCollector \<Rightarrow> CuptiTraceCollector" where
  "Flush c = c\<lparr>calls := calls c @ [CallFlush]\<rparr>"

definition LookUpAnnotation :: "CuptiTraceCollector \<Rightarrow> u32 \<Rightarrow> u32 \<Rightarrow> AnnotationInfo" where
  "LookUpAnnotation c dev_id corr_id =
     (case annotation_map_' c corr_id of
        None \<Rightarrow> \<lparr>info_annotation = [], info_nvtx_range = []\<rparr>
      | Some info \<Rightarrow> info)"

text \<open>The events a collector has been given, in order.\<close>

fun added_events :: "collector_call list \<Rightarrow> CuptiTracerEvent list" where
  "added_events [] = []"
| "added_events (CallAddEvent e # cs) = e # added_events cs"
| "added_events (_ # cs) = added_events cs"

section \<open>Per-thread callback events and annotations\<close>

text \<open>
  \<open>EventWithAnnotation\<close>; its fields \<open>correlation_id\<close>, \<open>annotation\<close> and \<open>nvtx_range\<close>
  carry the prefix \<open>ewa_\<close> here, to keep them apart from the fields of the event.
\<close>

record EventWithAnnotation =
  ewa_correlation_id :: u32
  ewa_annotation :: string
  ewa_nvtx_range :: string
  event :: CuptiTracerEvent

text \<open>The constructor \<open>EventWithAnnotation(corr_id, ann, nvtx)\<close>, with \<open>event{}\<close>.\<close>

definition new_EventWithAnnotation :: "u32 \<Rightarrow> string \<Rightarrow> string \<Rightarrow> EventWithAnnotation" where
  "new_EventWithAnnotation corr_id ann nvtx =
     \<lparr>ewa_correlation_id = corr_id, ewa_annotation = ann, ewa_nvtx_range = nvtx,
      event = empty_event\<rparr>"

text \<open>
  A \<open>node_hash_set<std::string>\<close> is the list of its distinct members; \<open>emplace\<close> adds a
  string that is not yet a member and \<open>size()\<close> is the length of the list.
\<close>

definition hash_set_emplace :: "string \<Rightarrow> string list \<Rightarrow> string list" where
  "hash_set_emplace s xs = (if s \<in> set xs then xs else xs @ [s])"

record CallbackAnnotationsAndEvents =
  annotations :: "string list"
  nvtx_ranges :: "string list"
  event_annotation_buffer :: "EventWithAnnotation AppendOnlyBuffer"
  num_dropped_events :: nat

definition new_CallbackAnnotationsAndEvents :: CallbackAnnotationsAndEvents where
  "new_CallbackAnnotationsAndEvents =
     \<lparr>annotations = [], nvtx_ranges = [],
      event_annotation_buffer = new_AppendOnlyBuffer kBlockSize, num_dropped_events = 0\<rparr>"

text \<open>The static members of \<open>CallbackAnnotationsAndEvents\<close>, shared by all threads.\<close>

record Statics =
  s_callback_api_event_count :: nat
  s_max_annotation_strings :: nat
  s_max_callback_api_events :: nat

definition initial_Statics :: Statics where
  "initial_Statics = \<lparr>s_callback_api_event_count = 0,
     s_max_annotation_strings = 1024 * 1024, s_max_callback_api_events = 2 * 1024 * 1024\<rparr>"

text \<open>
  \<open>CallbackAnnotationsAndEvents::Add\<close>. It returns whether the event was added, the
  statics and the object it was called on.
\<close>

definition Add :: "u32 \<Rightarrow> u32 \<Rightarrow> string \<Rightarrow> string \<Rightarrow> Statics \<Rightarrow> CallbackAnnotationsAndEvents
    \<Rightarrow> bool \<times> Statics \<times> CallbackAnnotationsAndEvents" where
  "Add dev_id corr_id ann nvtx st d =
     (if s_max_callback_api_events st = 0 \<or>
         s_callback_api_event_count st < s_max_callback_api_events st
      then
        (let st1 = st\<lparr>s_callback_api_event_count := s_callback_api_event_count st + 1\<rparr>;
             too_many_annotations =
               (s_max_annotation_strings st > 0 \<and>
                length (annotations d) \<ge> s_max_annotation_strings st);
             d1 = (if too_many_annotations \<or> ann = [] then d
                   else d\<lparr>annotations := hash_set_emplace ann (annotations d)\<rparr>);
             a = (if too_many_annotations \<or> ann = [] then [] else ann);
             d2 = (if too_many_annotations \<or> nvtx = [] then d1
                   else d1\<lparr>nvtx_ranges := hash_set_emplace nvtx (nvtx_ranges d1)\<rparr>);
             n = (if too_many_annotations \<or> nvtx = [] then [] else nvtx)
         in (True, st1,
             d2\<lparr>event_annotation_buffer :=
                  Emplace (new_EventWithAnnotation corr_id a n) (event_annotation_buffer d2)\<rparr>))
      else (False, st, d\<lparr>num_dropped_events := num_dropped_events d + 1\<rparr>))"

definition clear :: "CallbackAnnotationsAndEvents \<Rightarrow> CallbackAnnotationsAndEvents" where
  "clear d = d\<lparr>annotations := [], nvtx_ranges := [],
               event_annotation_buffer := Clear (event_annotation_buffer d),
               num_dropped_events := 0\<rparr>"

text \<open>
  The move constructor \<open>CallbackAnnotationsAndEvents(CallbackAnnotationsAndEvents &&another)\<close>:
  the new object takes the string sets, the event buffer (by the buffer's move assignment)
  and the dropped count; \<open>another\<close> is left with empty sets, a cleared buffer and a zero
  count. The result is the new object and what is left of \<open>another\<close>.
\<close>

definition move_construct :: "CallbackAnnotationsAndEvents
    \<Rightarrow> CallbackAnnotationsAndEvents \<times> CallbackAnnotationsAndEvents" where
  "move_construct another =
     (let (buf, buf_another) =
            move_assign (new_AppendOnlyBuffer kBlockSize) (event_annotation_buffer another)
      in (\<lparr>annotations = annotations another, nvtx_ranges = nvtx_ranges another,
           event_annotation_buffer = buf, num_dropped_events = num_dropped_events another\<rparr>,
          another\<lparr>annotations := [], nvtx_ranges := [],
                  event_annotation_buffer := buf_another, num_dropped_events := 0\<rparr>))"

text \<open>
  \<open>CallbackAnnotationsAndEventsCollection\<close>. \<open>active_set_\<close> is a hash set of shared
  pointers; it is the list of the objects it points to, in the order in which the set is
  iterated. \<open>deactived_list_\<close> is the list of the objects of threads that have exited.
\<close>

record CallbackAnnotationsAndEventsCollection =
  active_set_' :: "CallbackAnnotationsAndEvents list"
  deactived_list_' :: "CallbackAnnotationsAndEvents list"

definition CreateNew :: "CallbackAnnotationsAndEventsCollection
    \<Rightarrow> nat \<times> CallbackAnnotationsAndEventsCollection" where
  "CreateNew col =
     (length (active_set_' col),
      col\<lparr>active_set_' := active_set_' col @ [new_CallbackAnnotationsAndEvents]\<rparr>)"

text \<open>
  \<open>CollectAll\<close>: the data of the active objects is moved out into new objects (the active
  objects stay, emptied), then the deactivated objects are moved into the result and
  their list is emptied.
\<close>

definition CollectAll :: "bool \<Rightarrow> bool \<Rightarrow> CallbackAnnotationsAndEventsCollection
    \<Rightarrow> CallbackAnnotationsAndEvents list \<times> CallbackAnnotationsAndEventsCollection" where
  "CollectAll use_active use_deactived col =
     (let moved = map move_construct (active_set_' col);
          r1 = (if use_active then map fst moved else []);
          col1 = (if use_active then col\<lparr>active_set_' := map snd moved\<rparr> else col);
          r2 = (if use_deactived then r1 @ deactived_list_' col1 else r1);
          col2 = (if use_deactived then col1\<lparr>deactived_list_' := []\<rparr> else col1)
      in (r2, col2))"

section \<open>Activity records and their conversion to events\<close>

text \<open>
  The records the driver writes into an activity buffer. Each struct keeps the fields the
  conversion functions read for the modelled event fields; the field names carry a short
  prefix naming the struct. \<open>CUpti_Activity\<close> is the tagged union of the record kinds:
  the tag is the field \<open>kind\<close>, and \<open>CUPTI_ACTIVITY_KIND_OTHER\<close> stands for every kind
  the \<open>switch\<close> of \<open>ConvertActivityBuffer\<close> does not name.
\<close>

record CuptiActivityKernel =
  k_start :: u64
  k_end :: u64
  k_deviceId :: u32
  k_contextId :: u32
  k_correlationId :: u32

datatype CUpti_ActivityMemcpyKind =
    CUPTI_ACTIVITY_MEMCPY_KIND_HTOD
  | CUPTI_ACTIVITY_MEMCPY_KIND_DTOH
  | CUPTI_ACTIVITY_MEMCPY_KIND_DTOD
  | CUPTI_ACTIVITY_MEMCPY_KIND_PTOP
  | CUPTI_ACTIVITY_MEMCPY_KIND_OTHER nat

record CuptiActivityMemcpy =
  m_copyKind :: CUpti_ActivityMemcpyKind
  m_start :: u64
  m_end :: u64
  m_deviceId :: u32
  m_contextId :: u32
  m_correlationId :: u32

record CuptiActivityMemcpyP2P =
  p_start :: u64
  p_end :: u64
  p_srcDeviceId :: u32
  p_contextId :: u32
  p_correlationId :: u32

datatype CUpti_ActivityObjectKind =
    CUPTI_ACTIVITY_OBJECT_UNKNOWN
  | CUPTI_ACTIVITY_OBJECT_THREAD
  | CUPTI_ACTIVITY_OBJECT_PROCESS
  | CUPTI_ACTIVITY_OBJECT_STREAM
  | CUPTI_ACTIVITY_OBJECT_DEVICE
  | CUPTI_ACTIVITY_OBJECT_CONTEXT
  | CUPTI_ACTIVITY_OBJECT_OTHER nat

record CUpti_ActivityOverhead =
  o_objectKind :: CUpti_ActivityObjectKind
  o_start :: u64
  o_end :: u64
  o_dcs_deviceId :: u32

datatype CUpti_ActivityUnifiedMemoryCounterKind =
    CUPTI_ACTIVITY_UNIFIED_MEMORY_COUNTER_KIND_UNKNOWN
  | CUPTI_ACTIVITY_UNIFIED_MEMORY_COUNTER_KIND_BYTES_TRANSFER_HTOD
  | CUPTI_ACTIVITY_UNIFIED_MEMORY_COUNTER_KIND_BYTES_TRANSFER_DTOH
  | CUPTI_ACTIVITY_UNIFIED_MEMORY_COUNTER_KIND_CPU_PAGE_FAULT_COUNT
  | CUPTI_ACTIVITY_UNIFIED_MEMORY_COUNTER_KIND_GPU_PAGE_FAULT
  | CUPTI_ACTIVITY_UNIFIED_MEMORY_COUNTER_KIND_THRASHING
  | CUPTI_ACTIVITY_UNIFIED_MEMORY_COUNTER_KIND_THROTTLING
  | CUPTI_ACTIVITY_UNIFIED_MEMORY_COUNTER_KIND_REMOTE_MAP
  | CUPTI_ACTIVITY_UNIFIED_MEMORY_COUNTER_KIND_BYTES_TRANSFER_DTOD

record CUpti_ActivityUnifiedMemoryCounter2 =
  u_counterKind :: CUpti_ActivityUnifiedMemoryCounterKind
  u_start :: u64
  u_end :: u64
  u_srcId :: u32

record CUpti_ActivityMemory =
  y_start :: u64
  y_end :: u64
  y_deviceId :: u32
  y_contextId :: u32

record CuptiActivityMemset =
  s_start :: u64
  s_end :: u64
  s_deviceId :: u32
  s_contextId :: u32
  s_correlationId :: u32

record CUpti_ActivitySynchronization =
  n_start :: u64
  n_end :: u64
  n_contextId :: u32
  n_correlationId :: u32

datatype CUpti_Activity =
    CUPTI_ACTIVITY_KIND_KERNEL CuptiActivityKernel
  | CUPTI_ACTIVITY_KIND_CONCURRENT_KERNEL CuptiActivityKernel
  | CUPTI_ACTIVITY_KIND_CDP_KERNEL CuptiActivityKernel
  | CUPTI_ACTIVITY_KIND_MEMCPY CuptiActivityMemcpy
  | CUPTI_ACTIVITY_KIND_MEMCPY2 CuptiActivityMemcpyP2P
  | CUPTI_ACTIVITY_KIND_OVERHEAD CUpti_ActivityOverhead
  | CUPTI_ACTIVITY_KIND_UNIFIED_MEMORY_COUNTER CUpti_ActivityUnifiedMemoryCounter2
  | CUPTI_ACTIVITY_KIND_MEMORY CUpti_ActivityMemory
  | CUPTI_ACTIVITY_KIND_MEMSET CuptiActivityMemset
  | CUPTI_ACTIVITY_KIND_SYNCHRONIZATION CUpti_ActivitySynchronization
  | CUPTI_ACTIVITY_KIND_OTHER nat

text \<open>
  The conversion functions. Each takes the collector and a record and returns the
  collector after the call; all but the overhead conversion end in
  \<open>collector->AddEvent(std::move(event))\<close>.
\<close>

definition AddKernelActivityEvent :: "CuptiTraceCollector \<Rightarrow> CuptiActivityKernel \<Rightarrow> CuptiTraceCollector" where
  "AddKernelActivityEvent collector kern =
     (let ev = empty_event\<lparr>type := Kernel, source := Activity,
                 start_time_ns := k_start kern, end_time_ns := k_end kern,
                 device_id := k_deviceId kern, context_id := k_contextId kern,
                 correlation_id := k_correlationId kern\<rparr>;
          info = LookUpAnnotation collector (device_id ev) (correlation_id ev);
          ev1 = ev\<lparr>annotation := info_annotation info, nvtx_range := info_nvtx_range info\<rparr>
      in AddEvent ev1 collector)"

definition AddMemcpyActivityEvent :: "CuptiTraceCollector \<Rightarrow> CuptiActivityMemcpy \<Rightarrow> CuptiTraceCollector" where
  "AddMemcpyActivityEvent collector memcpy =
     (let ev0 = empty_event\<lparr>type :=
                  (case m_copyKind memcpy of
                     CUPTI_ACTIVITY_MEMCPY_KIND_HTOD \<Rightarrow> MemcpyH2D
                   | CUPTI_ACTIVITY_MEMCPY_KIND_DTOH \<Rightarrow> MemcpyD2H
                   | CUPTI_ACTIVITY_MEMCPY_KIND_DTOD \<Rightarrow> MemcpyD2D
                   | CUPTI_ACTIVITY_MEMCPY_KIND_PTOP \<Rightarrow> MemcpyP2P
                   | CUPTI_ACTIVITY_MEMCPY_KIND_OTHER _ \<Rightarrow> MemcpyOther)\<rparr>;
          ev = ev0\<lparr>source := Activity,
                 start_time_ns := m_start memcpy, end_time_ns := m_end memcpy,
                 device_id := m_deviceId memcpy, context_id := m_contextId memcpy,
                 correlation_id := m_correlationId memcpy\<rparr>;
          info = LookUpAnnotation collector (device_id ev) (correlation_id ev);
          ev1 = ev\<lparr>annotation := info_annotation info\<rparr>
      in AddEvent ev1 collector)"

definition AddMemcpyP2PActivityEvent :: "CuptiTraceCollector \<Rightarrow> CuptiActivityMemcpyP2P \<Rightarrow> CuptiTraceCollector" where
  "AddMemcpyP2PActivityEvent collector memcpy =
     (let ev = empty_event\<lparr>type := MemcpyP2P, source := Activity,
                 start_time_ns := p_start memcpy, end_time_ns := p_end memcpy,
                 device_id := p_srcDeviceId memcpy, context_id := p_contextId memcpy,
                 correlation_id := p_correlationId memcpy\<rparr>;
          info = LookUpAnnotation collector (device_id ev) (correlation_id ev);
          ev1 = ev\<lparr>annotation := info_annotation info\<rparr>
      in AddEvent ev1 collector)"

text \<open>
  The overhead conversion returns without adding an event when the object kind is
  \<open>CUPTI_ACTIVITY_OBJECT_UNKNOWN\<close> or is none of the kinds it names.
\<close>

definition AddCuptiOverheadActivityEvent :: "CuptiTraceCollector \<Rightarrow> CUpti_ActivityOverhead \<Rightarrow> CuptiTraceCollector" where
  "AddCuptiOverheadActivityEvent collector overhead =
     (let ev = empty_event\<lparr>type := Overhead, source := Activity,
                 start_time_ns := o_start overhead, end_time_ns := o_end overhead,
                 device_id := 0\<rparr>
      in case o_objectKind overhead of
           CUPTI_ACTIVITY_OBJECT_UNKNOWN \<Rightarrow> collector
         | CUPTI_ACTIVITY_OBJECT_THREAD \<Rightarrow> AddEvent ev collector
         | CUPTI_ACTIVITY_OBJECT_PROCESS \<Rightarrow> AddEvent ev collector
         | CUPTI_ACTIVITY_OBJECT_STREAM \<Rightarrow>
             AddEvent (ev\<lparr>device_id := o_dcs_deviceId overhead\<rparr>) collector
         | CUPTI_ACTIVITY_OBJECT_DEVICE \<Rightarrow>
             AddEvent (ev\<lparr>device_id := o_dcs_deviceId overhead\<rparr>) collector
         | CUPTI_ACTIVITY_OBJECT_CONTEXT \<Rightarrow>
             AddEvent (ev\<lparr>device_id := o_dcs_deviceId overhead\<rparr>) collector
         | CUPTI_ACTIVITY_OBJECT_OTHER _ \<Rightarrow> collector)"

definition AddUnifiedMemoryActivityEvent :: "CuptiTraceCollector \<Rightarrow> CUpti_ActivityUnifiedMemoryCounter2 \<Rightarrow> CuptiTraceCollector" where
  "AddUnifiedMemoryActivityEvent collector record =
     (let ev = empty_event\<lparr>type := UnifiedMemory, source := Activity,
                 start_time_ns := u_start record\<rparr>;
          ev1 = (if u_counterKind record =
                      CUPTI_ACTIVITY_UNIFIED_MEMORY_COUNTER_KIND_CPU_PAGE_FAULT_COUNT \<or>
                    u_counterKind record = CUPTI_ACTIVITY_UNIFIED_MEMORY_COUNTER_KIND_THRASHING \<or>
                    u_counterKind record = CUPTI_ACTIVITY_UNIFIED_MEMORY_COUNTER_KIND_REMOTE_MAP \<or>
                    u_end record \<le> u_start record
                 then ev\<lparr>end_time_ns := u_start record + 1\<rparr>
                 else ev\<lparr>end_time_ns := u_end record\<rparr>);
          ev2 = ev1\<lparr>device_id := u_srcId record\<rparr>
      in AddEvent ev2 collector)"

definition AddMemoryActivityEvent :: "CuptiTraceCollector \<Rightarrow> CUpti_ActivityMemory \<Rightarrow> CuptiTraceCollector" where
  "AddMemoryActivityEvent collector memory =
     (let ev = empty_event\<lparr>type := MemoryResidency, source := Activity,
                 start_time_ns := y_start memory,
                 end_time_ns := max (y_end memory) (y_start memory + 1),
                 device_id := y_deviceId memory, context_id := y_contextId memory\<rparr>
      in AddEvent ev collector)"

definition AddMemsetActivityEvent :: "CuptiTraceCollector \<Rightarrow> CuptiActivityMemset \<Rightarrow> CuptiTraceCollector" where
  "AddMemsetActivityEvent collector memset =
     (let ev = empty_event\<lparr>type := Memset, source := Activity,
                 start_time_ns := s_start memset,
                 end_time_ns := max (s_end memset) (s_start memset + 1),
                 device_id := s_deviceId memset, correlation_id := s_correlationId memset,
                 context_id := s_contextId memset\<rparr>
      in AddEvent ev collector)"

definition AddSynchronizationActivityEvent :: "CuptiTraceCollector \<Rightarrow> CUpti_ActivitySynchronization \<Rightarrow> CuptiTraceCollector" where
  "AddSynchronizationActivityEvent collector sync =
     (let ev = empty_event\<lparr>type := Generic, source := Activity,
                 start_time_ns := n_start sync,
                 end_time_ns := max (n_end sync) (n_start sync + 1),
                 correlation_id := n_correlationId sync, context_id := n_contextId sync\<rparr>
      in AddEvent ev collector)"

text \<open>The \<open>switch (record->kind)\<close> of \<open>ConvertActivityBuffer\<close>.\<close>

fun convert_record :: "CUpti_Activity \<Rightarrow> CuptiTraceCollector \<Rightarrow> CuptiTraceCollector" where
  "convert_record (CUPTI_ACTIVITY_KIND_KERNEL r) c = AddKernelActivityEvent c r"
| "convert_record (CUPTI_ACTIVITY_KIND_CONCURRENT_KERNEL r) c = AddKernelActivityEvent c r"
| "convert_record (CUPTI_ACTIVITY_KIND_CDP_KERNEL r) c = AddKernelActivityEvent c r"
| "convert_record (CUPTI_ACTIVITY_KIND_MEMCPY r) c = AddMemcpyActivityEvent c r"
| "convert_record (CUPTI_ACTIVITY_KIND_MEMCPY2 r) c = AddMemcpyP2PActivityEvent c r"
| "convert_record (CUPTI_ACTIVITY_KIND_OVERHEAD r) c = AddCuptiOverheadActivityEvent c r"
| "convert_record (CUPTI_ACTIVITY_KIND_UNIFIED_MEMORY_COUNTER r) c = AddUnifiedMemoryActivityEvent c r"
| "convert_record (CUPTI_ACTIVITY_KIND_MEMORY r) c = AddMemoryActivityEvent c r"
| "convert_record (CUPTI_ACTIVITY_KIND_MEMSET r) c = AddMemsetActivityEvent c r"
| "convert_record (CUPTI_ACTIVITY_KIND_SYNCHRONIZATION r) c = AddSynchronizationActivityEvent c r"
| "convert_record (CUPTI_ACTIVITY_KIND_OTHER k) c = c"

text \<open>The record kinds that have a case of their own in the \<open>switch\<close>.\<close>

fun supported_kind :: "CUpti_Activity \<Rightarrow> bool" where
  "supported_kind (CUPTI_ACTIVITY_KIND_OTHER k) = False"
| "supported_kind _ = True"

text \<open>
  The loop of \<open>ConvertActivityBuffer\<close>. The driver's record iterator is the function
  \<open>next_record\<close>: its value at \<open>n\<close> is the result and the record of the call of
  \<open>ActivityGetNextRecord\<close> number \<open>n\<close> on the buffer. The loop is \<open>while (true)\<close>: it
  ends only when the driver returns a result other than \<open>CUPTI_SUCCESS\<close>, and a loop that
  does not end has the value \<open>None\<close>.
\<close>

partial_function (option) ConvertActivityBuffer_loop ::
  "(nat \<Rightarrow> CUptiResult \<times> CUpti_Activity) \<Rightarrow> nat \<Rightarrow> CuptiTraceCollector
    \<Rightarrow> (Status \<times> CuptiTraceCollector) option" where
  "ConvertActivityBuffer_loop next_record n c =
     (if fst (next_record n) = CUPTI_SUCCESS
      then ConvertActivityBuffer_loop next_record (n + 1) (convert_record (snd (next_record n)) c)
      else if fst (next_record n) = CUPTI_ERROR_MAX_LIMIT_REACHED
      then Some (OkStatus, c)
      else Some (Internal ''Parse cupti activity buffer error.'', c))"

text \<open>
  The records for which the conversion adds an event: those of a kind the \<open>switch\<close> names,
  but for overhead records only those whose object kind the overhead conversion names.
\<close>

fun adds_event :: "CUpti_Activity \<Rightarrow> bool" where
  "adds_event (CUPTI_ACTIVITY_KIND_OTHER k) = False"
| "adds_event (CUPTI_ACTIVITY_KIND_OVERHEAD r) =
     (case o_objectKind r of
        CUPTI_ACTIVITY_OBJECT_UNKNOWN \<Rightarrow> False
      | CUPTI_ACTIVITY_OBJECT_OTHER _ \<Rightarrow> False
      | _ \<Rightarrow> True)"
| "adds_event _ = True"

section \<open>The driver interface, the buffer pool and the tracer\<close>

datatype CUpti_CallbackDomain =
    CUPTI_CB_DOMAIN_DRIVER_API
  | CUPTI_CB_DOMAIN_NVTX
  | CUPTI_CB_DOMAIN_OTHER nat

datatype CUpti_ApiCallbackSite = CUPTI_API_ENTER | CUPTI_API_EXIT | CUPTI_API_CBSITE_FORCE_INT

datatype CUpti_CallbackId =
    CUPTI_DRIVER_TRACE_CBID_cuLaunchCooperativeKernelMultiDevice
  | CUPTI_DRIVER_TRACE_CBID_OTHER nat

text \<open>\<open>CUpti_CallbackData\<close>: a null \<open>context\<close> is \<open>None\<close>.\<close>

record CUpti_CallbackData =
  cb_context :: "nat option"
  cb_callbackSite :: CUpti_ApiCallbackSite
  cb_correlationId :: u32

text \<open>
  The arguments of one call of \<open>ProcessCuptiActivityBuffer\<close>, the callback the tracer
  registers with \<open>ActivityRegisterCallbacks\<close> and the driver calls for an activity buffer
  it has completed.
\<close>

record CompletedBuffer =
  completed_context :: "nat option"
  completed_stream_id :: u32
  completed_buffer :: "nat option"
  completed_size :: nat
  completed_valid_size :: nat

text \<open>
  \<open>CuptiInterface\<close> wraps the vendor library. The tracer sees only what its calls
  return, so the interface is the record of these results, as functions of the arguments.
  \<open>ActivityGetNextRecord buffer size n\<close> is the result of call number \<open>n\<close> of the record
  iteration over a buffer. \<open>ActivityFlushAll\<close> is the result of the forced flush. The
  library hands the buffers it has completed to the registered callback;
  \<open>ActivityFlushAll_completes\<close> lists the calls of \<open>ProcessCuptiActivityBuffer\<close> it
  makes before the forced flush returns, in order. These are taken to be the only
  completed buffers that arrive while \<open>Disable\<close> runs.
\<close>

record CuptiInterface =
  EnableCallback :: "nat \<Rightarrow> CUpti_CallbackDomain \<Rightarrow> CUpti_CallbackId \<Rightarrow> CUptiResult"
  EnableDomain :: "nat \<Rightarrow> CUpti_CallbackDomain \<Rightarrow> CUptiResult"
  Unsubscribe :: CUptiResult
  ActivityDisable :: "nat \<Rightarrow> CUptiResult"
  ActivityFlushAll :: CUptiResult
  ActivityFlushAll_completes :: "CompletedBuffer list"
  interface_Finalize :: CUptiResult
  Disabled :: bool
  ActivityGetNumDroppedRecords :: "nat option \<Rightarrow> u32 \<Rightarrow> CUptiResult \<times> nat"
  GetDeviceId :: "nat \<Rightarrow> CUptiResult \<times> u32"
  ActivityGetNextRecord :: "nat option \<Rightarrow> nat \<Rightarrow> nat \<Rightarrow> CUptiResult \<times> CUpti_Activity"

record CuptiTracerOptions =
  required_callback_api_events :: bool
  cbids_selected :: "CUpti_CallbackId list"
  activities_selected :: "nat list"
  cupti_finalize :: bool
  sync_devices_before_stop :: bool
  enable_nvtx_tracking :: bool

text \<open>
  \<open>CuptiDriverApiHook\<close> is an abstract class; a hook is the record of its three virtual
  functions. The two callbacks act on the calling thread's callback buffer.
\<close>

record CuptiDriverApiHook =
  OnDriverApiEnter :: "u32 \<Rightarrow> CUpti_CallbackDomain \<Rightarrow> CUpti_CallbackId \<Rightarrow> CUpti_CallbackData
     \<Rightarrow> CallbackAnnotationsAndEvents \<Rightarrow> Status \<times> CallbackAnnotationsAndEvents"
  OnDriverApiExit :: "u32 \<Rightarrow> CUpti_CallbackDomain \<Rightarrow> CUpti_CallbackId \<Rightarrow> CUpti_CallbackData
     \<Rightarrow> CallbackAnnotationsAndEvents \<Rightarrow> Status \<times> CallbackAnnotationsAndEvents"
  SyncAndFlush :: Status

text \<open>
  Modelled from the spec: the buffer pool \<open>tsl::profiler::BufferPool\<close> of
  \<open>tsl/profiler/utils/buffer_pool.h\<close>. It keeps the buffers that were reclaimed.
  \<open>GetOrCreateBuffer\<close> hands out a reclaimed buffer when there is one and allocates
  otherwise; \<open>fresh\<close> is the outcome of that allocation, \<open>None\<close> when it fails.
  \<open>ReclaimBuffer\<close> returns a buffer to the pool. A buffer is its address.
\<close>

record BufferPool =
  buffers_' :: "nat list"
  buffer_size_in_bytes_' :: nat

definition GetOrCreateBuffer :: "nat option \<Rightarrow> BufferPool \<Rightarrow> nat option \<times> BufferPool" where
  "GetOrCreateBuffer fresh pool =
     (if buffers_' pool \<noteq> []
      then (Some (last (buffers_' pool)), pool\<lparr>buffers_' := butlast (buffers_' pool)\<rparr>)
      else (fresh, pool))"

definition ReclaimBuffer :: "nat \<Rightarrow> BufferPool \<Rightarrow> BufferPool" where
  "ReclaimBuffer buffer pool = pool\<lparr>buffers_' := buffers_' pool @ [buffer]\<rparr>"

definition kBufferSizeInBytes :: nat where
  "kBufferSizeInBytes = 32 * 1024"

text \<open>
  The calls \<open>Disable\<close> makes, as marks in the tracer's \<open>steps\<close>: \<open>Disable\<close> and the
  functions it calls append the mark of a call when the call is entered. No other
  function of the model writes \<open>steps\<close>.
\<close>

datatype step =
    Step_DisableApiTracing
  | Step_DisableActivityTracing
  | Step_CleanUp
  | Step_Finalize
  | Step_SyncAndFlush
  | Step_GatherAllCallbackAnnotationsAndEvents
  | Step_FinalizeApiCallbackBuffers
  | Step_FinalizeActivityBuffers
  | Step_Flush

text \<open>
  \<open>CuptiTracer\<close>. The collector the tracer points to is held by value: \<open>collector_\<close> is
  \<open>None\<close> for the null pointer and \<open>Some c\<close> with the collector's current state
  otherwise. \<open>steps\<close> is not a member of the class; it records the marks above.
\<close>

record CuptiTracer =
  num_gpus_' :: nat
  option_' :: "CuptiTracerOptions option"
  cupti_interface_' :: CuptiInterface
  collector_' :: "CuptiTraceCollector option"
  need_root_access_' :: bool
  api_tracing_enabled_' :: bool
  activity_tracing_enabled_' :: bool
  cupti_driver_api_hook_' :: "CuptiDriverApiHook option"
  buffer_pool_' :: BufferPool
  collected_annotation_and_events_' :: "CallbackAnnotationsAndEvents list"
  merged_annotation_map_' :: AnnotationMap
  activity_buffers_' :: "(nat option \<times> nat) list"
  estimated_num_dropped_activity_events_' :: nat
  estimated_num_activity_events_' :: nat
  cupti_dropped_activity_event_count_' :: nat
  dropped_callback_event_count_' :: nat
  steps :: "step list"

definition mark :: "step \<Rightarrow> CuptiTracer \<Rightarrow> CuptiTracer" where
  "mark s t = t\<lparr>steps := steps t @ [s]\<rparr>"

subsection \<open>Activity buffers\<close>

text \<open>
  \<open>RequestActivityBuffer\<close>: the buffer and the size it stores through its two out
  parameters, and the tracer. The source tests the buffer for null twice.
\<close>

definition RequestActivityBuffer :: "nat option \<Rightarrow> CuptiTracer \<Rightarrow> (nat option \<times> nat) \<times> CuptiTracer" where
  "RequestActivityBuffer fresh t =
     (let (buffer, pool) = GetOrCreateBuffer fresh (buffer_pool_' t);
          t1 = t\<lparr>buffer_pool_' := pool\<rparr>
      in if buffer = None then ((buffer, 0), t1)
         else if buffer = None then ((buffer, 0), t1)
         else ((buffer, kBufferSizeInBytes), t1))"

text \<open>The \<open>absl::Cleanup\<close> of \<open>ProcessActivityBuffer\<close>: \<open>if (buffer) buffer_pool_.ReclaimBuffer(buffer)\<close>.\<close>

definition buffer_cleanup :: "nat option \<Rightarrow> CuptiTracer \<Rightarrow> CuptiTracer" where
  "buffer_cleanup buffer t =
     (case buffer of
        None \<Rightarrow> t
      | Some p \<Rightarrow> t\<lparr>buffer_pool_' := ReclaimBuffer p (buffer_pool_' t)\<rparr>)"

definition kMaxCuptiActivityEventSize :: nat where
  "kMaxCuptiActivityEventSize = 64"

text \<open>
  The value a \<open>size_t\<close> computation stores: arithmetic on \<open>size_t\<close> wraps around at
  \<open>2 ^ 64\<close>.
\<close>

definition size_t :: "nat \<Rightarrow> nat" where
  "size_t n = n mod 2 ^ 64"

text \<open>
  \<open>ProcessActivityBuffer\<close>. The result is \<open>None\<close> where the source dereferences a null
  \<open>collector_\<close>. The size is the number of valid bytes the driver reports, any \<open>size_t\<close>
  value, so the estimate \<open>(size + kMaxCuptiActivityEventSize - 1) / kMaxCuptiActivityEventSize\<close>
  and the three counters it is added to are computed in \<open>size_t\<close>.
\<close>

definition ProcessActivityBuffer :: "nat option \<Rightarrow> u32 \<Rightarrow> nat option \<Rightarrow> nat \<Rightarrow> CuptiTracer
    \<Rightarrow> (Status \<times> CuptiTracer) option" where
  "ProcessActivityBuffer ctx stream_id buffer sz t =
     (if sz = 0 then Some (OkStatus, buffer_cleanup buffer t)
      else if \<not> activity_tracing_enabled_' t then Some (OkStatus, buffer_cleanup buffer t)
      else if Disabled (cupti_interface_' t) then Some (Internal ''Disabled.'', buffer_cleanup buffer t)
      else
        (let r = ActivityGetNumDroppedRecords (cupti_interface_' t) ctx stream_id;
             t1 = (if fst r = CUPTI_SUCCESS
                   then t\<lparr>cupti_dropped_activity_event_count_' :=
                            size_t (cupti_dropped_activity_event_count_' t + snd r)\<rparr>
                   else t);
             estimated_event_count =
               size_t (sz + kMaxCuptiActivityEventSize - 1) div kMaxCuptiActivityEventSize
         in case collector_' t1 of
              None \<Rightarrow> None
            | Some c \<Rightarrow>
                if estimated_num_activity_events_' t1 \<ge> max_activity_api_events (options_' c)
                then Some (OkStatus,
                       buffer_cleanup buffer
                         (t1\<lparr>estimated_num_dropped_activity_events_' :=
                                size_t (estimated_num_dropped_activity_events_' t1 +
                                        estimated_event_count)\<rparr>))
                else Some (OkStatus,
                       t1\<lparr>estimated_num_activity_events_' :=
                              size_t (estimated_num_activity_events_' t1 + estimated_event_count),
                           activity_buffers_' := activity_buffers_' t1 @ [(buffer, sz)]\<rparr>)))"

text \<open>
  \<open>ProcessCuptiActivityBuffer\<close> passes the context, the stream, the buffer and its valid
  size to \<open>ProcessActivityBuffer\<close> of the tracer singleton and logs a status that is not
  ok. \<open>completed_buffers\<close> is a sequence of such calls by the driver.
\<close>

definition ProcessCuptiActivityBuffer :: "CompletedBuffer \<Rightarrow> CuptiTracer \<Rightarrow> CuptiTracer option" where
  "ProcessCuptiActivityBuffer d t =
     (case ProcessActivityBuffer (completed_context d) (completed_stream_id d)
             (completed_buffer d) (completed_valid_size d) t of
        None \<Rightarrow> None
      | Some r \<Rightarrow> Some (snd r))"

fun completed_buffers :: "CompletedBuffer list \<Rightarrow> CuptiTracer \<Rightarrow> CuptiTracer option" where
  "completed_buffers [] t = Some t"
| "completed_buffers (d # ds) t =
     (case ProcessCuptiActivityBuffer d t of
        None \<Rightarrow> None
      | Some t1 \<Rightarrow> completed_buffers ds t1)"

text \<open>
  As a reference for what the tracer has to cache of a sequence of completed buffers
  while activity tracing is enabled: the buffers of a valid size other than 0 that arrive
  while the estimated event count \<open>n\<close> is below the limit, each raising the estimate.
\<close>

fun cached_buffers :: "nat \<Rightarrow> nat \<Rightarrow> CompletedBuffer list \<Rightarrow> (nat option \<times> nat) list" where
  "cached_buffers limit n [] = []"
| "cached_buffers limit n (d # ds) =
     (if completed_valid_size d \<noteq> 0 \<and> n < limit
      then (completed_buffer d, completed_valid_size d) #
           cached_buffers limit
             (size_t (n + size_t (completed_valid_size d + 63) div 64)) ds
      else cached_buffers limit n ds)"

text \<open>
  \<open>ConvertActivityBuffer\<close> runs the record loop on the tracer's collector. The result is
  \<open>None\<close> when \<open>collector_\<close> is null or the loop does not end.
\<close>

definition ConvertActivityBuffer :: "nat option \<Rightarrow> nat \<Rightarrow> CuptiTracer \<Rightarrow> (Status \<times> CuptiTracer) option" where
  "ConvertActivityBuffer buffer sz t =
     (case collector_' t of
        None \<Rightarrow> None
      | Some c \<Rightarrow>
          (case ConvertActivityBuffer_loop
                  (ActivityGetNextRecord (cupti_interface_' t) buffer sz) 0 c of
             None \<Rightarrow> None
           | Some (status, c1) \<Rightarrow> Some (status, t\<lparr>collector_' := Some c1\<rparr>)))"

text \<open>
  The loop of \<open>FinalizeActivityBuffers\<close>: while the list is not empty, take its front,
  pop it and convert it, ignoring the status.
\<close>

partial_function (option) FinalizeActivityBuffers_loop :: "CuptiTracer \<Rightarrow> CuptiTracer option" where
  "FinalizeActivityBuffers_loop t =
     (case activity_buffers_' t of
        [] \<Rightarrow> Some t
      | buffer_and_size # rest \<Rightarrow>
          (case ConvertActivityBuffer (fst buffer_and_size) (snd buffer_and_size)
                  (t\<lparr>activity_buffers_' := rest\<rparr>) of
             None \<Rightarrow> None
           | Some r \<Rightarrow> FinalizeActivityBuffers_loop (snd r)))"

definition FinalizeActivityBuffers :: "CuptiTracer \<Rightarrow> CuptiTracer option" where
  "FinalizeActivityBuffers t = FinalizeActivityBuffers_loop (mark Step_FinalizeActivityBuffers t)"

text \<open>
  Converting a list of buffers one after the other, as a reference for what
  \<open>FinalizeActivityBuffers\<close> has to do with the cached buffers.
\<close>

fun convert_all :: "(nat option \<times> nat) list \<Rightarrow> CuptiTracer \<Rightarrow> CuptiTracer option" where
  "convert_all [] t = Some t"
| "convert_all (b # bs) t =
     (case ConvertActivityBuffer (fst b) (snd b) t of
        None \<Rightarrow> None
      | Some r \<Rightarrow> convert_all bs (snd r))"

text \<open>
  The same on the collector alone: the record loop of each buffer in turn, on the
  collector the loop before it has left.
\<close>

fun convert_buffers :: "CuptiInterface \<Rightarrow> (nat option \<times> nat) list \<Rightarrow> CuptiTraceCollector
    \<Rightarrow> CuptiTraceCollector option" where
  "convert_buffers i [] c = Some c"
| "convert_buffers i (b # bs) c =
     (case ConvertActivityBuffer_loop (ActivityGetNextRecord i (fst b) (snd b)) 0 c of
        None \<Rightarrow> None
      | Some r \<Rightarrow> convert_buffers i bs (snd r))"

text \<open>The record iteration over a buffer ends: some call does not return \<open>CUPTI_SUCCESS\<close>.\<close>

definition iteration_ends :: "CuptiInterface \<Rightarrow> nat option \<times> nat \<Rightarrow> bool" where
  "iteration_ends i b = (\<exists>n. fst (ActivityGetNextRecord i (fst b) (snd b) n) \<noteq> CUPTI_SUCCESS)"

subsection \<open>Gathering and forwarding the callback events\<close>

text \<open>\<open>merged_annotation_map_.emplace(key, value)\<close> inserts only when the key is absent.\<close>

definition map_emplace :: "u32 \<Rightarrow> AnnotationInfo \<Rightarrow> AnnotationMap \<Rightarrow> AnnotationMap" where
  "map_emplace k v m = (if m k = None then m(k \<mapsto> v) else m)"

text \<open>The body of the innermost loop of \<open>GatherAllCallbackAnnotationsAndEvents\<close>.\<close>

definition merge_event :: "AnnotationMap \<Rightarrow> EventWithAnnotation \<Rightarrow> AnnotationMap" where
  "merge_event m event_with_annotation =
     (if ewa_annotation event_with_annotation \<noteq> [] \<or> ewa_nvtx_range event_with_annotation \<noteq> []
      then map_emplace (ewa_correlation_id event_with_annotation)
             \<lparr>info_annotation = ewa_annotation event_with_annotation,
              info_nvtx_range = ewa_nvtx_range event_with_annotation\<rparr> m
      else m)"

definition merge_block :: "AnnotationMap \<Rightarrow> EventWithAnnotation list \<Rightarrow> AnnotationMap" where
  "merge_block m block = foldl merge_event m block"

text \<open>
  The body of the outer loop: all blocks of one collected object, then its dropped count.
  The state of the loop is the merged map and \<open>dropped_callback_event_count_\<close>.
\<close>

definition merge_annotations_events :: "AnnotationMap \<times> nat \<Rightarrow> CallbackAnnotationsAndEvents
    \<Rightarrow> AnnotationMap \<times> nat" where
  "merge_annotations_events acc annotations_events =
     (foldl merge_block (fst acc) (GetBlocks (event_annotation_buffer annotations_events)),
      snd acc + num_dropped_events annotations_events)"

text \<open>
  \<open>GatherAllCallbackAnnotationsAndEvents\<close>, on the collection singleton and the tracer.
  The merged map is moved into the collector, which leaves the member empty. The result
  is \<open>None\<close> where the source dereferences a null \<open>collector_\<close>.
\<close>

definition GatherAllCallbackAnnotationsAndEvents ::
  "CallbackAnnotationsAndEventsCollection \<times> CuptiTracer
    \<Rightarrow> (CallbackAnnotationsAndEventsCollection \<times> CuptiTracer) option" where
  "GatherAllCallbackAnnotationsAndEvents ct =
     (let t0 = mark Step_GatherAllCallbackAnnotationsAndEvents (snd ct);
          (collected, col1) = CollectAll True True (fst ct);
          t1 = t0\<lparr>collected_annotation_and_events_' := collected,
                  merged_annotation_map_' := Map.empty,
                  dropped_callback_event_count_' := 0\<rparr>;
          (merged, dropped) =
             foldl merge_annotations_events
               (merged_annotation_map_' t1, dropped_callback_event_count_' t1)
               (collected_annotation_and_events_' t1)
      in case collector_' t1 of
           None \<Rightarrow> None
         | Some c \<Rightarrow>
             Some (col1, t1\<lparr>merged_annotation_map_' := Map.empty,
                            dropped_callback_event_count_' := dropped,
                            collector_' := Some (SetAnnotationMap merged c)\<rparr>))"

text \<open>
  \<open>FinalizeApiCallbackBuffers\<close>: every event of every block of every collected object is
  passed to \<open>collector_->AddEvent\<close>, in order.
\<close>

definition collected_events :: "CallbackAnnotationsAndEvents list \<Rightarrow> EventWithAnnotation list" where
  "collected_events collected =
     concat (map (\<lambda>annotations_and_events.
                    concat (GetBlocks (event_annotation_buffer annotations_and_events)))
                 collected)"

definition FinalizeApiCallbackBuffers :: "CuptiTracer \<Rightarrow> CuptiTracer option" where
  "FinalizeApiCallbackBuffers t =
     (let t0 = mark Step_FinalizeApiCallbackBuffers t
      in case collector_' t0 of
           None \<Rightarrow> (if collected_events (collected_annotation_and_events_' t0) = []
                     then Some t0 else None)
         | Some c \<Rightarrow>
             Some (t0\<lparr>collector_' :=
                        Some (foldl (\<lambda>c event_with_annotation. AddEvent (event event_with_annotation) c)
                                c (collected_events (collected_annotation_and_events_' t0)))\<rparr>))"

subsection \<open>Disabling the tracer\<close>

text \<open>The first status a sequence of \<open>RETURN_IF_CUPTI_ERROR\<close> calls returns, if any.\<close>

fun first_error :: "CUptiResult list \<Rightarrow> Status option" where
  "first_error [] = None"
| "first_error (r # rs) =
     (case RETURN_IF_CUPTI_ERROR r of Some s \<Rightarrow> Some s | None \<Rightarrow> first_error rs)"

text \<open>
  \<open>DisableApiTracing\<close>. Its calls change the state of the driver only; the tracer keeps
  their results. \<open>None\<close> is the dereference of an empty \<open>option_\<close>.
\<close>

definition DisableApiTracing :: "CuptiTracer \<Rightarrow> (Status \<times> CuptiTracer) option" where
  "DisableApiTracing t =
     (let t0 = mark Step_DisableApiTracing t
      in if \<not> api_tracing_enabled_' t0 then Some (OkStatus, t0)
         else
           (let t1 = t0\<lparr>api_tracing_enabled_' := False\<rparr>
            in case option_' t1 of
                 None \<Rightarrow> None
               | Some opt \<Rightarrow>
                   (let i = cupti_interface_' t1;
                        results =
                          (if cbids_selected opt \<noteq> []
                           then map (EnableCallback i 0 CUPTI_CB_DOMAIN_DRIVER_API) (cbids_selected opt)
                           else [EnableDomain i 0 CUPTI_CB_DOMAIN_DRIVER_API]) @
                          (if enable_nvtx_tracking opt then [EnableDomain i 0 CUPTI_CB_DOMAIN_NVTX] else []) @
                          [Unsubscribe i]
                    in case first_error results of
                         Some s \<Rightarrow> Some (s, t1)
                       | None \<Rightarrow> Some (OkStatus, t1))))"

text \<open>
  \<open>DisableActivityTracing\<close>. A failing \<open>ActivityDisable\<close> returns before the selected
  activities are cleared, a failing \<open>ActivityFlushAll\<close> after; either return leaves
  \<open>activity_tracing_enabled_\<close> set. The buffers the driver completes during the forced
  flush reach \<open>ProcessActivityBuffer\<close> before \<open>ActivityFlushAll\<close> returns, while
  \<open>activity_tracing_enabled_\<close> is still set. \<open>ConfigureActivityUnifiedMemoryCounter(false)\<close>
  configures the driver, returns nothing and changes no member of the tracer; it has no
  counterpart here.
\<close>

definition DisableActivityTracing :: "CuptiTracer \<Rightarrow> (Status \<times> CuptiTracer) option" where
  "DisableActivityTracing t =
     (let t0 = mark Step_DisableActivityTracing t
      in if activity_tracing_enabled_' t0
         then
           (case option_' t0 of
              None \<Rightarrow> None
            | Some opt \<Rightarrow>
                (let i = cupti_interface_' t0
                 in case first_error (map (ActivityDisable i) (activities_selected opt)) of
                      Some s \<Rightarrow> Some (s, t0)
                    | None \<Rightarrow>
                        (let t1 = t0\<lparr>option_' := Some (opt\<lparr>activities_selected := []\<rparr>)\<rparr>
                         in case completed_buffers (ActivityFlushAll_completes i) t1 of
                              None \<Rightarrow> None
                            | Some t2 \<Rightarrow>
                                (case RETURN_IF_CUPTI_ERROR (ActivityFlushAll i) of
                                   Some s \<Rightarrow> Some (s, t2)
                                 | None \<Rightarrow>
                                     Some (OkStatus, t2\<lparr>activity_tracing_enabled_' := False\<rparr>)))))
         else Some (OkStatus, t0\<lparr>activity_tracing_enabled_' := False\<rparr>))"

text \<open>
  As a reference, the buffers the forced flush of \<open>DisableActivityTracing\<close> has to add to
  \<open>activity_buffers_\<close>, for a tracer with the options \<open>opt\<close> and the collector \<open>c\<close>: none
  when activity tracing is not enabled, when an \<open>ActivityDisable\<close> fails or when the
  interface reports \<open>Disabled\<close>.
\<close>

definition cached_by_flush :: "CuptiTracerOptions \<Rightarrow> CuptiTraceCollector \<Rightarrow> CuptiTracer
    \<Rightarrow> (nat option \<times> nat) list" where
  "cached_by_flush opt c t =
     (if activity_tracing_enabled_' t \<and>
         first_error (map (ActivityDisable (cupti_interface_' t)) (activities_selected opt)) = None \<and>
         \<not> Disabled (cupti_interface_' t)
      then cached_buffers (max_activity_api_events (options_' c))
             (estimated_num_activity_events_' t)
             (ActivityFlushAll_completes (cupti_interface_' t))
      else [])"

definition Finalize :: "CuptiTracer \<Rightarrow> (Status \<times> CuptiTracer) option" where
  "Finalize t =
     (let t0 = mark Step_Finalize t
      in case option_' t0 of
           None \<Rightarrow> None
         | Some opt \<Rightarrow>
             if cupti_finalize opt
             then (case RETURN_IF_CUPTI_ERROR (interface_Finalize (cupti_interface_' t0)) of
                     Some s \<Rightarrow> Some (s, t0)
                   | None \<Rightarrow> Some (OkStatus, t0))
             else Some (OkStatus, t0))"

text \<open>
  \<open>Disable\<close>. Every status is ignored. The result is the collector as the tracer leaves
  it, the collection singleton and the tracer; it is \<open>None\<close> where the source dereferences
  a null pointer or an empty optional, or a record loop does not end. The calls
  \<open>cupti_interface_->CleanUp()\<close> and \<open>SyncAndFlush()\<close> of the hook act on the driver only
  and leave their marks. The last statement, \<open>AnnotationStack::Enable(false)\<close>, changes no
  member of the tracer.
\<close>

definition Disable :: "CallbackAnnotationsAndEventsCollection \<times> CuptiTracer
    \<Rightarrow> (CuptiTraceCollector \<times> CallbackAnnotationsAndEventsCollection \<times> CuptiTracer) option" where
  "Disable ct =
     (case DisableApiTracing (snd ct) of
        None \<Rightarrow> None
      | Some r1 \<Rightarrow>
     (case DisableActivityTracing (snd r1) of
        None \<Rightarrow> None
      | Some r2 \<Rightarrow>
     (case Finalize (mark Step_CleanUp (snd r2)) of
        None \<Rightarrow> None
      | Some r3 \<Rightarrow>
     (case cupti_driver_api_hook_' (snd r3) of
        None \<Rightarrow> None
      | Some hook \<Rightarrow>
     (case GatherAllCallbackAnnotationsAndEvents (fst ct, mark Step_SyncAndFlush (snd r3)) of
        None \<Rightarrow> None
      | Some r4 \<Rightarrow>
     (case FinalizeApiCallbackBuffers (snd r4) of
        None \<Rightarrow> None
      | Some t5 \<Rightarrow>
     (case FinalizeActivityBuffers t5 of
        None \<Rightarrow> None
      | Some t6 \<Rightarrow>
     (case collector_' t6 of
        None \<Rightarrow> None
      | Some c \<Rightarrow>
          Some (Flush c, fst r4,
                (mark Step_Flush t6)\<lparr>collector_' := None, option_' := None,
                                       cupti_driver_api_hook_' := None\<rparr>)))))))))"

subsection \<open>The driver callback\<close>

text \<open>
  \<open>HandleCallback\<close>, for one call on one thread. \<open>internalCuCall\<close>, the annotation
  \<open>AnnotationStack::Get()\<close> and the range \<open>NVTXRangeTracker::CurrentRange()\<close> are the
  calling thread's; \<open>d\<close> is its \<open>callback_annotations_and_events_\<close>. The result is the
  status, the statics and the thread's object. \<open>HandleNVTXCallback\<close> updates the range
  tracker, which is outside the model, and returns \<open>OkStatus\<close>.
\<close>

definition HandleNVTXCallback :: "CUpti_CallbackId \<Rightarrow> CUpti_CallbackData \<Rightarrow> Status" where
  "HandleNVTXCallback cbid cbdata = OkStatus"

definition HandleCallback :: "CuptiTracer \<Rightarrow> int \<Rightarrow> string \<Rightarrow> string
    \<Rightarrow> CUpti_CallbackDomain \<Rightarrow> CUpti_CallbackId \<Rightarrow> CUpti_CallbackData
    \<Rightarrow> Statics \<Rightarrow> CallbackAnnotationsAndEvents
    \<Rightarrow> Status \<times> Statics \<times> CallbackAnnotationsAndEvents" where
  "HandleCallback t internalCuCall stack_annotation current_range domain cbid cbdata st d =
     (if \<not> api_tracing_enabled_' t then (OkStatus, st, d)
      else
     (case cupti_driver_api_hook_' t of
        None \<Rightarrow> (OkStatus, st, d)
      | Some hook \<Rightarrow>
     (if domain = CUPTI_CB_DOMAIN_NVTX then (HandleNVTXCallback cbid cbdata, st, d)
      else if domain \<noteq> CUPTI_CB_DOMAIN_DRIVER_API then (OkStatus, st, d)
      else if internalCuCall \<noteq> 0 then (OkStatus, st, d)
      else
     (case cb_context cbdata of
        None \<Rightarrow> (Internal ''cutpi callback without context'', st, d)
      | Some ctx \<Rightarrow>
     (case RETURN_IF_CUPTI_ERROR (fst (GetDeviceId (cupti_interface_' t) ctx)) of
        Some s \<Rightarrow> (s, st, d)
      | None \<Rightarrow>
     (let dev_id = snd (GetDeviceId (cupti_interface_' t) ctx)
      in if unat dev_id \<ge> num_gpus_' t then (Internal ''Invalid device id:'', st, d)
         else if cb_callbackSite cbdata = CUPTI_API_ENTER
         then (let r = OnDriverApiEnter hook dev_id domain cbid cbdata d
               in (fst r, st, snd r))
         else if cb_callbackSite cbdata = CUPTI_API_EXIT
         then
           (let nvtx = (if cbid = CUPTI_DRIVER_TRACE_CBID_cuLaunchCooperativeKernelMultiDevice
                        then [] else current_range);
                a = Add dev_id (cb_correlationId cbdata) stack_annotation nvtx st d
            in if fst a
               then (let r = OnDriverApiExit hook dev_id domain cbid cbdata (snd (snd a))
                     in (fst r, fst (snd a), snd r))
               else (OkStatus, fst (snd a), snd (snd a)))
         else (OkStatus, st, d)))))))"

subsection \<open>Reference notions for the merged annotation map\<close>

text \<open>
  An event is annotated when its annotation or its NVTX range is not empty; \<open>info_of\<close> is
  the \<open>AnnotationInfo\<close> built from it. \<open>looked_up\<close> is the pair (annotation, NVTX range)
  found for a correlation id in an annotation map, empty strings when there is none.
\<close>

definition annotated :: "EventWithAnnotation \<Rightarrow> bool" where
  "annotated e = (ewa_annotation e \<noteq> [] \<or> ewa_nvtx_range e \<noteq> [])"

definition info_of :: "EventWithAnnotation \<Rightarrow> AnnotationInfo" where
  "info_of e = \<lparr>info_annotation = ewa_annotation e, info_nvtx_range = ewa_nvtx_range e\<rparr>"

definition looked_up :: "AnnotationMap \<Rightarrow> u32 \<Rightarrow> string \<times> string" where
  "looked_up m corr_id =
     (case m corr_id of
        None \<Rightarrow> ([], [])
      | Some info \<Rightarrow> (info_annotation info, info_nvtx_range info))"

text \<open>The record kinds whose conversion calls \<open>LookUpAnnotation\<close>.\<close>

fun looks_up_annotation :: "CUpti_Activity \<Rightarrow> bool" where
  "looks_up_annotation (CUPTI_ACTIVITY_KIND_KERNEL r) = True"
| "looks_up_annotation (CUPTI_ACTIVITY_KIND_CONCURRENT_KERNEL r) = True"
| "looks_up_annotation (CUPTI_ACTIVITY_KIND_CDP_KERNEL r) = True"
| "looks_up_annotation (CUPTI_ACTIVITY_KIND_MEMCPY r) = True"
| "looks_up_annotation (CUPTI_ACTIVITY_KIND_MEMCPY2 r) = True"
| "looks_up_annotation _ = False"

section \<open>A sample configuration\<close>

text \<open>
  Concrete values at which the properties of Part II are instantiated: a driver whose
  calls succeed and whose buffer at address 1 holds a kernel record, a memset record and an
  overhead record of unknown object kind, and which completes two more buffers during the
  forced flush, one of them without valid bytes; a collector; and a tracer in the middle
  of a profiling session with the buffer at address 1 cached.
\<close>

definition sample_kernel :: CuptiActivityKernel where
  "sample_kernel = \<lparr>k_start = 10, k_end = 20, k_deviceId = 0, k_contextId = 1, k_correlationId = 7\<rparr>"

definition sample_memset :: CuptiActivityMemset where
  "sample_memset = \<lparr>s_start = 30, s_end = 40, s_deviceId = 0, s_contextId = 1, s_correlationId = 7\<rparr>"

definition sample_overhead :: CUpti_ActivityOverhead where
  "sample_overhead = \<lparr>o_objectKind = CUPTI_ACTIVITY_OBJECT_UNKNOWN, o_start = 50, o_end = 60,
     o_dcs_deviceId = 0\<rparr>"

definition sample_records :: "nat \<Rightarrow> CUptiResult \<times> CUpti_Activity" where
  "sample_records n =
     (if n = 0 then (CUPTI_SUCCESS, CUPTI_ACTIVITY_KIND_KERNEL sample_kernel)
      else if n = 1 then (CUPTI_SUCCESS, CUPTI_ACTIVITY_KIND_MEMSET sample_memset)
      else if n = 2 then (CUPTI_SUCCESS, CUPTI_ACTIVITY_KIND_OVERHEAD sample_overhead)
      else (CUPTI_ERROR_MAX_LIMIT_REACHED, CUPTI_ACTIVITY_KIND_OTHER 0))"

definition sample_interface :: CuptiInterface where
  "sample_interface =
     \<lparr>EnableCallback = (\<lambda>enable domain cbid. CUPTI_SUCCESS),
      EnableDomain = (\<lambda>enable domain. CUPTI_SUCCESS),
      Unsubscribe = CUPTI_SUCCESS,
      ActivityDisable = (\<lambda>activity. CUPTI_SUCCESS),
      ActivityFlushAll = CUPTI_SUCCESS,
      ActivityFlushAll_completes =
        [\<lparr>completed_context = None, completed_stream_id = 0, completed_buffer = Some 2,
          completed_size = kBufferSizeInBytes, completed_valid_size = 64\<rparr>,
         \<lparr>completed_context = None, completed_stream_id = 0, completed_buffer = Some 3,
          completed_size = kBufferSizeInBytes, completed_valid_size = 0\<rparr>],
      interface_Finalize = CUPTI_SUCCESS,
      Disabled = False,
      ActivityGetNumDroppedRecords = (\<lambda>ctx stream_id. (CUPTI_SUCCESS, 0)),
      GetDeviceId = (\<lambda>ctx. (CUPTI_SUCCESS, 0)),
      ActivityGetNextRecord = (\<lambda>buffer sz. sample_records)\<rparr>"

definition sample_options :: CuptiTracerOptions where
  "sample_options =
     \<lparr>required_callback_api_events = True, cbids_selected = [], activities_selected = [3],
      cupti_finalize = False, sync_devices_before_stop = False, enable_nvtx_tracking = False\<rparr>"

definition sample_collector :: CuptiTraceCollector where
  "sample_collector =
     \<lparr>options_' = \<lparr>max_callback_api_events = 2 * 1024 * 1024,
                    max_activity_api_events = 2 * 1024 * 1024,
                    max_annotation_strings = 1024 * 1024\<rparr>,
      annotation_map_' = [7 \<mapsto> \<lparr>info_annotation = ''matmul'', info_nvtx_range = ''step''\<rparr>],
      calls = []\<rparr>"

definition sample_hook :: CuptiDriverApiHook where
  "sample_hook =
     \<lparr>OnDriverApiEnter = (\<lambda>dev_id domain cbid cbdata d. (OkStatus, d)),
      OnDriverApiExit = (\<lambda>dev_id domain cbid cbdata d. (Internal ''exit hook ran'', d)),
      SyncAndFlush = OkStatus\<rparr>"

definition sample_tracer :: CuptiTracer where
  "sample_tracer =
     \<lparr>num_gpus_' = 1,
      option_' = Some sample_options,
      cupti_interface_' = sample_interface,
      collector_' = Some sample_collector,
      need_root_access_' = False,
      api_tracing_enabled_' = True,
      activity_tracing_enabled_' = True,
      cupti_driver_api_hook_' = Some sample_hook,
      buffer_pool_' = \<lparr>buffers_' = [], buffer_size_in_bytes_' = kBufferSizeInBytes\<rparr>,
      collected_annotation_and_events_' = [],
      merged_annotation_map_' = Map.empty,
      activity_buffers_' = [(Some 1, 128)],
      estimated_num_dropped_activity_events_' = 0,
      estimated_num_activity_events_' = 2,
      cupti_dropped_activity_event_count_' = 0,
      dropped_callback_event_count_' = 0,
      steps = []\<rparr>"

text \<open>A thread's callback object after two driver calls, and the collection that holds it.\<close>

definition sample_thread_data :: CallbackAnnotationsAndEvents where
  "sample_thread_data =
     snd (snd (Add 0 8 [] [] initial_Statics
       (snd (snd (Add 0 7 ''matmul'' ''step'' initial_Statics new_CallbackAnnotationsAndEvents)))))"

definition sample_collection :: CallbackAnnotationsAndEventsCollection where
  "sample_collection = \<lparr>active_set_' = [sample_thread_data], deactived_list_' = []\<rparr>"

definition sample_cbdata :: CUpti_CallbackData where
  "sample_cbdata = \<lparr>cb_context = Some 1, cb_callbackSite = CUPTI_API_EXIT, cb_correlationId = 9\<rparr>"

text \<open>The sample tracer on a driver interface that reports itself disabled.\<close>

definition disabled_tracer :: CuptiTracer where
  "disabled_tracer = sample_tracer\<lparr>cupti_interface_' := sample_interface\<lparr>Disabled := True\<rparr>\<rparr>"

text \<open>The sample tracer when its estimated event count has reached the collector's limit.\<close>

definition limit_tracer :: CuptiTracer where
  "limit_tracer =
     sample_tracer\<lparr>estimated_num_activity_events_' :=
       max_activity_api_events (options_' sample_collector)\<rparr>"

text \<open>Statics whose callback event count has reached its limit.\<close>

definition full_Statics :: Statics where
  "full_Statics = \<lparr>s_callback_api_event_count = 5, s_max_annotation_strings = 10,
     s_max_callback_api_events = 5\<rparr>"

section \<open>The IndexFlatMap dataset iterator\<close>

text \<open>
  A tensor is its element type and its elements, in one list whatever the shape; the four
  integer types \<open>GetValue\<close> reads have a constructor each and \<open>TensorOther\<close> stands for a
  tensor of any other dtype. \<open>tensor.scalar<T>()\<close> requires a tensor of exactly one
  element and aborts the process otherwise (the check \<open>CHECK_EQ(1, NumElements())\<close> of the
  tensor class), so a call either aborts or returns.
\<close>

datatype DataType = DT_UINT64 | DT_UINT32 | DT_INT64 | DT_INT32 | DT_OTHER nat

datatype Tensor =
    TensorUInt64 "64 word list"
  | TensorUInt32 "32 word list"
  | TensorInt64 "64 word list"
  | TensorInt32 "32 word list"
  | TensorOther nat

fun dtype :: "Tensor \<Rightarrow> DataType" where
  "dtype (TensorUInt64 xs) = DT_UINT64"
| "dtype (TensorUInt32 xs) = DT_UINT32"
| "dtype (TensorInt64 xs) = DT_INT64"
| "dtype (TensorInt32 xs) = DT_INT32"
| "dtype (TensorOther k) = DT_OTHER k"

fun NumElements :: "Tensor \<Rightarrow> nat" where
  "NumElements (TensorUInt64 xs) = length xs"
| "NumElements (TensorUInt32 xs) = length xs"
| "NumElements (TensorInt64 xs) = length xs"
| "NumElements (TensorInt32 xs) = length xs"
| "NumElements (TensorOther k) = 0"

datatype 'a outcome = Aborted | Returned 'a

text \<open>
  \<open>GetValue\<close> returns \<open>absl::StatusOr<size_t>\<close>: the error is \<open>Inl\<close>, the value \<open>Inr\<close>. The
  value read is converted to \<open>size_t\<close>, a number below \<open>2 ^ 64\<close>: an unsigned value keeps
  its value and a signed value is sign-extended to 64 bits and read as unsigned.
\<close>

fun GetValue :: "Tensor \<Rightarrow> (Status + nat) outcome" where
  "GetValue (TensorUInt64 [v]) = Returned (Inr (unat v))"
| "GetValue (TensorUInt64 xs) = Aborted"
| "GetValue (TensorUInt32 [v]) = Returned (Inr (unat v))"
| "GetValue (TensorUInt32 xs) = Aborted"
| "GetValue (TensorInt64 [v]) = Returned (Inr (unat v))"
| "GetValue (TensorInt64 xs) = Aborted"
| "GetValue (TensorInt32 [v]) = Returned (Inr (unat (scast v :: 64 word)))"
| "GetValue (TensorInt32 xs) = Aborted"
| "GetValue (TensorOther k) =
     Returned (Inl (InvalidArgumentError
       ''The `index_map_fn` for `index_flat_map` is expected to return two int32/int64 values representing the element index and an offset within the element. Got: ''))"

text \<open>
  \<open>GetUnflattenedIndex\<close>. The instantiated \<open>index_map_fn\<close> is a function from the flattened
  index, passed as an \<open>int64\<close> scalar, to the status and the tensors of its run.
\<close>

definition GetUnflattenedIndex :: "(64 word \<Rightarrow> Status \<times> Tensor list) \<Rightarrow> nat
    \<Rightarrow> (Status + nat \<times> nat) outcome" where
  "GetUnflattenedIndex index_map_fn flattened_index =
     (let run = index_map_fn (of_nat flattened_index);
          unflattened_index = snd run
      in if fst run \<noteq> OkStatus then Returned (Inl (fst run))
         else if length unflattened_index \<noteq> 2
         then Returned (Inl (InvalidArgumentError
                ''The `index_map_fn` for `index_flat_map` is expected to return two int values representing the element index and an offset within the element. Got: ''))
         else
           (case GetValue (unflattened_index ! 0) of
              Aborted \<Rightarrow> Aborted
            | Returned (Inl s) \<Rightarrow> Returned (Inl s)
            | Returned (Inr element_index) \<Rightarrow>
                (case GetValue (unflattened_index ! 1) of
                   Aborted \<Rightarrow> Aborted
                 | Returned (Inl s) \<Rightarrow> Returned (Inl s)
                 | Returned (Inr offset) \<Rightarrow> Returned (Inr (element_index, offset)))))"

definition is_InvalidArgumentError :: "(Status + 'a) outcome \<Rightarrow> bool" where
  "is_InvalidArgumentError r = (\<exists>msg. r = Returned (Inl (InvalidArgumentError msg)))"

definition accepted_dtype :: "Tensor \<Rightarrow> bool" where
  "accepted_dtype x = (dtype x \<in> {DT_UINT64, DT_UINT32, DT_INT64, DT_INT32})"

text \<open>
  \<open>SaveInternal\<close> and \<open>RestoreInternal\<close>. The iterator, the contexts, the writer and the
  reader are of any type; the result is the status and the iterator.
\<close>

definition SaveInternal :: "'iterator \<Rightarrow> 'ctx \<Rightarrow> 'writer \<Rightarrow> Status \<times> 'iterator" where
  "SaveInternal it ctx writer =
     (UnimplementedError ''TODO(b/325112575): Support save/load for index_flat_map.'', it)"

definition RestoreInternal :: "'iterator \<Rightarrow> 'ctx \<Rightarrow> 'reader \<Rightarrow> Status \<times> 'iterator" where
  "RestoreInternal it ctx reader =
     (UnimplementedError ''TODO(b/325112575): Support save/load for index_flat_map.'', it)"

section \<open>The operation dispatch of the MHLO to HLO exporter\<close>

text \<open>
  The exporter walks the operations of a function and lowers each with
  \<open>ConvertToHloModule::Lower\<close>, which binds the results of the operation to XLA
  operations in the value map. The model follows the control flow of \<open>Lower\<close>, of
  \<open>ExportXlaOperatorWrapped\<close> and of \<open>LowerFunctionCall\<close>, and the \<open>ExportXlaOp\<close>
  overloads of \<open>CollectiveBroadcastOp\<close>, \<open>DynamicReshapeOp\<close>, \<open>CopyOp\<close>,
  \<open>MapOp\<close> and of the operations whose overload fails without a condition.

  An operation is its kind, its operands and results (values are numbered), its
  attributes as one opaque number, its region (regions are numbered), and the facts the
  modelled functions ask MLIR about it, each under the name of the accessor or helper that
  reports it. A dimension size or bound that is \<open>ShapedType::kDynamic\<close> is \<open>None\<close>.
  Operations are well formed: an operation has the operands and results its kind
  declares, and a result type with bounds has a bound for every dimension.
\<close>

datatype LogicalResult = success | failure

datatype OpKind =
    mhlo_AddOp
  | mhlo_CollectiveBroadcastOp
  | mhlo_CompositeOp
  | mhlo_ComputeReshapeShapeOp
  | mhlo_CstrReshapableOp
  | mhlo_DynamicBroadcastInDimOp
  | mhlo_DynamicConvOp
  | mhlo_DynamicGatherOp
  | mhlo_DynamicIotaOp
  | mhlo_DynamicPadOp
  | mhlo_DynamicReshapeOp
  | mhlo_RealDynamicSliceOp
  | mhlo_CopyOp
  | mhlo_MapOp
  | mhlo_ConstantOp
  | mhlo_ReturnOp
  | mhlo_InfeedOp
  | mhlo_OtherOp nat
  | func_ConstantOp
  | arith_ConstantOp
  | func_CallOp
  | tensor_CastOp
  | func_ReturnOp
  | other_dialect_Op nat


type_synonym Value = nat



record Operation =
  op_kind :: OpKind
  operands :: "Value list"
  results :: "Value list"
  attributes :: nat
  getComputation :: nat
  result_is_i1 :: bool
  getResult_RankedTensorType :: "int option list option"
  encodingToBounds :: "int option list"
  getOutputShape_is_i32_tensor :: bool
  getCrossProgramPrefetchIndex :: bool
  SimplyReturnedOp :: bool
  m_Constant :: "nat option"
  result_is_ShapedType :: bool
  ExtractXlaShape :: "nat option"
  CreateArrayLiteralFromAttr :: "nat option"
  IsBoundedOrStatic :: bool
  kLayoutAttr :: "nat option"
  callee :: nat
  RunOnFunction_callee :: LogicalResult





subsection \<open>The per-operation exporters\<close>



















subsection \<open>Lowering one operation\<close>





















chapter \<open>Part II: properties\<close>

section \<open>AppendOnlyBuffer\<close>

lemma nth_last_block: "bl \<noteq> [] \<Longrightarrow> bl ! (length bl - Suc 0) = last bl"
  by (simp add: last_conv_nth)

lemma update_last_block: "bl \<noteq> [] \<Longrightarrow> bl[length bl - Suc 0 := x] = butlast bl @ [x]"
  by (induction bl) (auto split: nat.splits)

lemma list_all_butlast_last:
  "bl \<noteq> [] \<Longrightarrow> list_all P bl = (list_all P (butlast bl) \<and> P (last bl))"
  by (induction bl) auto

lemma inv_new: "buffer_inv (new_AppendOnlyBuffer n) []"
  by (simp add: buffer_inv_def new_AppendOnlyBuffer_def Clear_def)

lemma inv_Clear: "buffer_inv b es \<Longrightarrow> buffer_inv (Clear b) []"
  by (simp add: buffer_inv_def Clear_def)

lemma Append_new_block:
  assumes "block_list_' b \<noteq> []" "last_block_' b = length (block_list_' b) - 1"
    "block_size_' b \<le> length (last (block_list_' b))"
  shows "Append v b = b\<lparr>block_list_' := block_list_' b @ [[v]],
                          last_block_' := length (block_list_' b),
                          size_' := size_' b + 1\<rparr>"
  using assms by (simp add: Append_def nth_last_block)

lemma Append_same_block:
  assumes "block_list_' b \<noteq> []" "last_block_' b = length (block_list_' b) - 1"
    "\<not> block_size_' b \<le> length (last (block_list_' b))"
  shows "Append v b = b\<lparr>block_list_' := butlast (block_list_' b) @ [last (block_list_' b) @ [v]],
                          size_' := size_' b + 1\<rparr>"
  using assms by (simp add: Append_def nth_last_block update_last_block)

lemma concat_butlast_last: "bl \<noteq> [] \<Longrightarrow> concat (butlast bl) @ last bl = concat bl"
  by (induction bl) auto

lemma inv_Append:
  assumes "buffer_inv b es" shows "buffer_inv (Append v b) (es @ [v])"
proof (cases "block_size_' b \<le> length (last (block_list_' b))")
  case True
  from assms have ne: "block_list_' b \<noteq> []" and lb: "last_block_' b = length (block_list_' b) - 1"
    by (simp_all add: buffer_inv_def)
  have full: "length (last (block_list_' b)) = block_size_' b"
    using assms True by (simp add: buffer_inv_def)
  have all: "list_all (\<lambda>blk. length blk = block_size_' b) (block_list_' b)"
    using assms full ne by (simp add: buffer_inv_def list_all_butlast_last [OF ne])
  show ?thesis
    unfolding Append_new_block [OF ne lb True]
    using assms all by (simp add: buffer_inv_def)
next
  case False
  from assms have ne: "block_list_' b \<noteq> []" and lb: "last_block_' b = length (block_list_' b) - 1"
    by (simp_all add: buffer_inv_def)
  show ?thesis
    unfolding Append_same_block [OF ne lb False]
    using assms False concat_butlast_last [OF ne] by (simp add: buffer_inv_def)
qed

lemma Emplace_eq: "Emplace v b = Append v b"
  by (simp add: Emplace_def Append_def)

lemma inv_apply_op: "buffer_inv b es \<Longrightarrow> buffer_inv (apply_op b x) (since_clear es [x])"
  by (cases x) (simp_all add: inv_Append inv_Clear Emplace_eq)

lemma since_clear_step: "since_clear es (x # xs) = since_clear (since_clear es [x]) xs"
  by (cases x) simp_all

lemma inv_apply_ops: "buffer_inv b es \<Longrightarrow> buffer_inv (apply_ops b xs) (since_clear es xs)"
proof (induction xs arbitrary: b es)
  case Nil
  then show ?case by (simp add: apply_ops_def)
next
  case (Cons x xs)
  have "buffer_inv (apply_op b x) (since_clear es [x])"
    by (rule inv_apply_op [OF Cons.prems])
  from Cons.IH [OF this] show ?case
    by (simp add: apply_ops_def since_clear_step [of es x xs])
qed

lemma inv_LastElement_None: "buffer_inv b es \<Longrightarrow> (LastElement b = None) = (Size b = 0)"
  by (simp add: LastElement_def Size_def)

lemma last_concat_last: "bl \<noteq> [] \<Longrightarrow> last bl \<noteq> [] \<Longrightarrow> last (concat bl) = last (last bl)"
  by (induction bl rule: rev_induct) simp_all

lemma inv_LastElement_Some:
  assumes "buffer_inv b es" "es \<noteq> []"
  shows "\<exists>p. LastElement b = Some p \<and> valid_ptr b p \<and> deref b p = last es"
proof -
  let ?bl = "block_list_' b"
  from assms have ne: "?bl \<noteq> []" and lb: "last_block_' b = length ?bl - 1"
    and le: "last ?bl \<noteq> []" and sz: "size_' b > 0" and c: "concat ?bl = es"
    by (simp_all add: buffer_inv_def)
  have "last es = last (last ?bl)"
    using c ne le last_concat_last [of ?bl] by simp
  then show ?thesis using ne le sz
    by (simp add: LastElement_def valid_ptr_def deref_def lb nth_last_block)
qed

lemma block_size_apply_op: "block_size_' (apply_op b x) = block_size_' b"
  by (cases x) (simp_all add: Append_def Emplace_def Clear_def Let_def)

lemma block_size_apply_ops: "block_size_' (apply_ops b xs) = block_size_' b"
  unfolding apply_ops_def by (induction xs arbitrary: b) (simp_all add: block_size_apply_op)

text \<open>
  Claim C9. After any sequence of \<open>Append\<close>, \<open>Emplace\<close> and \<open>Clear\<close> calls on a
  freshly constructed buffer, \<open>Size()\<close> is the number of elements appended since the
  last \<open>Clear\<close>, the blocks hold exactly these elements in order, every block but the
  last holds exactly \<open>block_size_\<close> elements, \<open>block_size_\<close> is the larger of 1024 and
  the constructor argument, \<open>LastElement()\<close> is \<open>nullptr\<close> exactly when \<open>Size()\<close> is 0,
  and otherwise it points to an existing element, the most recently appended one.
\<close>

theorem AppendOnlyBuffer_invariant:
  "(let b = apply_ops (new_AppendOnlyBuffer n) ops; es = since_clear [] ops
    in Size b = length es \<and> concat (GetBlocks b) = es \<and>
       (\<forall>blk \<in> set (butlast (GetBlocks b)). length blk = block_size_' b) \<and>
       block_size_' b = max 1024 n \<and>
       (LastElement b = None \<longleftrightarrow> Size b = 0) \<and>
       (es \<noteq> [] \<longrightarrow>
          (\<exists>p. LastElement b = Some p \<and> valid_ptr b p \<and> deref b p = last es)))"
proof -
  define b where "b = apply_ops (new_AppendOnlyBuffer n :: 'a AppendOnlyBuffer) ops"
  define es where "es = since_clear [] ops"
  have inv: "buffer_inv b es"
    unfolding b_def es_def by (rule inv_apply_ops [OF inv_new])
  have bs: "block_size_' b = max 1024 n"
    unfolding b_def by (simp add: block_size_apply_ops new_AppendOnlyBuffer_def Clear_def)
  have "Size b = length es" "concat (GetBlocks b) = es"
    "\<forall>blk \<in> set (butlast (GetBlocks b)). length blk = block_size_' b"
    using inv by (simp_all add: buffer_inv_def Size_def GetBlocks_def list_all_iff)
  moreover note bs inv_LastElement_None [OF inv]
  moreover have "es \<noteq> [] \<longrightarrow>
          (\<exists>p. LastElement b = Some p \<and> valid_ptr b p \<and> deref b p = last es)"
    using inv_LastElement_Some [OF inv] by blast
  ultimately show ?thesis
    unfolding Let_def b_def [symmetric] es_def [symmetric] by blast
qed

theorem AppendOnlyBuffer_invariant_witness:
  "(let b = apply_ops (new_AppendOnlyBuffer 0) [OpAppend (1::nat), OpClear, OpEmplace 2, OpAppend 3]
    in Size b = 2 \<and> GetBlocks b = [[2, 3]] \<and> block_size_' b = 1024 \<and>
       LastElement b = Some (0, 1) \<and> deref b (0, 1) = 3)"
  using AppendOnlyBuffer_invariant [of 0 "[OpAppend (1::nat), OpClear, OpEmplace 2, OpAppend 3]"]
  by (simp add: apply_ops_def new_AppendOnlyBuffer_def Clear_def Append_def Emplace_def Let_def
      Size_def GetBlocks_def LastElement_def deref_def)


section \<open>Requesting an activity buffer\<close>

text \<open>
  Claim C6. \<open>RequestActivityBuffer\<close> has exactly two outcomes: a non-null buffer, the
  one the buffer pool hands out, together with the size \<open>kBufferSizeInBytes\<close>, which is
  32 * 1024; or a null buffer with size 0, and that exactly when the pool has no reclaimed
  buffer and cannot allocate. It never returns a non-null buffer with another size.
\<close>

theorem RequestActivityBuffer_outcomes:
  "(let r = fst (RequestActivityBuffer fresh t); buffer = fst r; sz = snd r
    in buffer = fst (GetOrCreateBuffer fresh (buffer_pool_' t)) \<and>
       ((buffer = None \<and> sz = 0) \<or> (buffer \<noteq> None \<and> sz = kBufferSizeInBytes)) \<and>
       (buffer = None \<longleftrightarrow> buffers_' (buffer_pool_' t) = [] \<and> fresh = None)) \<and>
   kBufferSizeInBytes = 32 * 1024"
  by (auto simp add: RequestActivityBuffer_def GetOrCreateBuffer_def Let_def kBufferSizeInBytes_def
      split: prod.splits if_splits)

theorem RequestActivityBuffer_outcomes_witness:
  "fst (RequestActivityBuffer (Some 4096) sample_tracer) = (Some 4096, 32768) \<and>
   fst (RequestActivityBuffer None sample_tracer) = (None, 0)"
  using RequestActivityBuffer_outcomes [of "Some 4096" sample_tracer]
    RequestActivityBuffer_outcomes [of None sample_tracer]
  by (auto simp add: Let_def sample_tracer_def GetOrCreateBuffer_def kBufferSizeInBytes_def prod_eq_iff)


section \<open>Buffering callback events per thread\<close>

lemma Add_Emplace:
  "fst (Add dev_id corr_id ann nvtx st d) \<Longrightarrow>
   \<exists>a n. event_annotation_buffer (snd (snd (Add dev_id corr_id ann nvtx st d))) =
       Emplace (new_EventWithAnnotation corr_id a n) (event_annotation_buffer d) \<and>
       (a = [] \<or> a = ann) \<and> (n = [] \<or> n = nvtx)"
  by (auto simp add: Add_def Let_def split: if_splits)

text \<open>
  Claim C2. Take a callback that reaches the exit branch of \<open>HandleCallback\<close>: API tracing
  is enabled, a hook is installed, the domain is the driver API, the call is not one of the
  tracer's own, the context is not null, its device id is found and valid, and the callback
  site is the API exit. Then \<open>Add\<close> returns true exactly when
  \<open>s_max_callback_api_events\<close> is 0 or \<open>s_callback_api_event_count\<close> is below it. In
  that case it emplaces exactly one new event with the callback's correlation id into the
  calling thread's buffer, increments the counter, leaves \<open>num_dropped_events\<close> alone, and
  \<open>HandleCallback\<close> returns what \<open>OnDriverApiExit\<close> returns. Otherwise the buffer and
  the counter are unchanged, \<open>num_dropped_events\<close> grows by one, and \<open>HandleCallback\<close>
  returns \<open>OkStatus\<close> with a state that does not depend on the hook: \<open>OnDriverApiExit\<close>
  is not invoked.
\<close>

theorem Add_and_HandleCallback:
  assumes reach: "api_tracing_enabled_' t" "cupti_driver_api_hook_' t = Some hook"
    "domain = CUPTI_CB_DOMAIN_DRIVER_API" "internalCuCall = 0" "cb_context cbdata = Some ctx"
    "GetDeviceId (cupti_interface_' t) ctx = (CUPTI_SUCCESS, dev_id)" "unat dev_id < num_gpus_' t"
    "cb_callbackSite cbdata = CUPTI_API_EXIT"
  shows
   "(let nvtx = (if cbid = CUPTI_DRIVER_TRACE_CBID_cuLaunchCooperativeKernelMultiDevice
                 then [] else current_range);
         a = Add dev_id (cb_correlationId cbdata) stack_annotation nvtx st d;
         st1 = fst (snd a); d1 = snd (snd a);
         room = (s_max_callback_api_events st = 0 \<or>
                 s_callback_api_event_count st < s_max_callback_api_events st)
     in fst a = room \<and>
        (if room
         then Size (event_annotation_buffer d1) = Size (event_annotation_buffer d) + 1 \<and>
              (\<exists>an nv. (an = [] \<or> an = stack_annotation) \<and> (nv = [] \<or> nv = nvtx) \<and>
                 event_annotation_buffer d1 =
                   Emplace (new_EventWithAnnotation (cb_correlationId cbdata) an nv)
                     (event_annotation_buffer d)) \<and>
              s_callback_api_event_count st1 = s_callback_api_event_count st + 1 \<and>
              num_dropped_events d1 = num_dropped_events d \<and>
              HandleCallback t internalCuCall stack_annotation current_range domain cbid cbdata st d =
                (fst (OnDriverApiExit hook dev_id domain cbid cbdata d1), st1,
                 snd (OnDriverApiExit hook dev_id domain cbid cbdata d1))
         else event_annotation_buffer d1 = event_annotation_buffer d \<and>
              st1 = st \<and>
              num_dropped_events d1 = num_dropped_events d + 1 \<and>
              HandleCallback t internalCuCall stack_annotation current_range domain cbid cbdata st d =
                (OkStatus, st, d\<lparr>num_dropped_events := num_dropped_events d + 1\<rparr>)))"
proof -
  define nvtx where "nvtx = (if cbid = CUPTI_DRIVER_TRACE_CBID_cuLaunchCooperativeKernelMultiDevice
                 then [] else current_range)"
  define a where "a = Add dev_id (cb_correlationId cbdata) stack_annotation nvtx st d"
  define room where "room = (s_max_callback_api_events st = 0 \<or>
                 s_callback_api_event_count st < s_max_callback_api_events st)"
  have fa: "fst a = room"
    by (simp add: a_def room_def Add_def Let_def)
  have hc: "HandleCallback t internalCuCall stack_annotation current_range domain cbid cbdata st d =
      (if fst a then (fst (OnDriverApiExit hook dev_id domain cbid cbdata (snd (snd a))), fst (snd a),
                  snd (OnDriverApiExit hook dev_id domain cbid cbdata (snd (snd a))))
       else (OkStatus, fst (snd a), snd (snd a)))"
    using reach
    by (simp add: HandleCallback_def RETURN_IF_CUPTI_ERROR_def Let_def a_def nvtx_def)
  have main: "fst a = room \<and>
        (if room
         then Size (event_annotation_buffer (snd (snd a))) = Size (event_annotation_buffer d) + 1 \<and>
              (\<exists>an nv. (an = [] \<or> an = stack_annotation) \<and> (nv = [] \<or> nv = nvtx) \<and>
                 event_annotation_buffer (snd (snd a)) =
                   Emplace (new_EventWithAnnotation (cb_correlationId cbdata) an nv)
                     (event_annotation_buffer d)) \<and>
              s_callback_api_event_count (fst (snd a)) = s_callback_api_event_count st + 1 \<and>
              num_dropped_events (snd (snd a)) = num_dropped_events d \<and>
              HandleCallback t internalCuCall stack_annotation current_range domain cbid cbdata st d =
                (fst (OnDriverApiExit hook dev_id domain cbid cbdata (snd (snd a))), fst (snd a),
                 snd (OnDriverApiExit hook dev_id domain cbid cbdata (snd (snd a))))
         else event_annotation_buffer (snd (snd a)) = event_annotation_buffer d \<and>
              fst (snd a) = st \<and>
              num_dropped_events (snd (snd a)) = num_dropped_events d + 1 \<and>
              HandleCallback t internalCuCall stack_annotation current_range domain cbid cbdata st d =
                (OkStatus, st, d\<lparr>num_dropped_events := num_dropped_events d + 1\<rparr>))"
  proof (cases room)
    case True
    then have r: "s_max_callback_api_events st = 0 \<or>
                     s_callback_api_event_count st < s_max_callback_api_events st"
      by (simp add: room_def)
    have "Size (event_annotation_buffer (snd (snd a))) = Size (event_annotation_buffer d) + 1"
      using r by (auto simp add: a_def Add_def Let_def Size_def Emplace_def)
    moreover have "\<exists>an nv. (an = [] \<or> an = stack_annotation) \<and> (nv = [] \<or> nv = nvtx) \<and>
                 event_annotation_buffer (snd (snd a)) =
                   Emplace (new_EventWithAnnotation (cb_correlationId cbdata) an nv)
                     (event_annotation_buffer d)"
      using Add_Emplace [of dev_id "cb_correlationId cbdata" stack_annotation nvtx st d] fa True
      unfolding a_def by blast
    moreover have "s_callback_api_event_count (fst (snd a)) = s_callback_api_event_count st + 1"
      "num_dropped_events (snd (snd a)) = num_dropped_events d"
      using r by (auto simp add: a_def Add_def Let_def)
    ultimately show ?thesis using fa hc True by simp
  next
    case False
    then have r: "\<not> (s_max_callback_api_events st = 0 \<or>
                     s_callback_api_event_count st < s_max_callback_api_events st)"
      by (simp add: room_def)
    have "snd a = (st, d\<lparr>num_dropped_events := num_dropped_events d + 1\<rparr>)"
      using r by (simp add: a_def Add_def)
    then show ?thesis using fa hc False by simp
  qed
  show ?thesis
    unfolding Let_def by (rule main [unfolded a_def nvtx_def room_def])
qed

lemma sample_reach:
  "api_tracing_enabled_' sample_tracer" "cupti_driver_api_hook_' sample_tracer = Some sample_hook"
  "cb_context sample_cbdata = Some 1"
  "GetDeviceId (cupti_interface_' sample_tracer) 1 = (CUPTI_SUCCESS, 0)"
  "unat (0 :: u32) < num_gpus_' sample_tracer"
  "cb_callbackSite sample_cbdata = CUPTI_API_EXIT"
  by (simp_all add: sample_tracer_def sample_interface_def sample_cbdata_def)

theorem Add_and_HandleCallback_witness:
  "fst (HandleCallback sample_tracer 0 ''matmul'' ''step'' CUPTI_CB_DOMAIN_DRIVER_API
          (CUPTI_DRIVER_TRACE_CBID_OTHER 1) sample_cbdata initial_Statics
          new_CallbackAnnotationsAndEvents) = Internal ''exit hook ran'' \<and>
   Size (event_annotation_buffer (snd (snd
     (HandleCallback sample_tracer 0 ''matmul'' ''step'' CUPTI_CB_DOMAIN_DRIVER_API
          (CUPTI_DRIVER_TRACE_CBID_OTHER 1) sample_cbdata initial_Statics
          new_CallbackAnnotationsAndEvents)))) = 1 \<and>
   HandleCallback sample_tracer 0 ''matmul'' ''step'' CUPTI_CB_DOMAIN_DRIVER_API
          (CUPTI_DRIVER_TRACE_CBID_OTHER 1) sample_cbdata full_Statics
          new_CallbackAnnotationsAndEvents =
     (OkStatus, full_Statics, new_CallbackAnnotationsAndEvents\<lparr>num_dropped_events := 1\<rparr>)"
  using Add_and_HandleCallback [OF sample_reach(1) sample_reach(2) refl refl sample_reach(3)
          sample_reach(4) sample_reach(5) sample_reach(6),
          of "CUPTI_DRIVER_TRACE_CBID_OTHER 1" "''step''" "''matmul''" initial_Statics
             new_CallbackAnnotationsAndEvents]
        Add_and_HandleCallback [OF sample_reach(1) sample_reach(2) refl refl sample_reach(3)
          sample_reach(4) sample_reach(5) sample_reach(6),
          of "CUPTI_DRIVER_TRACE_CBID_OTHER 1" "''step''" "''matmul''" full_Statics
             new_CallbackAnnotationsAndEvents]
  by (simp add: Let_def initial_Statics_def full_Statics_def sample_hook_def
      new_CallbackAnnotationsAndEvents_def Size_def new_AppendOnlyBuffer_def Clear_def)

section \<open>Converting an activity buffer\<close>

lemma convert_record_adds:
  "adds_event r \<Longrightarrow> \<exists>e. convert_record r c = AddEvent e c"
proof (cases r)
  case (CUPTI_ACTIVITY_KIND_OVERHEAD x)
  assume "adds_event r"
  then show ?thesis using CUPTI_ACTIVITY_KIND_OVERHEAD
    by (cases "o_objectKind x")
       (auto simp add: AddCuptiOverheadActivityEvent_def Let_def)
qed (auto simp add: AddKernelActivityEvent_def AddMemcpyActivityEvent_def
       AddMemcpyP2PActivityEvent_def AddUnifiedMemoryActivityEvent_def AddMemoryActivityEvent_def
       AddMemsetActivityEvent_def AddSynchronizationActivityEvent_def Let_def)

lemma convert_record_skips:
  "\<not> adds_event r \<Longrightarrow> convert_record r c = c"
proof (cases r)
  case (CUPTI_ACTIVITY_KIND_OVERHEAD x)
  assume "\<not> adds_event r"
  then show ?thesis using CUPTI_ACTIVITY_KIND_OVERHEAD
    by (cases "o_objectKind x")
       (auto simp add: AddCuptiOverheadActivityEvent_def Let_def)
qed auto

lemma convert_record_calls:
  "\<exists>es. calls (convert_record r c) = calls c @ map CallAddEvent es \<and>
        length es = (if adds_event r then 1 else 0)"
proof (cases "adds_event r")
  case True
  then obtain e where "convert_record r c = AddEvent e c"
    using convert_record_adds by blast
  then have "calls (convert_record r c) = calls c @ map CallAddEvent [e]"
    by (simp add: AddEvent_def)
  then show ?thesis using True by (intro exI [of _ "[e]"]) simp
next
  case False
  then show ?thesis using convert_record_skips [of r c] by simp
qed

lemma convert_records_calls:
  "\<exists>es. calls (foldl (\<lambda>c r. convert_record r c) c rs) = calls c @ map CallAddEvent es \<and>
        length es = length (filter adds_event rs)"
proof (induction rs arbitrary: c)
  case Nil
  then show ?case by simp
next
  case (Cons r rs)
  obtain es1 where e1: "calls (convert_record r c) = calls c @ map CallAddEvent es1"
      "length es1 = (if adds_event r then 1 else 0)"
    using convert_record_calls [of r c] by blast
  obtain es2 where e2: "calls (foldl (\<lambda>c r. convert_record r c) (convert_record r c) rs) =
        calls (convert_record r c) @ map CallAddEvent es2"
      "length es2 = length (filter adds_event rs)"
    using Cons.IH [of "convert_record r c"] by blast
  have "calls (foldl (\<lambda>c r. convert_record r c) c (r # rs)) = calls c @ map CallAddEvent (es1 @ es2)"
    using e1 e2 by simp
  moreover have "length (es1 @ es2) = length (filter adds_event (r # rs))"
    using e1 e2 by simp
  ultimately show ?case by blast
qed

lemma loop_success_prefix:
  "\<forall>i<k. fst (nr (n + i)) = CUPTI_SUCCESS \<Longrightarrow>
   ConvertActivityBuffer_loop nr n c =
   ConvertActivityBuffer_loop nr (n + k)
     (foldl (\<lambda>c r. convert_record r c) c (map (\<lambda>i. snd (nr i)) [n..<n + k]))"
proof (induction k)
  case 0
  then show ?case by simp
next
  case (Suc k)
  have s: "fst (nr (n + k)) = CUPTI_SUCCESS" using Suc.prems by simp
  have "ConvertActivityBuffer_loop nr n c =
        ConvertActivityBuffer_loop nr (n + k)
          (foldl (\<lambda>c r. convert_record r c) c (map (\<lambda>i. snd (nr i)) [n..<n + k]))"
    using Suc by simp
  also have "\<dots> = ConvertActivityBuffer_loop nr (n + k + 1)
          (convert_record (snd (nr (n + k)))
             (foldl (\<lambda>c r. convert_record r c) c (map (\<lambda>i. snd (nr i)) [n..<n + k])))"
    by (subst ConvertActivityBuffer_loop.simps) (simp add: s)
  finally show ?case by simp
qed

lemma loop_end:
  "fst (nr n) \<noteq> CUPTI_SUCCESS \<Longrightarrow>
   ConvertActivityBuffer_loop nr n c =
     Some (if fst (nr n) = CUPTI_ERROR_MAX_LIMIT_REACHED then OkStatus
           else Internal ''Parse cupti activity buffer error.'', c)"
  by (subst ConvertActivityBuffer_loop.simps) simp

lemma loop_result:
  assumes "fst (nr n) \<noteq> CUPTI_SUCCESS" "\<forall>i<n. fst (nr i) = CUPTI_SUCCESS"
  shows "ConvertActivityBuffer_loop nr 0 c =
     Some (if fst (nr n) = CUPTI_ERROR_MAX_LIMIT_REACHED then OkStatus
           else Internal ''Parse cupti activity buffer error.'',
           foldl (\<lambda>c r. convert_record r c) c (map (\<lambda>i. snd (nr i)) [0..<n]))"
  using loop_success_prefix [of n nr 0 c] assms loop_end [of nr n] by simp


lemma loop_terminates:
  assumes "fst (nr m) \<noteq> CUPTI_SUCCESS"
  shows "\<exists>status c'. ConvertActivityBuffer_loop nr 0 c = Some (status, c') \<and>
           (\<exists>es. calls c' = calls c @ map CallAddEvent es) \<and>
           options_' c' = options_' c \<and> annotation_map_' c' = annotation_map_' c"
proof -
  define n where "n = (LEAST k. fst (nr k) \<noteq> CUPTI_SUCCESS)"
  have e: "fst (nr n) \<noteq> CUPTI_SUCCESS"
    unfolding n_def using assms by (rule LeastI)
  have b: "\<forall>i<n. fst (nr i) = CUPTI_SUCCESS"
    unfolding n_def using not_less_Least by blast
  obtain es where "calls (foldl (\<lambda>c r. convert_record r c) c (map (\<lambda>i. snd (nr i)) [0..<n])) =
      calls c @ map CallAddEvent es"
    using convert_records_calls by blast
  moreover have "options_' (foldl (\<lambda>c r. convert_record r c) c rs) = options_' c \<and>
     annotation_map_' (foldl (\<lambda>c r. convert_record r c) c rs) = annotation_map_' c" for rs
  proof (induction rs arbitrary: c)
    case Nil
    then show ?case by simp
  next
    case (Cons r rs)
    have "options_' (convert_record r c) = options_' c \<and>
          annotation_map_' (convert_record r c) = annotation_map_' c"
      using convert_record_adds [of r c] convert_record_skips [of r c]
      by (cases "adds_event r") (auto simp add: AddEvent_def)
    then show ?case using Cons.IH [of "convert_record r c"] by simp
  qed
  ultimately show ?thesis using loop_result [OF e b, of c] by auto
qed

lemma upt3: "[0..<3::nat] = [0, 1, 2]"
  by (simp add: upt_rec)

lemma sample_records_list:
  "map (\<lambda>i. snd (sample_records i)) [0..<3] =
     [CUPTI_ACTIVITY_KIND_KERNEL sample_kernel, CUPTI_ACTIVITY_KIND_MEMSET sample_memset,
      CUPTI_ACTIVITY_KIND_OVERHEAD sample_overhead]"
  by (simp add: upt3 sample_records_def)

lemma sample_loop:
  "ConvertActivityBuffer_loop sample_records 0 sample_collector =
     Some (OkStatus,
       foldl (\<lambda>c r. convert_record r c) sample_collector
         [CUPTI_ACTIVITY_KIND_KERNEL sample_kernel, CUPTI_ACTIVITY_KIND_MEMSET sample_memset,
          CUPTI_ACTIVITY_KIND_OVERHEAD sample_overhead])"
proof -
  have e: "fst (sample_records 3) \<noteq> CUPTI_SUCCESS"
    by (simp add: sample_records_def)
  have b: "\<forall>i<3. fst (sample_records i) = CUPTI_SUCCESS"
    by (simp add: sample_records_def)
  have m: "fst (sample_records 3) = CUPTI_ERROR_MAX_LIMIT_REACHED"
    by (simp add: sample_records_def)
  show ?thesis
    using loop_result [OF e b, of sample_collector] unfolding sample_records_list m by simp
qed

lemma sample_converted:
  "foldl (\<lambda>c r. convert_record r c) sample_collector
         [CUPTI_ACTIVITY_KIND_KERNEL sample_kernel, CUPTI_ACTIVITY_KIND_MEMSET sample_memset,
          CUPTI_ACTIVITY_KIND_OVERHEAD sample_overhead] =
   sample_collector\<lparr>calls :=
     [CallAddEvent (empty_event\<lparr>type := Kernel, source := Activity,
         annotation := ''matmul'', nvtx_range := ''step'',
         start_time_ns := 10, end_time_ns := 20, context_id := 1, correlation_id := 7\<rparr>),
      CallAddEvent (empty_event\<lparr>type := Memset, source := Activity,
         start_time_ns := 30, end_time_ns := 40, context_id := 1, correlation_id := 7\<rparr>)]\<rparr>"
  by (simp add: sample_kernel_def sample_memset_def
        sample_overhead_def AddKernelActivityEvent_def AddMemsetActivityEvent_def
        AddCuptiOverheadActivityEvent_def AddEvent_def LookUpAnnotation_def sample_collector_def
        empty_event_def Let_def)


text \<open>
  Claim C7, as amended. Let the record iteration over the buffer end at call \<open>n\<close>: the calls
  before it return \<open>CUPTI_SUCCESS\<close> and call \<open>n\<close> does not. Then \<open>ConvertActivityBuffer\<close>
  returns; it has passed the \<open>n\<close> records, in order, to the conversion of their kind; it
  returns \<open>OkStatus\<close> exactly when call \<open>n\<close> returned \<open>CUPTI_ERROR_MAX_LIMIT_REACHED\<close> and
  the Internal error otherwise. The collector has received nothing but \<open>AddEvent\<close> calls:
  one for each record of a supported kind, except that an overhead record whose object
  kind is unknown or unexpected adds no event; a record of an unsupported kind leaves the
  collector as it is.
\<close>

theorem ConvertActivityBuffer_result:
  assumes "collector_' t = Some c"
    and "fst (ActivityGetNextRecord (cupti_interface_' t) buffer sz n) \<noteq> CUPTI_SUCCESS"
    and "\<forall>i<n. fst (ActivityGetNextRecord (cupti_interface_' t) buffer sz i) = CUPTI_SUCCESS"
  shows "(let nr = ActivityGetNextRecord (cupti_interface_' t) buffer sz;
              records = map (\<lambda>i. snd (nr i)) [0..<n];
              c' = foldl (\<lambda>c r. convert_record r c) c records;
              status = (if fst (nr n) = CUPTI_ERROR_MAX_LIMIT_REACHED then OkStatus
                        else Internal ''Parse cupti activity buffer error.'')
          in ConvertActivityBuffer buffer sz t = Some (status, t\<lparr>collector_' := Some c'\<rparr>) \<and>
             (status = OkStatus \<longleftrightarrow> fst (nr n) = CUPTI_ERROR_MAX_LIMIT_REACHED) \<and>
             (\<exists>es. calls c' = calls c @ map CallAddEvent es \<and>
                   length es = length (filter adds_event records)) \<and>
             (\<forall>r. adds_event r \<longrightarrow> supported_kind r) \<and>
             (\<forall>r c. \<not> supported_kind r \<longrightarrow> convert_record r c = c))"
proof -
  have 1: "\<forall>r. adds_event r \<longrightarrow> supported_kind r"
  proof (intro allI impI)
    fix r assume "adds_event r" then show "supported_kind r" by (cases r) simp_all
  qed
  have 2: "\<forall>r c. \<not> supported_kind r \<longrightarrow> convert_record r c = c"
  proof (intro allI impI)
    fix r c assume "\<not> supported_kind r" then show "convert_record r c = c" by (cases r) simp_all
  qed
  have 3: "ConvertActivityBuffer buffer sz t =
      Some (if fst (ActivityGetNextRecord (cupti_interface_' t) buffer sz n) =
                 CUPTI_ERROR_MAX_LIMIT_REACHED then OkStatus
            else Internal ''Parse cupti activity buffer error.'',
            t\<lparr>collector_' := Some (foldl (\<lambda>c r. convert_record r c) c
                (map (\<lambda>i. snd (ActivityGetNextRecord (cupti_interface_' t) buffer sz i)) [0..<n]))\<rparr>)"
    using assms(1) loop_result [OF assms(2) assms(3), of c]
    by (simp add: ConvertActivityBuffer_def)
  have 4: "((if fst (ActivityGetNextRecord (cupti_interface_' t) buffer sz n) =
                 CUPTI_ERROR_MAX_LIMIT_REACHED then OkStatus
            else Internal ''Parse cupti activity buffer error.'') = OkStatus) =
           (fst (ActivityGetNextRecord (cupti_interface_' t) buffer sz n) =
                 CUPTI_ERROR_MAX_LIMIT_REACHED)"
    by simp
  show ?thesis
    unfolding Let_def
    by (intro conjI 1 2 3 4 convert_records_calls)
qed

theorem ConvertActivityBuffer_result_witness:
  "(case ConvertActivityBuffer (Some 1) 128 sample_tracer of
      None \<Rightarrow> False
    | Some r \<Rightarrow> fst r = OkStatus \<and>
        map_option calls (collector_' (snd r)) =
          Some [CallAddEvent (empty_event\<lparr>type := Kernel, source := Activity,
                  annotation := ''matmul'', nvtx_range := ''step'',
                  start_time_ns := 10, end_time_ns := 20, context_id := 1, correlation_id := 7\<rparr>),
                CallAddEvent (empty_event\<lparr>type := Memset, source := Activity,
                  start_time_ns := 30, end_time_ns := 40, context_id := 1, correlation_id := 7\<rparr>)])"
proof -
  have c: "collector_' sample_tracer = Some sample_collector"
    by (simp add: sample_tracer_def)
  have e: "fst (ActivityGetNextRecord (cupti_interface_' sample_tracer) (Some 1) 128 3) \<noteq> CUPTI_SUCCESS"
    by (simp add: sample_tracer_def sample_interface_def sample_records_def)
  have b: "\<forall>i<3. fst (ActivityGetNextRecord (cupti_interface_' sample_tracer) (Some 1) 128 i) = CUPTI_SUCCESS"
    by (simp add: sample_tracer_def sample_interface_def sample_records_def)
  have nr: "ActivityGetNextRecord (cupti_interface_' sample_tracer) (Some 1) 128 = sample_records"
    by (simp add: sample_tracer_def sample_interface_def)
  have m: "fst (sample_records 3) = CUPTI_ERROR_MAX_LIMIT_REACHED"
    by (simp add: sample_records_def)
  show ?thesis
    using ConvertActivityBuffer_result [OF c e b, unfolded nr Let_def sample_records_list m
        sample_converted]
    by simp
qed

text \<open>
  The claim as stated, one event for each record of a supported kind, fails on a buffer
  with a kernel record, a memset record and an overhead record of unknown object kind:
  all three kinds are supported, the conversion returns \<open>OkStatus\<close>, and the collector
  has been given two events.
\<close>

theorem ConvertActivityBuffer_counterexample:
  "list_all supported_kind
     [CUPTI_ACTIVITY_KIND_KERNEL sample_kernel, CUPTI_ACTIVITY_KIND_MEMSET sample_memset,
      CUPTI_ACTIVITY_KIND_OVERHEAD sample_overhead] \<and>
   map_option (\<lambda>r. (fst r, length (added_events (calls (snd r)))))
     (ConvertActivityBuffer_loop sample_records 0 sample_collector) = Some (OkStatus, 2)"
  unfolding sample_loop sample_converted by simp



section \<open>The life cycle of an activity buffer\<close>

lemma ProcessActivityBuffer_cases:
  assumes "collector_' t = Some c"
  shows "ProcessActivityBuffer ctx stream_id buffer sz t =
     Some (if sz = 0 then (OkStatus, buffer_cleanup buffer t)
      else if \<not> activity_tracing_enabled_' t then (OkStatus, buffer_cleanup buffer t)
      else if Disabled (cupti_interface_' t) then (Internal ''Disabled.'', buffer_cleanup buffer t)
      else
        (let r = ActivityGetNumDroppedRecords (cupti_interface_' t) ctx stream_id;
             t1 = t\<lparr>cupti_dropped_activity_event_count_' :=
                      (if fst r = CUPTI_SUCCESS
                       then size_t (cupti_dropped_activity_event_count_' t + snd r)
                       else cupti_dropped_activity_event_count_' t)\<rparr>
         in if estimated_num_activity_events_' t \<ge> max_activity_api_events (options_' c)
            then (OkStatus, buffer_cleanup buffer
                     (t1\<lparr>estimated_num_dropped_activity_events_' :=
                            size_t (estimated_num_dropped_activity_events_' t +
                              size_t (sz + kMaxCuptiActivityEventSize - 1) div kMaxCuptiActivityEventSize)\<rparr>))
            else (OkStatus,
                     t1\<lparr>estimated_num_activity_events_' :=
                            size_t (estimated_num_activity_events_' t +
                              size_t (sz + kMaxCuptiActivityEventSize - 1) div kMaxCuptiActivityEventSize),
                         activity_buffers_' := activity_buffers_' t @ [(buffer, sz)]\<rparr>)))"
  using assms
  by (simp add: ProcessActivityBuffer_def Let_def)

lemma buffer_cleanup_fields:
  "buffer_pool_' (buffer_cleanup buffer t) =
     (case buffer of None \<Rightarrow> buffer_pool_' t | Some p \<Rightarrow> ReclaimBuffer p (buffer_pool_' t))"
  "activity_buffers_' (buffer_cleanup buffer t) = activity_buffers_' t"
  "estimated_num_dropped_activity_events_' (buffer_cleanup buffer t) =
     estimated_num_dropped_activity_events_' t"
  "estimated_num_activity_events_' (buffer_cleanup buffer t) = estimated_num_activity_events_' t"
  by (simp_all add: buffer_cleanup_def split: option.splits)

lemma estimated_event_count_ceiling:
  assumes "sz \<le> 2 ^ 64 - 64"
  shows "sz \<le> 64 * (size_t (sz + kMaxCuptiActivityEventSize - 1) div kMaxCuptiActivityEventSize)"
    "64 * (size_t (sz + kMaxCuptiActivityEventSize - 1) div kMaxCuptiActivityEventSize) < sz + 64"
proof -
  have "sz + 63 < (2 :: nat) ^ 64" using assms by simp
  then have "size_t (sz + kMaxCuptiActivityEventSize - 1) = sz + 63"
    by (simp add: size_t_def kMaxCuptiActivityEventSize_def)
  then show "sz \<le> 64 * (size_t (sz + kMaxCuptiActivityEventSize - 1) div kMaxCuptiActivityEventSize)"
    "64 * (size_t (sz + kMaxCuptiActivityEventSize - 1) div kMaxCuptiActivityEventSize) < sz + 64"
    unfolding kMaxCuptiActivityEventSize_def by linarith+
qed

lemma ProcessActivityBuffer_outcome:
  assumes "collector_' t = Some c"
  shows "(let enabled = activity_tracing_enabled_' t;
              disabled = Disabled (cupti_interface_' t);
              limit = (estimated_num_activity_events_' t \<ge> max_activity_api_events (options_' c));
              reclaim = (sz = 0 \<or> \<not> enabled \<or> disabled \<or> limit);
              dropped = (sz \<noteq> 0 \<and> enabled \<and> \<not> disabled \<and> limit);
              k = size_t (sz + kMaxCuptiActivityEventSize - 1) div kMaxCuptiActivityEventSize
          in \<exists>status t'.
               ProcessActivityBuffer ctx stream_id buffer sz t = Some (status, t') \<and>
               status = (if sz \<noteq> 0 \<and> enabled \<and> disabled then Internal ''Disabled.'' else OkStatus) \<and>
               (if reclaim
                then buffer_pool_' t' =
                       (case buffer of None \<Rightarrow> buffer_pool_' t
                        | Some p \<Rightarrow> ReclaimBuffer p (buffer_pool_' t)) \<and>
                     activity_buffers_' t' = activity_buffers_' t \<and>
                     estimated_num_activity_events_' t' = estimated_num_activity_events_' t
                else buffer_pool_' t' = buffer_pool_' t \<and>
                     activity_buffers_' t' = activity_buffers_' t @ [(buffer, sz)] \<and>
                     estimated_num_activity_events_' t' =
                       size_t (estimated_num_activity_events_' t + k)) \<and>
               estimated_num_dropped_activity_events_' t' =
                 (if dropped then size_t (estimated_num_dropped_activity_events_' t + k)
                  else estimated_num_dropped_activity_events_' t) \<and>
               (sz \<le> 2 ^ 64 - 64 \<longrightarrow> sz \<le> 64 * k \<and> 64 * k < sz + 64))"
proof -
  define k where "k = size_t (sz + kMaxCuptiActivityEventSize - 1) div kMaxCuptiActivityEventSize"
  have k: "sz \<le> 2 ^ 64 - 64 \<longrightarrow> sz \<le> 64 * k \<and> 64 * k < sz + 64"
    unfolding k_def using estimated_event_count_ceiling [of sz] by blast
  note P = ProcessActivityBuffer_cases [OF assms, of ctx stream_id buffer sz, folded k_def]
  consider (empty) "sz = 0"
    | (off) "sz \<noteq> 0" "\<not> activity_tracing_enabled_' t"
    | (disabled) "sz \<noteq> 0" "activity_tracing_enabled_' t" "Disabled (cupti_interface_' t)"
    | (limit) "sz \<noteq> 0" "activity_tracing_enabled_' t" "\<not> Disabled (cupti_interface_' t)"
        "estimated_num_activity_events_' t \<ge> max_activity_api_events (options_' c)"
    | (cache) "sz \<noteq> 0" "activity_tracing_enabled_' t" "\<not> Disabled (cupti_interface_' t)"
        "\<not> estimated_num_activity_events_' t \<ge> max_activity_api_events (options_' c)"
    by blast
  then show ?thesis
  proof cases
    case empty
    then show ?thesis unfolding Let_def k_def [symmetric] using k P
      by (simp add: buffer_cleanup_fields)
  next
    case off
    then show ?thesis unfolding Let_def k_def [symmetric] using k P
      by (simp add: buffer_cleanup_fields)
  next
    case disabled
    then show ?thesis unfolding Let_def k_def [symmetric] using k P
      by (simp add: buffer_cleanup_fields)
  next
    case limit
    then show ?thesis unfolding Let_def k_def [symmetric] using k P
      by (simp add: buffer_cleanup_fields Let_def split: option.split)
  next
    case cache
    then show ?thesis unfolding Let_def k_def [symmetric] using k P
      by (simp add: Let_def)
  qed
qed


lemma ConvertActivityBuffer_update_buffers:
  "ConvertActivityBuffer b sz (t\<lparr>activity_buffers_' := x\<rparr>) =
     map_option (\<lambda>r. (fst r, (snd r)\<lparr>activity_buffers_' := x\<rparr>)) (ConvertActivityBuffer b sz t)"
  by (simp add: ConvertActivityBuffer_def split: option.splits)

lemma ConvertActivityBuffer_keeps:
  assumes "ConvertActivityBuffer b sz t = Some r"
  shows "activity_buffers_' (snd r) = activity_buffers_' t"
    "cupti_interface_' (snd r) = cupti_interface_' t"
    "buffer_pool_' (snd r) = buffer_pool_' t"
    "steps (snd r) = steps t"
    "collector_' (snd r) \<noteq> None"
  using assms by (auto simp add: ConvertActivityBuffer_def split: option.splits)

lemma convert_all_update_buffers:
  "convert_all bs (t\<lparr>activity_buffers_' := x\<rparr>) =
     map_option (\<lambda>t'. t'\<lparr>activity_buffers_' := x\<rparr>) (convert_all bs t)"
proof (induction bs arbitrary: t)
  case Nil
  then show ?case by simp
next
  case (Cons b bs)
  show ?case
  proof (cases "ConvertActivityBuffer (fst b) (snd b) t")
    case None
    then show ?thesis by (simp add: ConvertActivityBuffer_update_buffers)
  next
    case (Some r)
    then show ?thesis using Cons.IH [of "snd r"]
      by (simp add: ConvertActivityBuffer_update_buffers)
  qed
qed

lemma FinalizeActivityBuffers_loop_eq:
  "activity_buffers_' t = bs \<Longrightarrow>
   FinalizeActivityBuffers_loop t =
     map_option (\<lambda>t'. t'\<lparr>activity_buffers_' := []\<rparr>) (convert_all bs t)"
proof (induction bs arbitrary: t)
  case Nil
  then show ?case
    by (subst FinalizeActivityBuffers_loop.simps) simp
next
  case (Cons b bs)
  show ?case
  proof (cases "ConvertActivityBuffer (fst b) (snd b) t")
    case None
    then show ?thesis using Cons.prems
      by (subst FinalizeActivityBuffers_loop.simps)
         (simp add: ConvertActivityBuffer_update_buffers)
  next
    case (Some r)
    have "activity_buffers_' ((snd r)\<lparr>activity_buffers_' := bs\<rparr>) = bs" by simp
    from Cons.IH [OF this]
    have "FinalizeActivityBuffers_loop ((snd r)\<lparr>activity_buffers_' := bs\<rparr>) =
          map_option (\<lambda>t'. t'\<lparr>activity_buffers_' := []\<rparr>) (convert_all bs (snd r))"
      by (simp add: convert_all_update_buffers option.map_comp comp_def)
    then show ?thesis using Cons.prems Some
      by (subst FinalizeActivityBuffers_loop.simps)
         (simp add: ConvertActivityBuffer_update_buffers)
  qed
qed

lemma ConvertActivityBuffer_terminates:
  assumes "collector_' t = Some c" "iteration_ends (cupti_interface_' t) b"
  shows "\<exists>r c'. ConvertActivityBuffer (fst b) (snd b) t = Some r \<and>
            collector_' (snd r) = Some c' \<and> (\<exists>es. calls c' = calls c @ map CallAddEvent es)"
proof -
  obtain m where "fst (ActivityGetNextRecord (cupti_interface_' t) (fst b) (snd b) m) \<noteq> CUPTI_SUCCESS"
    using assms(2) unfolding iteration_ends_def by blast
  from loop_terminates [of "ActivityGetNextRecord (cupti_interface_' t) (fst b) (snd b)" m c, OF this]
  obtain status c' where
    "ConvertActivityBuffer_loop (ActivityGetNextRecord (cupti_interface_' t) (fst b) (snd b)) 0 c =
       Some (status, c')" "\<exists>es. calls c' = calls c @ map CallAddEvent es"
    by blast
  then show ?thesis using assms(1) by (simp add: ConvertActivityBuffer_def)
qed

lemma convert_all_terminates:
  assumes "collector_' t = Some c" "\<forall>b \<in> set bs. iteration_ends (cupti_interface_' t) b"
  shows "\<exists>t' c'. convert_all bs t = Some t' \<and> collector_' t' = Some c' \<and>
           (\<exists>es. calls c' = calls c @ map CallAddEvent es) \<and>
           buffer_pool_' t' = buffer_pool_' t \<and> steps t' = steps t \<and>
           activity_buffers_' t' = activity_buffers_' t"
  using assms
proof (induction bs arbitrary: t c)
  case Nil
  then show ?case by simp
next
  case (Cons b bs)
  have "iteration_ends (cupti_interface_' t) b" using Cons.prems(2) by simp
  from ConvertActivityBuffer_terminates [OF Cons.prems(1) this]
  obtain r c1 es1 where r: "ConvertActivityBuffer (fst b) (snd b) t = Some r"
    "collector_' (snd r) = Some c1" "calls c1 = calls c @ map CallAddEvent es1"
    by blast
  note keep = ConvertActivityBuffer_keeps [OF r(1)]
  have "\<forall>b \<in> set bs. iteration_ends (cupti_interface_' (snd r)) b"
    using Cons.prems(2) keep(2) by simp
  from Cons.IH [OF r(2) this]
  obtain t' c' es2 where t': "convert_all bs (snd r) = Some t'" "collector_' t' = Some c'"
    "calls c' = calls c1 @ map CallAddEvent es2"
    "buffer_pool_' t' = buffer_pool_' (snd r)" "steps t' = steps (snd r)"
    "activity_buffers_' t' = activity_buffers_' (snd r)"
    by blast
  have "calls c' = calls c @ map CallAddEvent (es1 @ es2)"
    using r(3) t'(3) by simp
  then have "\<exists>es. calls c' = calls c @ map CallAddEvent es" by blast
  then show ?case using r(1) t'(1,2,4,5,6) keep by simp
qed


lemma FinalizeActivityBuffers_result:
  assumes "collector_' t = Some c"
    and "\<forall>b \<in> set (activity_buffers_' t). iteration_ends (cupti_interface_' t) b"
  shows "\<exists>t' c'. FinalizeActivityBuffers t = Some t' \<and> activity_buffers_' t' = [] \<and>
           map_option (\<lambda>t'. t'\<lparr>activity_buffers_' := []\<rparr>)
             (convert_all (activity_buffers_' t) (mark Step_FinalizeActivityBuffers t)) = Some t' \<and>
           buffer_pool_' t' = buffer_pool_' t \<and>
           steps t' = steps t @ [Step_FinalizeActivityBuffers] \<and>
           collector_' t' = Some c' \<and> (\<exists>es. calls c' = calls c @ map CallAddEvent es)"
proof -
  let ?t = "mark Step_FinalizeActivityBuffers t"
  have 1: "collector_' ?t = Some c" using assms(1) by (simp add: mark_def)
  have 2: "\<forall>b \<in> set (activity_buffers_' t). iteration_ends (cupti_interface_' ?t) b"
    using assms(2) by (simp add: mark_def)
  from convert_all_terminates [OF 1 2]
  obtain t1 c' where t1: "convert_all (activity_buffers_' t) ?t = Some t1"
    "collector_' t1 = Some c'" "\<exists>es. calls c' = calls c @ map CallAddEvent es"
    "buffer_pool_' t1 = buffer_pool_' ?t" "steps t1 = steps ?t"
    by blast
  have "activity_buffers_' ?t = activity_buffers_' t" by (simp add: mark_def)
  from FinalizeActivityBuffers_loop_eq [OF this]
  have "FinalizeActivityBuffers t = Some (t1\<lparr>activity_buffers_' := []\<rparr>)"
    using t1(1) by (simp add: FinalizeActivityBuffers_def)
  then show ?thesis using t1 by (simp add: mark_def)
qed

lemma sample_iteration_ends:
  "\<forall>b \<in> set (activity_buffers_' sample_tracer). iteration_ends (cupti_interface_' sample_tracer) b"
proof -
  have "fst (sample_records 3) \<noteq> CUPTI_SUCCESS" by (simp add: sample_records_def)
  then have "\<exists>n. fst (sample_records n) \<noteq> CUPTI_SUCCESS" by blast
  then show ?thesis
    by (simp add: sample_tracer_def sample_interface_def iteration_ends_def)
qed

lemma sample_collector_set: "collector_' sample_tracer = Some sample_collector"
  by (simp add: sample_tracer_def)

text \<open>
  Claim C4, as amended. With a collector set, \<open>ProcessActivityBuffer\<close> disposes of its
  buffer in exactly one way. It reclaims the buffer (when it is not null) to the pool, and
  does not cache it, when the size is 0, when activity tracing is disabled, when the
  driver interface reports \<open>Disabled\<close> (the status is then the Internal error), or when
  the estimated event count has reached \<open>max_activity_api_events\<close>; in the last case the
  estimated dropped count grows by \<open>k\<close>, in \<open>size_t\<close>. Otherwise it appends the buffer to
  \<open>activity_buffers_\<close>, leaves the pool alone and adds \<open>k\<close> to the estimated event count,
  in \<open>size_t\<close>. Here \<open>k\<close> is \<open>(size + 63) / 64\<close> computed in \<open>size_t\<close>; for a size of at
  most \<open>2 ^ 64 - 64\<close> it is the least number with \<open>size \<le> 64 * k\<close>. When the record
  iteration over every cached buffer ends, \<open>FinalizeActivityBuffers\<close> returns, has
  converted the cached buffers one after the other, and leaves \<open>activity_buffers_\<close> empty
  and the pool unchanged.
\<close>

theorem activity_buffer_lifecycle:
  assumes "collector_' t = Some c"
    and "\<forall>b \<in> set (activity_buffers_' t). iteration_ends (cupti_interface_' t) b"
  shows "(let enabled = activity_tracing_enabled_' t;
              disabled = Disabled (cupti_interface_' t);
              limit = (estimated_num_activity_events_' t \<ge> max_activity_api_events (options_' c));
              reclaim = (sz = 0 \<or> \<not> enabled \<or> disabled \<or> limit);
              dropped = (sz \<noteq> 0 \<and> enabled \<and> \<not> disabled \<and> limit);
              k = size_t (sz + kMaxCuptiActivityEventSize - 1) div kMaxCuptiActivityEventSize
          in \<exists>status t'.
               ProcessActivityBuffer ctx stream_id buffer sz t = Some (status, t') \<and>
               status = (if sz \<noteq> 0 \<and> enabled \<and> disabled then Internal ''Disabled.'' else OkStatus) \<and>
               (if reclaim
                then buffer_pool_' t' =
                       (case buffer of None \<Rightarrow> buffer_pool_' t
                        | Some p \<Rightarrow> ReclaimBuffer p (buffer_pool_' t)) \<and>
                     activity_buffers_' t' = activity_buffers_' t \<and>
                     estimated_num_activity_events_' t' = estimated_num_activity_events_' t
                else buffer_pool_' t' = buffer_pool_' t \<and>
                     activity_buffers_' t' = activity_buffers_' t @ [(buffer, sz)] \<and>
                     estimated_num_activity_events_' t' =
                       size_t (estimated_num_activity_events_' t + k)) \<and>
               estimated_num_dropped_activity_events_' t' =
                 (if dropped then size_t (estimated_num_dropped_activity_events_' t + k)
                  else estimated_num_dropped_activity_events_' t) \<and>
               (sz \<le> 2 ^ 64 - 64 \<longrightarrow> sz \<le> 64 * k \<and> 64 * k < sz + 64)) \<and>
         (\<exists>t' c'. FinalizeActivityBuffers t = Some t' \<and> activity_buffers_' t' = [] \<and>
           map_option (\<lambda>t'. t'\<lparr>activity_buffers_' := []\<rparr>)
             (convert_all (activity_buffers_' t) (mark Step_FinalizeActivityBuffers t)) = Some t' \<and>
           buffer_pool_' t' = buffer_pool_' t \<and>
           steps t' = steps t @ [Step_FinalizeActivityBuffers] \<and>
           collector_' t' = Some c' \<and> (\<exists>es. calls c' = calls c @ map CallAddEvent es))"
  by (intro conjI ProcessActivityBuffer_outcome [OF assms(1)]
        FinalizeActivityBuffers_result [OF assms])

theorem activity_buffer_lifecycle_witness:
  "map_option (\<lambda>r. (fst r, activity_buffers_' (snd r), buffers_' (buffer_pool_' (snd r)),
                     estimated_num_activity_events_' (snd r)))
     (ProcessActivityBuffer None 0 (Some 5) 100 sample_tracer) =
     Some (OkStatus, [(Some 1, 128), (Some 5, 100)], [], 4) \<and>
   map_option activity_buffers_' (FinalizeActivityBuffers sample_tracer) = Some []"
  using activity_buffer_lifecycle [OF sample_collector_set sample_iteration_ends, of 100 None 0 "Some 5"]
  by (auto simp add: Let_def sample_tracer_def sample_collector_def sample_interface_def
        size_t_def kMaxCuptiActivityEventSize_def)


text \<open>
  The claim as stated fails in two places. When the driver interface reports \<open>Disabled\<close>,
  the size is not 0, activity tracing is enabled and the estimated event count is below
  the limit, yet the buffer is reclaimed and not cached. And when the estimated event
  count has reached the limit and the size is \<open>2 ^ 64 - 1\<close>, the estimated dropped count
  does not grow at all, where the claim has it grow by \<open>2 ^ 58\<close>, the least \<open>k\<close> with
  \<open>size \<le> 64 * k\<close>: the sum \<open>size + 63\<close> wraps around to 62.
\<close>

theorem activity_buffer_lifecycle_counterexample:
  "activity_tracing_enabled_' disabled_tracer \<and>
   estimated_num_activity_events_' disabled_tracer <
     max_activity_api_events (options_' sample_collector) \<and>
   collector_' disabled_tracer = Some sample_collector \<and>
   map_option (\<lambda>r. (fst r, activity_buffers_' (snd r), buffers_' (buffer_pool_' (snd r))))
     (ProcessActivityBuffer None 0 (Some 5) 100 disabled_tracer) =
     Some (Internal ''Disabled.'', [(Some 1, 128)], [5]) \<and>
   estimated_num_activity_events_' limit_tracer =
     max_activity_api_events (options_' sample_collector) \<and>
   estimated_num_dropped_activity_events_' limit_tracer = 0 \<and>
   map_option (\<lambda>r. (fst r, estimated_num_dropped_activity_events_' (snd r),
                     buffers_' (buffer_pool_' (snd r))))
     (ProcessActivityBuffer None 0 (Some 5) (2 ^ 64 - 1) limit_tracer) =
     Some (OkStatus, 0, [5])"
proof -
  have w: "size_t (2 ^ 64 - 1 + kMaxCuptiActivityEventSize - 1) div kMaxCuptiActivityEventSize = 0"
    by (simp add: size_t_def kMaxCuptiActivityEventSize_def)
  have a: "map_option (\<lambda>r. (fst r, activity_buffers_' (snd r), buffers_' (buffer_pool_' (snd r))))
     (ProcessActivityBuffer None 0 (Some 5) 100 disabled_tracer) =
     Some (Internal ''Disabled.'', [(Some 1, 128)], [5])"
    by (simp add: disabled_tracer_def sample_tracer_def sample_collector_def sample_interface_def
        ProcessActivityBuffer_def buffer_cleanup_def ReclaimBuffer_def)
  have b: "map_option (\<lambda>r. (fst r, estimated_num_dropped_activity_events_' (snd r),
                     buffers_' (buffer_pool_' (snd r))))
     (ProcessActivityBuffer None 0 (Some 5) (2 ^ 64 - 1) limit_tracer) =
     Some (OkStatus, 0, [5])"
    unfolding ProcessActivityBuffer_def Let_def w
    by (simp add: limit_tracer_def sample_tracer_def sample_collector_def sample_interface_def
        buffer_cleanup_def ReclaimBuffer_def size_t_def)
  have c: "activity_tracing_enabled_' disabled_tracer"
    "estimated_num_activity_events_' disabled_tracer <
       max_activity_api_events (options_' sample_collector)"
    "collector_' disabled_tracer = Some sample_collector"
    "estimated_num_activity_events_' limit_tracer =
       max_activity_api_events (options_' sample_collector)"
    "estimated_num_dropped_activity_events_' limit_tracer = 0"
    by (simp_all add: disabled_tracer_def limit_tracer_def sample_tracer_def sample_collector_def)
  show ?thesis by (intro conjI a b c)
qed

section \<open>Correlating callbacks and activities\<close>

lemma merge_event_map_add:
  "map_of (map (\<lambda>e. (ewa_correlation_id e, info_of e)) (filter annotated es)) ++ merge_event m e =
   map_of (map (\<lambda>e. (ewa_correlation_id e, info_of e)) (filter annotated (e # es))) ++ m"
  by (rule ext)
     (auto simp add: merge_event_def map_emplace_def annotated_def info_of_def map_add_def
        split: option.splits)

lemma foldl_merge_event:
  "foldl merge_event m es =
   map_of (map (\<lambda>e. (ewa_correlation_id e, info_of e)) (filter annotated es)) ++ m"
proof (induction es arbitrary: m)
  case Nil
  then show ?case by simp
next
  case (Cons e es)
  have "foldl merge_event m (e # es) = foldl merge_event (merge_event m e) es" by simp
  also have "\<dots> = map_of (map (\<lambda>e. (ewa_correlation_id e, info_of e)) (filter annotated es)) ++
                    merge_event m e"
    by (rule Cons.IH)
  also have "\<dots> = map_of (map (\<lambda>e. (ewa_correlation_id e, info_of e))
                       (filter annotated (e # es))) ++ m"
    by (rule merge_event_map_add)
  finally show ?case .
qed

lemma foldl_merge_block:
  "foldl merge_block m blocks = foldl merge_event m (concat blocks)"
  by (induction blocks arbitrary: m) (simp_all add: merge_block_def)

lemma foldl_merge_annotations_events:
  "foldl merge_annotations_events acc collected =
     (foldl merge_event (fst acc) (collected_events collected),
      snd acc + sum_list (map num_dropped_events collected))"
proof (induction collected arbitrary: acc)
  case Nil
  then show ?case by (simp add: collected_events_def)
next
  case (Cons d ds)
  have "foldl merge_annotations_events acc (d # ds) =
        foldl merge_annotations_events (merge_annotations_events acc d) ds"
    by simp
  also have "\<dots> = (foldl merge_event (fst (merge_annotations_events acc d)) (collected_events ds),
      snd (merge_annotations_events acc d) + sum_list (map num_dropped_events ds))"
    by (rule Cons.IH)
  also have "\<dots> = (foldl merge_event (fst acc) (collected_events (d # ds)),
      snd acc + sum_list (map num_dropped_events (d # ds)))"
    by (simp add: merge_annotations_events_def foldl_merge_block collected_events_def)
  finally show ?case .
qed

lemma move_construct_blocks:
  "GetBlocks (event_annotation_buffer (fst (move_construct d))) =
   GetBlocks (event_annotation_buffer d)"
  by (simp add: move_construct_def move_assign_def GetBlocks_def Let_def split: prod.splits)

lemma CollectAll_events:
  "collected_events (fst (CollectAll True True col)) =
   collected_events (active_set_' col @ deactived_list_' col)"
  by (simp add: CollectAll_def Let_def collected_events_def move_construct_blocks comp_def)

lemma Gather_result:
  assumes "collector_' t = Some c"
  shows "GatherAllCallbackAnnotationsAndEvents (col, t) =
     Some (snd (CollectAll True True col),
       (mark Step_GatherAllCallbackAnnotationsAndEvents t)
         \<lparr>collected_annotation_and_events_' := fst (CollectAll True True col),
          merged_annotation_map_' := Map.empty,
          dropped_callback_event_count_' :=
             sum_list (map num_dropped_events (fst (CollectAll True True col))),
          collector_' := Some (SetAnnotationMap
             (map_of (map (\<lambda>e. (ewa_correlation_id e, info_of e))
                (filter annotated (collected_events (active_set_' col @ deactived_list_' col))))) c)\<rparr>)"
  using assms
  by (simp add: GatherAllCallbackAnnotationsAndEvents_def Let_def mark_def split: prod.splits)
     (simp add: foldl_merge_annotations_events foldl_merge_event CollectAll_events [symmetric])


lemma map_of_first:
  "distinct (map fst kvs) \<Longrightarrow> \<forall>kv \<in> set kvs. map_of kvs (fst kv) = Some (snd kv)"
  by (induction kvs) force+

lemma kernel_event_annotation:
  "\<exists>e. AddKernelActivityEvent c1 k = AddEvent e c1 \<and>
        device_id e = k_deviceId k \<and> correlation_id e = k_correlationId k \<and>
        (annotation e, nvtx_range e) = looked_up (annotation_map_' c1) (k_correlationId k)"
  by (auto simp add: AddKernelActivityEvent_def LookUpAnnotation_def looked_up_def Let_def
      split: option.splits)

lemma memcpy_event_annotation:
  "\<exists>e. AddMemcpyActivityEvent c1 r = AddEvent e c1 \<and>
        device_id e = m_deviceId r \<and> correlation_id e = m_correlationId r \<and>
        annotation e = fst (looked_up (annotation_map_' c1) (m_correlationId r)) \<and>
        nvtx_range e = []"
  by (auto simp add: AddMemcpyActivityEvent_def LookUpAnnotation_def looked_up_def Let_def
      empty_event_def split: option.splits)

lemma memcpy2_event_annotation:
  "\<exists>e. AddMemcpyP2PActivityEvent c1 r = AddEvent e c1 \<and>
        device_id e = p_srcDeviceId r \<and> correlation_id e = p_correlationId r \<and>
        annotation e = fst (looked_up (annotation_map_' c1) (p_correlationId r)) \<and>
        nvtx_range e = []"
  by (auto simp add: AddMemcpyP2PActivityEvent_def LookUpAnnotation_def looked_up_def Let_def
      empty_event_def split: option.splits)

lemma other_event_annotation:
  "\<not> looks_up_annotation r \<Longrightarrow>
   convert_record r c1 = c1 \<or>
   (\<exists>e. convert_record r c1 = AddEvent e c1 \<and> annotation e = [] \<and> nvtx_range e = [])"
proof (cases r)
  case (CUPTI_ACTIVITY_KIND_OVERHEAD x)
  then show ?thesis
    by (cases "o_objectKind x")
       (auto simp add: AddCuptiOverheadActivityEvent_def Let_def empty_event_def)
qed (auto simp add: AddUnifiedMemoryActivityEvent_def AddMemoryActivityEvent_def
       AddMemsetActivityEvent_def AddSynchronizationActivityEvent_def Let_def empty_event_def)

lemma sample_events:
  "collected_events (active_set_' sample_collection @ deactived_list_' sample_collection) =
     [new_EventWithAnnotation 7 ''matmul'' ''step'', new_EventWithAnnotation 8 [] []]"
  by (simp add: sample_collection_def sample_thread_data_def collected_events_def Add_def
      initial_Statics_def new_CallbackAnnotationsAndEvents_def new_AppendOnlyBuffer_def Clear_def
      Emplace_def GetBlocks_def hash_set_emplace_def kBlockSize_def Let_def)

text \<open>
  Claim C1, as amended. With a collector set, \<open>GatherAllCallbackAnnotationsAndEvents\<close>
  gives the collector the map \<open>m\<close> built from the annotated events \<open>q\<close> among the
  recorded per-thread callback events, those of the active objects followed by those of
  the deactivated ones: the keys of \<open>m\<close> are exactly the correlation ids of the events in
  \<open>q\<close>; \<open>emplace\<close> keeps the first entry of a key, so a key maps to the annotation and
  NVTX range of the first event in \<open>q\<close> with that correlation id, and when the correlation
  ids in \<open>q\<close> are distinct every event of \<open>q\<close> has its own entry. A kernel record is
  converted to an event whose annotation and NVTX range are those looked up for its
  correlation id in the collector's map. A memcpy or peer-to-peer memcpy record gets its
  annotation in this way and an empty NVTX range. The conversion of every other record
  kind adds no event or an event with an empty annotation and an empty NVTX range.
\<close>

theorem annotation_correlation:
  assumes "collector_' t = Some c"
  shows "(let q = filter annotated (collected_events (active_set_' col @ deactived_list_' col));
              m = map_of (map (\<lambda>e. (ewa_correlation_id e, info_of e)) q)
          in (\<exists>col' t'. GatherAllCallbackAnnotationsAndEvents (col, t) = Some (col', t') \<and>
                 collector_' t' = Some (SetAnnotationMap m c)) \<and>
             annotation_map_' (SetAnnotationMap m c) = m \<and>
             dom m = ewa_correlation_id ` set q \<and>
             (\<forall>e \<in> set q. \<exists>e' \<in> set q. ewa_correlation_id e' = ewa_correlation_id e \<and>
                  m (ewa_correlation_id e) = Some (info_of e')) \<and>
             (distinct (map ewa_correlation_id q) \<longrightarrow>
                (\<forall>e \<in> set q. m (ewa_correlation_id e) = Some (info_of e)))) \<and>
         (\<forall>c1 k. \<exists>e. AddKernelActivityEvent c1 k = AddEvent e c1 \<and>
             device_id e = k_deviceId k \<and> correlation_id e = k_correlationId k \<and>
             (annotation e, nvtx_range e) = looked_up (annotation_map_' c1) (k_correlationId k)) \<and>
         (\<forall>c1 r. \<exists>e. AddMemcpyActivityEvent c1 r = AddEvent e c1 \<and>
             device_id e = m_deviceId r \<and> correlation_id e = m_correlationId r \<and>
             annotation e = fst (looked_up (annotation_map_' c1) (m_correlationId r)) \<and>
             nvtx_range e = []) \<and>
         (\<forall>c1 r. \<exists>e. AddMemcpyP2PActivityEvent c1 r = AddEvent e c1 \<and>
             device_id e = p_srcDeviceId r \<and> correlation_id e = p_correlationId r \<and>
             annotation e = fst (looked_up (annotation_map_' c1) (p_correlationId r)) \<and>
             nvtx_range e = []) \<and>
         (\<forall>c1 r. \<not> looks_up_annotation r \<longrightarrow>
             convert_record r c1 = c1 \<or>
             (\<exists>e. convert_record r c1 = AddEvent e c1 \<and> annotation e = [] \<and> nvtx_range e = []))"
proof -
  define q where "q = filter annotated (collected_events (active_set_' col @ deactived_list_' col))"
  define kvs where "kvs = map (\<lambda>e. (ewa_correlation_id e, info_of e)) q"
  have g: "\<exists>col' t'. GatherAllCallbackAnnotationsAndEvents (col, t) = Some (col', t') \<and>
                 collector_' t' = Some (SetAnnotationMap (map_of kvs) c)"
    unfolding Gather_result [OF assms] kvs_def q_def by simp
  have a: "annotation_map_' (SetAnnotationMap (map_of kvs) c) = map_of kvs"
    by (simp add: SetAnnotationMap_def)
  have d: "dom (map_of kvs) = ewa_correlation_id ` set q"
    by (simp add: dom_map_of_conv_image_fst kvs_def image_image)
  have f: "\<forall>e \<in> set q. \<exists>e' \<in> set q. ewa_correlation_id e' = ewa_correlation_id e \<and>
                  map_of kvs (ewa_correlation_id e) = Some (info_of e')"
  proof
    fix e assume "e \<in> set q"
    then have "ewa_correlation_id e \<in> dom (map_of kvs)" using d by blast
    then obtain v where v: "map_of kvs (ewa_correlation_id e) = Some v" by blast
    then have "(ewa_correlation_id e, v) \<in> set kvs" by (rule map_of_SomeD)
    then show "\<exists>e' \<in> set q. ewa_correlation_id e' = ewa_correlation_id e \<and>
                  map_of kvs (ewa_correlation_id e) = Some (info_of e')"
      using v by (auto simp add: kvs_def)
  qed
  have u: "distinct (map ewa_correlation_id q) \<longrightarrow>
                (\<forall>e \<in> set q. map_of kvs (ewa_correlation_id e) = Some (info_of e))"
  proof
    assume "distinct (map ewa_correlation_id q)"
    then have "distinct (map fst kvs)" by (simp add: kvs_def comp_def)
    from map_of_first [OF this]
    show "\<forall>e \<in> set q. map_of kvs (ewa_correlation_id e) = Some (info_of e)"
      by (simp add: kvs_def)
  qed
  have k1: "\<forall>c1 k. \<exists>e. AddKernelActivityEvent c1 k = AddEvent e c1 \<and>
             device_id e = k_deviceId k \<and> correlation_id e = k_correlationId k \<and>
             (annotation e, nvtx_range e) = looked_up (annotation_map_' c1) (k_correlationId k)"
    by (intro allI) (rule kernel_event_annotation)
  have k2: "\<forall>c1 r. \<exists>e. AddMemcpyActivityEvent c1 r = AddEvent e c1 \<and>
             device_id e = m_deviceId r \<and> correlation_id e = m_correlationId r \<and>
             annotation e = fst (looked_up (annotation_map_' c1) (m_correlationId r)) \<and>
             nvtx_range e = []"
    by (intro allI) (rule memcpy_event_annotation)
  have k3: "\<forall>c1 r. \<exists>e. AddMemcpyP2PActivityEvent c1 r = AddEvent e c1 \<and>
             device_id e = p_srcDeviceId r \<and> correlation_id e = p_correlationId r \<and>
             annotation e = fst (looked_up (annotation_map_' c1) (p_correlationId r)) \<and>
             nvtx_range e = []"
    by (intro allI) (rule memcpy2_event_annotation)
  have k4: "\<forall>c1 r. \<not> looks_up_annotation r \<longrightarrow>
             convert_record r c1 = c1 \<or>
             (\<exists>e. convert_record r c1 = AddEvent e c1 \<and> annotation e = [] \<and> nvtx_range e = [])"
    by (intro allI impI) (rule other_event_annotation)
  show ?thesis
    unfolding Let_def q_def [symmetric] kvs_def [symmetric]
    by (intro conjI g a d f u k1 k2 k3 k4)
qed


theorem annotation_correlation_witness:
  "(case GatherAllCallbackAnnotationsAndEvents (sample_collection, sample_tracer) of
      None \<Rightarrow> False
    | Some r \<Rightarrow>
        map_option (\<lambda>c. (annotation_map_' c 7, annotation_map_' c 8)) (collector_' (snd r)) =
          Some (Some \<lparr>info_annotation = ''matmul'', info_nvtx_range = ''step''\<rparr>, None))"
  using annotation_correlation [OF sample_collector_set, of sample_collection,
          unfolded Let_def sample_events, THEN conjunct1, THEN conjunct1]
  by (auto simp add: SetAnnotationMap_def annotated_def info_of_def new_EventWithAnnotation_def)


text \<open>
  The claim as stated fails in two places. A memset record whose correlation id has an
  entry in the collector's map is converted to an event without annotation and NVTX
  range. And of two annotated callback events with the same correlation id only the
  first is entered into the merged map.
\<close>

theorem annotation_correlation_counterexample:
  "looked_up (annotation_map_' sample_collector) (s_correlationId sample_memset) =
     (''matmul'', ''step'') \<and>
   map (\<lambda>e. (correlation_id e, annotation e, nvtx_range e))
     (added_events (calls (AddMemsetActivityEvent sample_collector sample_memset))) =
     [(7, [], [])] \<and>
   foldl merge_event Map.empty
     [new_EventWithAnnotation 7 ''matmul'' [], new_EventWithAnnotation 7 ''conv'' []] 7 =
     Some \<lparr>info_annotation = ''matmul'', info_nvtx_range = []\<rparr>"
  by (simp add: looked_up_def sample_collector_def sample_memset_def AddMemsetActivityEvent_def
      AddEvent_def empty_event_def merge_event_def map_emplace_def new_EventWithAnnotation_def
      Let_def)

section \<open>The order of the steps of Disable\<close>

lemma convert_all_buffers:
  "collector_' t = Some c \<Longrightarrow>
   convert_all bs t =
     map_option (\<lambda>c'. t\<lparr>collector_' := Some c'\<rparr>) (convert_buffers (cupti_interface_' t) bs c)"
proof (induction bs arbitrary: t c)
  case Nil
  then show ?case by simp
next
  case (Cons b bs)
  show ?case
  proof (cases "ConvertActivityBuffer_loop (ActivityGetNextRecord (cupti_interface_' t) (fst b) (snd b)) 0 c")
    case None
    then show ?thesis using Cons.prems by (simp add: ConvertActivityBuffer_def)
  next
    case (Some r)
    have "collector_' (t\<lparr>collector_' := Some (snd r)\<rparr>) = Some (snd r)" by simp
    from Cons.IH [OF this] show ?thesis using Cons.prems Some
      by (cases r) (simp add: ConvertActivityBuffer_def)
  qed
qed

lemma convert_buffers_terminates:
  assumes "\<forall>b \<in> set bs. iteration_ends i b"
  shows "\<exists>c'. convert_buffers i bs c = Some c' \<and> (\<exists>es. calls c' = calls c @ map CallAddEvent es)"
  using assms
proof (induction bs arbitrary: c)
  case Nil
  then show ?case by simp
next
  case (Cons b bs)
  obtain m where "fst (ActivityGetNextRecord i (fst b) (snd b) m) \<noteq> CUPTI_SUCCESS"
    using Cons.prems unfolding iteration_ends_def by auto
  from loop_terminates [of "ActivityGetNextRecord i (fst b) (snd b)" m c, OF this]
  obtain status c1 where 1:
    "ConvertActivityBuffer_loop (ActivityGetNextRecord i (fst b) (snd b)) 0 c = Some (status, c1)"
    "\<exists>es. calls c1 = calls c @ map CallAddEvent es"
    by blast
  have "\<forall>b \<in> set bs. iteration_ends i b" using Cons.prems by simp
  from Cons.IH [OF this, of c1]
  obtain c' where 2: "convert_buffers i bs c1 = Some c'" "\<exists>es. calls c' = calls c1 @ map CallAddEvent es"
    by blast
  obtain es1 es2 where "calls c1 = calls c @ map CallAddEvent es1" "calls c' = calls c1 @ map CallAddEvent es2"
    using 1(2) 2(2) by blast
  then have "calls c' = calls c @ map CallAddEvent (es1 @ es2)" by simp
  then have "\<exists>es. calls c' = calls c @ map CallAddEvent es" by blast
  then show ?case using 1(1) 2(1) by simp
qed

lemma ProcessCuptiActivityBuffer_enabled:
  assumes "collector_' t = Some c" "activity_tracing_enabled_' t"
  shows "\<exists>p a b.
     ProcessCuptiActivityBuffer d t =
       Some (t\<lparr>buffer_pool_' := p, cupti_dropped_activity_event_count_' := a,
               estimated_num_dropped_activity_events_' := b,
               estimated_num_activity_events_' :=
                 (if completed_valid_size d \<noteq> 0 \<and> \<not> Disabled (cupti_interface_' t) \<and>
                     estimated_num_activity_events_' t < max_activity_api_events (options_' c)
                  then size_t (estimated_num_activity_events_' t +
                         size_t (completed_valid_size d + 63) div 64)
                  else estimated_num_activity_events_' t),
               activity_buffers_' := activity_buffers_' t @
                 (if completed_valid_size d \<noteq> 0 \<and> \<not> Disabled (cupti_interface_' t) \<and>
                     estimated_num_activity_events_' t < max_activity_api_events (options_' c)
                  then [(completed_buffer d, completed_valid_size d)] else [])\<rparr>)"
proof -
  let ?n = "(if completed_valid_size d \<noteq> 0 \<and> \<not> Disabled (cupti_interface_' t) \<and>
                     estimated_num_activity_events_' t < max_activity_api_events (options_' c)
                  then size_t (estimated_num_activity_events_' t +
                         size_t (completed_valid_size d + 63) div 64)
                  else estimated_num_activity_events_' t)"
  let ?bs = "activity_buffers_' t @
                 (if completed_valid_size d \<noteq> 0 \<and> \<not> Disabled (cupti_interface_' t) \<and>
                     estimated_num_activity_events_' t < max_activity_api_events (options_' c)
                  then [(completed_buffer d, completed_valid_size d)] else [])"
  let ?r = "ActivityGetNumDroppedRecords (cupti_interface_' t) (completed_context d)
              (completed_stream_id d)"
  let ?a = "(if fst ?r = CUPTI_SUCCESS
             then size_t (cupti_dropped_activity_event_count_' t + snd ?r)
             else cupti_dropped_activity_event_count_' t)"
  let ?k = "size_t (completed_valid_size d + 63) div 64"
  note P = ProcessActivityBuffer_cases [OF assms(1), of "completed_context d" "completed_stream_id d"
      "completed_buffer d" "completed_valid_size d"]
  consider (reclaim) "completed_valid_size d = 0 \<or> Disabled (cupti_interface_' t)"
    | (limit) "completed_valid_size d \<noteq> 0" "\<not> Disabled (cupti_interface_' t)"
        "estimated_num_activity_events_' t \<ge> max_activity_api_events (options_' c)"
    | (cache) "completed_valid_size d \<noteq> 0" "\<not> Disabled (cupti_interface_' t)"
        "estimated_num_activity_events_' t < max_activity_api_events (options_' c)"
    by linarith
  then show ?thesis
  proof cases
    case reclaim
    have "ProcessCuptiActivityBuffer d t =
       Some (t\<lparr>buffer_pool_' := buffer_pool_' (buffer_cleanup (completed_buffer d) t),
               cupti_dropped_activity_event_count_' := cupti_dropped_activity_event_count_' t,
               estimated_num_dropped_activity_events_' := estimated_num_dropped_activity_events_' t,
               estimated_num_activity_events_' := ?n,
               activity_buffers_' := ?bs\<rparr>)"
      unfolding ProcessCuptiActivityBuffer_def P using reclaim assms(2)
      by (auto simp add: buffer_cleanup_def split: option.splits)
    then show ?thesis by blast
  next
    case limit
    have "ProcessCuptiActivityBuffer d t =
       Some (t\<lparr>buffer_pool_' := buffer_pool_' (buffer_cleanup (completed_buffer d) t),
               cupti_dropped_activity_event_count_' := ?a,
               estimated_num_dropped_activity_events_' :=
                 size_t (estimated_num_dropped_activity_events_' t + ?k),
               estimated_num_activity_events_' := ?n,
               activity_buffers_' := ?bs\<rparr>)"
      unfolding ProcessCuptiActivityBuffer_def P using limit assms(2)
      by (auto simp add: Let_def buffer_cleanup_def kMaxCuptiActivityEventSize_def ac_simps
            split: option.splits)
    then show ?thesis by blast
  next
    case cache
    have "ProcessCuptiActivityBuffer d t =
       Some (t\<lparr>buffer_pool_' := buffer_pool_' t,
               cupti_dropped_activity_event_count_' := ?a,
               estimated_num_dropped_activity_events_' := estimated_num_dropped_activity_events_' t,
               estimated_num_activity_events_' := ?n,
               activity_buffers_' := ?bs\<rparr>)"
      unfolding ProcessCuptiActivityBuffer_def P using cache assms(2)
      by (auto simp add: Let_def kMaxCuptiActivityEventSize_def ac_simps)
    then show ?thesis by blast
  qed
qed

lemma completed_buffers_enabled:
  assumes "collector_' t = Some c" "activity_tracing_enabled_' t"
  shows "\<exists>p a b n.
     completed_buffers ds t =
       Some (t\<lparr>buffer_pool_' := p, cupti_dropped_activity_event_count_' := a,
               estimated_num_dropped_activity_events_' := b,
               estimated_num_activity_events_' := n,
               activity_buffers_' := activity_buffers_' t @
                 (if Disabled (cupti_interface_' t) then []
                  else cached_buffers (max_activity_api_events (options_' c))
                         (estimated_num_activity_events_' t) ds)\<rparr>)"
  using assms
proof (induction ds arbitrary: t)
  case Nil
  have "completed_buffers [] t =
     Some (t\<lparr>buffer_pool_' := buffer_pool_' t,
             cupti_dropped_activity_event_count_' := cupti_dropped_activity_event_count_' t,
             estimated_num_dropped_activity_events_' := estimated_num_dropped_activity_events_' t,
             estimated_num_activity_events_' := estimated_num_activity_events_' t,
             activity_buffers_' := activity_buffers_' t @
                 (if Disabled (cupti_interface_' t) then []
                  else cached_buffers (max_activity_api_events (options_' c))
                         (estimated_num_activity_events_' t) [])\<rparr>)"
    by simp
  then show ?case by blast
next
  case (Cons d ds)
  obtain p a b t1 where 1: "ProcessCuptiActivityBuffer d t = Some t1"
     "t1 = t\<lparr>buffer_pool_' := p, cupti_dropped_activity_event_count_' := a,
               estimated_num_dropped_activity_events_' := b,
               estimated_num_activity_events_' :=
                 (if completed_valid_size d \<noteq> 0 \<and> \<not> Disabled (cupti_interface_' t) \<and>
                     estimated_num_activity_events_' t < max_activity_api_events (options_' c)
                  then size_t (estimated_num_activity_events_' t +
                         size_t (completed_valid_size d + 63) div 64)
                  else estimated_num_activity_events_' t),
               activity_buffers_' := activity_buffers_' t @
                 (if completed_valid_size d \<noteq> 0 \<and> \<not> Disabled (cupti_interface_' t) \<and>
                     estimated_num_activity_events_' t < max_activity_api_events (options_' c)
                  then [(completed_buffer d, completed_valid_size d)] else [])\<rparr>"
    using ProcessCuptiActivityBuffer_enabled [OF Cons.prems, of d] by blast
  have c1: "collector_' t1 = Some c" "activity_tracing_enabled_' t1"
    using Cons.prems by (simp_all add: 1(2))
  obtain p' a' b' n' where 2: "completed_buffers ds t1 =
       Some (t1\<lparr>buffer_pool_' := p', cupti_dropped_activity_event_count_' := a',
               estimated_num_dropped_activity_events_' := b',
               estimated_num_activity_events_' := n',
               activity_buffers_' := activity_buffers_' t1 @
                 (if Disabled (cupti_interface_' t1) then []
                  else cached_buffers (max_activity_api_events (options_' c))
                         (estimated_num_activity_events_' t1) ds)\<rparr>)"
    using Cons.IH [OF c1] by blast
  have "completed_buffers (d # ds) t =
       Some (t\<lparr>buffer_pool_' := p', cupti_dropped_activity_event_count_' := a',
               estimated_num_dropped_activity_events_' := b',
               estimated_num_activity_events_' := n',
               activity_buffers_' := activity_buffers_' t @
                 (if Disabled (cupti_interface_' t) then []
                  else cached_buffers (max_activity_api_events (options_' c))
                         (estimated_num_activity_events_' t) (d # ds))\<rparr>)"
    using 1(1) 2 by (simp add: 1(2))
  then show ?case by blast
qed


lemma FinalizeActivityBuffers_collector:
  assumes "collector_' t = Some c"
    and "convert_buffers (cupti_interface_' t) (activity_buffers_' t) c = Some c'"
  shows "FinalizeActivityBuffers t =
     Some ((mark Step_FinalizeActivityBuffers t)\<lparr>collector_' := Some c', activity_buffers_' := []\<rparr>)"
proof -
  let ?t = "mark Step_FinalizeActivityBuffers t"
  have 1: "collector_' ?t = Some c" using assms(1) by (simp add: mark_def)
  have 2: "activity_buffers_' ?t = activity_buffers_' t" by (simp add: mark_def)
  have 3: "cupti_interface_' ?t = cupti_interface_' t" by (simp add: mark_def)
  show ?thesis
    unfolding FinalizeActivityBuffers_def FinalizeActivityBuffers_loop_eq [OF 2]
      convert_all_buffers [OF 1] 3 assms(2)
    by simp
qed

lemma DisableApiTracing_frame:
  assumes "option_' t = Some opt"
  shows "\<exists>s. DisableApiTracing t =
           Some (s, (mark Step_DisableApiTracing t)\<lparr>api_tracing_enabled_' := False\<rparr>)"
  using assms
  by (cases "api_tracing_enabled_' t")
     (auto simp add: DisableApiTracing_def Let_def mark_def split: option.splits)

lemma DisableActivityTracing_frame:
  assumes "option_' t = Some opt" "collector_' t = Some c"
  shows "\<exists>s opt1 en p a b n. DisableActivityTracing t =
           Some (s, (mark Step_DisableActivityTracing t)
                  \<lparr>option_' := Some opt1, activity_tracing_enabled_' := en,
                   buffer_pool_' := p, cupti_dropped_activity_event_count_' := a,
                   estimated_num_dropped_activity_events_' := b,
                   estimated_num_activity_events_' := n,
                   activity_buffers_' := activity_buffers_' t @ cached_by_flush opt c t\<rparr>)"
proof -
  let ?t0 = "mark Step_DisableActivityTracing t"
  let ?i = "cupti_interface_' t"
  consider (off) "\<not> activity_tracing_enabled_' t"
    | (error) s where "activity_tracing_enabled_' t"
        "first_error (map (ActivityDisable ?i) (activities_selected opt)) = Some s"
    | (flush) "activity_tracing_enabled_' t"
        "first_error (map (ActivityDisable ?i) (activities_selected opt)) = None"
    by (cases "first_error (map (ActivityDisable ?i) (activities_selected opt))") auto
  then show ?thesis
  proof cases
    case off
    have "DisableActivityTracing t =
      Some (OkStatus, ?t0\<lparr>option_' := Some opt, activity_tracing_enabled_' := False,
                   buffer_pool_' := buffer_pool_' t,
                   cupti_dropped_activity_event_count_' := cupti_dropped_activity_event_count_' t,
                   estimated_num_dropped_activity_events_' := estimated_num_dropped_activity_events_' t,
                   estimated_num_activity_events_' := estimated_num_activity_events_' t,
                   activity_buffers_' := activity_buffers_' t @ cached_by_flush opt c t\<rparr>)"
      using off assms by (simp add: DisableActivityTracing_def Let_def mark_def cached_by_flush_def)
    then show ?thesis by blast
  next
    case error
    have "DisableActivityTracing t =
      Some (s, ?t0\<lparr>option_' := Some opt, activity_tracing_enabled_' := True,
                   buffer_pool_' := buffer_pool_' t,
                   cupti_dropped_activity_event_count_' := cupti_dropped_activity_event_count_' t,
                   estimated_num_dropped_activity_events_' := estimated_num_dropped_activity_events_' t,
                   estimated_num_activity_events_' := estimated_num_activity_events_' t,
                   activity_buffers_' := activity_buffers_' t @ cached_by_flush opt c t\<rparr>)"
      using error assms by (simp add: DisableActivityTracing_def Let_def mark_def cached_by_flush_def)
    then show ?thesis by blast
  next
    case flush
    let ?t1 = "?t0\<lparr>option_' := Some (opt\<lparr>activities_selected := []\<rparr>)\<rparr>"
    have c1: "collector_' ?t1 = Some c" "activity_tracing_enabled_' ?t1"
      using assms(2) flush(1) by (simp_all add: mark_def)
    obtain p a b n where cb: "completed_buffers (ActivityFlushAll_completes ?i) ?t1 =
       Some (?t1\<lparr>buffer_pool_' := p, cupti_dropped_activity_event_count_' := a,
               estimated_num_dropped_activity_events_' := b,
               estimated_num_activity_events_' := n,
               activity_buffers_' := activity_buffers_' ?t1 @
                 (if Disabled (cupti_interface_' ?t1) then []
                  else cached_buffers (max_activity_api_events (options_' c))
                         (estimated_num_activity_events_' ?t1) (ActivityFlushAll_completes ?i))\<rparr>)"
      using completed_buffers_enabled [OF c1, of "ActivityFlushAll_completes ?i"] by blast
    have "\<exists>s en. DisableActivityTracing t =
      Some (s, ?t0\<lparr>option_' := Some (opt\<lparr>activities_selected := []\<rparr>),
                   activity_tracing_enabled_' := en,
                   buffer_pool_' := p, cupti_dropped_activity_event_count_' := a,
                   estimated_num_dropped_activity_events_' := b,
                   estimated_num_activity_events_' := n,
                   activity_buffers_' := activity_buffers_' t @ cached_by_flush opt c t\<rparr>)"
    proof (cases "RETURN_IF_CUPTI_ERROR (ActivityFlushAll ?i)")
      case None
      have "DisableActivityTracing t =
        Some (OkStatus, ?t0\<lparr>option_' := Some (opt\<lparr>activities_selected := []\<rparr>),
                   activity_tracing_enabled_' := False,
                   buffer_pool_' := p, cupti_dropped_activity_event_count_' := a,
                   estimated_num_dropped_activity_events_' := b,
                   estimated_num_activity_events_' := n,
                   activity_buffers_' := activity_buffers_' t @ cached_by_flush opt c t\<rparr>)"
        using flush assms None cb
        by (simp add: DisableActivityTracing_def Let_def mark_def cached_by_flush_def)
      then show ?thesis by blast
    next
      case (Some s)
      have "DisableActivityTracing t =
        Some (s, ?t0\<lparr>option_' := Some (opt\<lparr>activities_selected := []\<rparr>),
                   activity_tracing_enabled_' := True,
                   buffer_pool_' := p, cupti_dropped_activity_event_count_' := a,
                   estimated_num_dropped_activity_events_' := b,
                   estimated_num_activity_events_' := n,
                   activity_buffers_' := activity_buffers_' t @ cached_by_flush opt c t\<rparr>)"
        using flush assms Some cb
        by (simp add: DisableActivityTracing_def Let_def mark_def cached_by_flush_def)
      then show ?thesis by blast
    qed
    then show ?thesis by blast
  qed
qed

lemma Finalize_frame:
  assumes "option_' t = Some opt"
  shows "\<exists>s. Finalize t = Some (s, mark Step_Finalize t)"
  using assms by (auto simp add: Finalize_def Let_def mark_def split: option.splits)

lemma foldl_AddEvent_calls:
  "calls (foldl (\<lambda>c e. AddEvent (event e) c) c es) = calls c @ map (\<lambda>e. CallAddEvent (event e)) es"
  by (induction es arbitrary: c) (simp_all add: AddEvent_def)

lemma FinalizeApiCallbackBuffers_result:
  assumes "collector_' t = Some c"
  shows "FinalizeApiCallbackBuffers t =
     Some ((mark Step_FinalizeApiCallbackBuffers t)\<lparr>collector_' :=
        Some (foldl (\<lambda>c e. AddEvent (event e) c) c
               (collected_events (collected_annotation_and_events_' t)))\<rparr>)"
  using assms by (simp add: FinalizeApiCallbackBuffers_def Let_def mark_def)

lemma mark_fields:
  "option_' (mark s t) = option_' t" "collector_' (mark s t) = collector_' t"
  "cupti_driver_api_hook_' (mark s t) = cupti_driver_api_hook_' t"
  "activity_buffers_' (mark s t) = activity_buffers_' t"
  "cupti_interface_' (mark s t) = cupti_interface_' t"
  "steps (mark s t) = steps t @ [s]"
  "collected_annotation_and_events_' (mark s t) = collected_annotation_and_events_' t"
  "api_tracing_enabled_' (mark s t) = api_tracing_enabled_' t"
  "activity_tracing_enabled_' (mark s t) = activity_tracing_enabled_' t"
  "estimated_num_activity_events_' (mark s t) = estimated_num_activity_events_' t"
  by (simp_all add: mark_def)

lemma sample_set:
  "option_' sample_tracer = Some sample_options"
  "cupti_driver_api_hook_' sample_tracer = Some sample_hook"
  by (simp_all add: sample_tracer_def)

text \<open>
  Claim C3. Let \<open>Disable\<close> be called with a collector, options and a hook set, and let the
  record iteration end over every activity buffer that is cached when \<open>Disable\<close> is
  called or that the forced flush of \<open>DisableActivityTracing\<close> adds to the cache. Then
  \<open>Disable\<close> returns. The collector it leaves is \<open>Flush c6\<close>, where \<open>c6\<close> is the result
  of the record loops of all these buffers, in the order in which they were cached, on
  the collector \<open>c5\<close>; and \<open>c5\<close> is the collector \<open>Disable\<close> was called with after it
  has been given the merged annotation map and then one \<open>AddEvent\<close> for every gathered
  callback event, in order. So the calls the collector has received are: those it had
  received before, the annotation map, the gathered callback events, the events of the
  converted activity buffers, and last a single \<open>Flush\<close>. \<open>Disable\<close> has entered its steps
  in this order: disable API tracing, disable activity tracing, clean up the interface,
  finalize, sync and flush the hook, gather the per-thread callback events and
  annotations, forward the gathered callback events, convert the cached activity buffers,
  flush. Afterwards API tracing is off, \<open>collector_\<close> is null, \<open>option_\<close> is empty, the
  hook is reset and no activity buffer is cached.
\<close>

theorem Disable_protocol:
  assumes c: "collector_' t = Some c" and o: "option_' t = Some opt"
    and h: "cupti_driver_api_hook_' t = Some hook"
    and e: "\<forall>b \<in> set (activity_buffers_' t @ cached_by_flush opt c t).
              iteration_ends (cupti_interface_' t) b"
  shows "(let events = collected_events (active_set_' col @ deactived_list_' col);
              m = map_of (map (\<lambda>e. (ewa_correlation_id e, info_of e)) (filter annotated events));
              c5 = foldl (\<lambda>c e. AddEvent (event e) c) (SetAnnotationMap m c) events
          in \<exists>c6 t'.
               Disable (col, t) = Some (Flush c6, snd (CollectAll True True col), t') \<and>
               convert_buffers (cupti_interface_' t)
                 (activity_buffers_' t @ cached_by_flush opt c t) c5 = Some c6 \<and>
               (\<exists>activity_events.
                  calls (Flush c6) = calls c @ [CallSetAnnotationMap m] @
                    map (\<lambda>e. CallAddEvent (event e)) events @
                    map CallAddEvent activity_events @ [CallFlush]) \<and>
               steps t' = steps t @
                 [Step_DisableApiTracing, Step_DisableActivityTracing, Step_CleanUp, Step_Finalize,
                  Step_SyncAndFlush, Step_GatherAllCallbackAnnotationsAndEvents,
                  Step_FinalizeApiCallbackBuffers, Step_FinalizeActivityBuffers, Step_Flush] \<and>
               \<not> api_tracing_enabled_' t' \<and>
               collector_' t' = None \<and> option_' t' = None \<and> cupti_driver_api_hook_' t' = None \<and>
               activity_buffers_' t' = [])"
proof -
  define events where "events = collected_events (active_set_' col @ deactived_list_' col)"
  define m where "m = map_of (map (\<lambda>e. (ewa_correlation_id e, info_of e)) (filter annotated events))"
  define c5 where "c5 = foldl (\<lambda>c e. AddEvent (event e) c) (SetAnnotationMap m c) events"
  define bs where "bs = activity_buffers_' t @ cached_by_flush opt c t"
  let ?t1 = "(mark Step_DisableApiTracing t)\<lparr>api_tracing_enabled_' := False\<rparr>"
  obtain s1 where 1: "DisableApiTracing t = Some (s1, ?t1)"
    using DisableApiTracing_frame [OF o] by blast
  have o1: "option_' ?t1 = Some opt" "collector_' ?t1 = Some c"
    using o c by (simp_all add: mark_fields)
  have f1: "activity_buffers_' ?t1 @ cached_by_flush opt c ?t1 = bs"
    by (simp add: bs_def cached_by_flush_def mark_fields)
  obtain s2 t2 opt2 en p a b n where 2: "DisableActivityTracing ?t1 = Some (s2, t2)"
      "t2 = (mark Step_DisableActivityTracing ?t1)
                  \<lparr>option_' := Some opt2, activity_tracing_enabled_' := en,
                   buffer_pool_' := p, cupti_dropped_activity_event_count_' := a,
                   estimated_num_dropped_activity_events_' := b,
                   estimated_num_activity_events_' := n,
                   activity_buffers_' := bs\<rparr>"
    using DisableActivityTracing_frame [OF o1] unfolding f1 by blast
  let ?t2 = "mark Step_CleanUp t2"
  have o2: "option_' ?t2 = Some opt2" using 2(2) by (simp add: mark_fields)
  obtain s3 where 3: "Finalize ?t2 = Some (s3, mark Step_Finalize ?t2)"
    using Finalize_frame [OF o2] by blast
  let ?t3 = "mark Step_Finalize ?t2"
  have h3: "cupti_driver_api_hook_' ?t3 = Some hook"
    using 2(2) h by (simp add: mark_fields)
  let ?t3' = "mark Step_SyncAndFlush ?t3"
  have c3: "collector_' ?t3' = Some c"
    using 2(2) c by (simp add: mark_fields)
  define t4 where "t4 = (mark Step_GatherAllCallbackAnnotationsAndEvents ?t3')
         \<lparr>collected_annotation_and_events_' := fst (CollectAll True True col),
          merged_annotation_map_' := Map.empty,
          dropped_callback_event_count_' :=
             sum_list (map num_dropped_events (fst (CollectAll True True col))),
          collector_' := Some (SetAnnotationMap m c)\<rparr>"
  have 4: "GatherAllCallbackAnnotationsAndEvents (col, ?t3') = Some (snd (CollectAll True True col), t4)"
    unfolding t4_def m_def events_def by (rule Gather_result [OF c3])
  have c4: "collector_' t4 = Some (SetAnnotationMap m c)" by (simp add: t4_def)
  have ev: "collected_events (collected_annotation_and_events_' t4) = events"
    by (simp add: t4_def CollectAll_events events_def)
  define t5 where "t5 = (mark Step_FinalizeApiCallbackBuffers t4)\<lparr>collector_' := Some c5\<rparr>"
  have 5: "FinalizeApiCallbackBuffers t4 = Some t5"
    unfolding t5_def c5_def ev [symmetric] by (rule FinalizeApiCallbackBuffers_result [OF c4])
  have c5t: "collector_' t5 = Some c5" by (simp add: t5_def)
  have ab5: "activity_buffers_' t5 = bs" "cupti_interface_' t5 = cupti_interface_' t"
    by (simp_all add: t5_def t4_def 2(2) mark_fields)
  have "\<forall>b \<in> set bs. iteration_ends (cupti_interface_' t) b"
    using e by (simp add: bs_def)
  from convert_buffers_terminates [OF this, of c5]
  obtain c6 es where 6: "convert_buffers (cupti_interface_' t) bs c5 = Some c6"
    "calls c6 = calls c5 @ map CallAddEvent es"
    by blast
  have conv6: "convert_buffers (cupti_interface_' t5) (activity_buffers_' t5) c5 = Some c6"
    using 6(1) ab5 by simp
  define t6 where "t6 = (mark Step_FinalizeActivityBuffers t5)\<lparr>collector_' := Some c6, activity_buffers_' := []\<rparr>"
  have 7: "FinalizeActivityBuffers t5 = Some t6"
    unfolding t6_def by (rule FinalizeActivityBuffers_collector [OF c5t conv6])
  have c6t: "collector_' t6 = Some c6" by (simp add: t6_def)
  define t' where "t' = (mark Step_Flush t6)\<lparr>collector_' := None, option_' := None,
                                   cupti_driver_api_hook_' := None\<rparr>"
  have D: "Disable (col, t) = Some (Flush c6, snd (CollectAll True True col), t')"
    by (simp add: Disable_def 1 2(1) 3 h3 4 5 7 c6t t'_def)
  have st: "steps t' = steps t @
             [Step_DisableApiTracing, Step_DisableActivityTracing, Step_CleanUp, Step_Finalize,
              Step_SyncAndFlush, Step_GatherAllCallbackAnnotationsAndEvents,
              Step_FinalizeApiCallbackBuffers, Step_FinalizeActivityBuffers, Step_Flush]"
    by (simp add: t'_def t6_def t5_def t4_def 2(2) mark_fields)
  have cc5: "calls c5 = calls c @ [CallSetAnnotationMap m] @
                map (\<lambda>e. CallAddEvent (event e)) events"
    by (simp add: c5_def foldl_AddEvent_calls SetAnnotationMap_def)
  have cf: "calls (Flush c6) = calls c @ [CallSetAnnotationMap m] @
                map (\<lambda>e. CallAddEvent (event e)) events @
                map CallAddEvent es @ [CallFlush]"
    by (simp add: Flush_def 6(2) cc5)
  have cf': "\<exists>activity_events.
                  calls (Flush c6) = calls c @ [CallSetAnnotationMap m] @
                    map (\<lambda>e. CallAddEvent (event e)) events @
                    map CallAddEvent activity_events @ [CallFlush]"
    using cf by blast
  have rest: "\<not> api_tracing_enabled_' t'" "collector_' t' = None" "option_' t' = None"
    "cupti_driver_api_hook_' t' = None" "activity_buffers_' t' = []"
    by (simp_all add: t'_def t6_def t5_def t4_def 2(2) mark_fields mark_def)
  have "\<exists>c6 t'.
               Disable (col, t) = Some (Flush c6, snd (CollectAll True True col), t') \<and>
               convert_buffers (cupti_interface_' t) bs c5 = Some c6 \<and>
               (\<exists>activity_events.
                  calls (Flush c6) = calls c @ [CallSetAnnotationMap m] @
                    map (\<lambda>e. CallAddEvent (event e)) events @
                    map CallAddEvent activity_events @ [CallFlush]) \<and>
               steps t' = steps t @
                 [Step_DisableApiTracing, Step_DisableActivityTracing, Step_CleanUp, Step_Finalize,
                  Step_SyncAndFlush, Step_GatherAllCallbackAnnotationsAndEvents,
                  Step_FinalizeApiCallbackBuffers, Step_FinalizeActivityBuffers, Step_Flush] \<and>
               \<not> api_tracing_enabled_' t' \<and>
               collector_' t' = None \<and> option_' t' = None \<and> cupti_driver_api_hook_' t' = None \<and>
               activity_buffers_' t' = []"
    by (rule exI [of _ c6], rule exI [of _ t'], intro conjI D 6(1) cf' st rest)
  then show ?thesis
    unfolding Let_def c5_def m_def events_def bs_def .
qed


lemma sample_loop_any:
  "ConvertActivityBuffer_loop sample_records 0 c =
     Some (OkStatus,
       foldl (\<lambda>c r. convert_record r c) c
         [CUPTI_ACTIVITY_KIND_KERNEL sample_kernel, CUPTI_ACTIVITY_KIND_MEMSET sample_memset,
          CUPTI_ACTIVITY_KIND_OVERHEAD sample_overhead])"
proof -
  have e: "fst (sample_records 3) \<noteq> CUPTI_SUCCESS"
    by (simp add: sample_records_def)
  have b: "\<forall>i<3. fst (sample_records i) = CUPTI_SUCCESS"
    by (simp add: sample_records_def)
  have m: "fst (sample_records 3) = CUPTI_ERROR_MAX_LIMIT_REACHED"
    by (simp add: sample_records_def)
  show ?thesis
    using loop_result [OF e b, of c] unfolding sample_records_list m by simp
qed

lemma sample_cached_by_flush:
  "cached_by_flush sample_options sample_collector sample_tracer = [(Some 2, 64)]"
  by (simp add: cached_by_flush_def sample_options_def sample_collector_def sample_tracer_def
      sample_interface_def RETURN_IF_CUPTI_ERROR_def size_t_def)

lemma sample_flush_ends:
  "\<forall>b \<in> set (activity_buffers_' sample_tracer @
               cached_by_flush sample_options sample_collector sample_tracer).
     iteration_ends (cupti_interface_' sample_tracer) b"
proof -
  have "fst (sample_records 3) \<noteq> CUPTI_SUCCESS" by (simp add: sample_records_def)
  then have "\<exists>n. fst (sample_records n) \<noteq> CUPTI_SUCCESS" by blast
  then show ?thesis
    by (simp add: sample_tracer_def sample_interface_def iteration_ends_def)
qed

lemma sample_convert_buffers:
  "convert_buffers (cupti_interface_' sample_tracer) [b1, b2] c =
     Some (foldl (\<lambda>c r. convert_record r c) c
         [CUPTI_ACTIVITY_KIND_KERNEL sample_kernel, CUPTI_ACTIVITY_KIND_MEMSET sample_memset,
          CUPTI_ACTIVITY_KIND_OVERHEAD sample_overhead,
          CUPTI_ACTIVITY_KIND_KERNEL sample_kernel, CUPTI_ACTIVITY_KIND_MEMSET sample_memset,
          CUPTI_ACTIVITY_KIND_OVERHEAD sample_overhead])"
proof -
  have i: "ActivityGetNextRecord (cupti_interface_' sample_tracer) x y = sample_records" for x y
    by (simp add: sample_tracer_def sample_interface_def)
  show ?thesis by (simp add: i sample_loop_any)
qed

theorem Disable_protocol_witness:
  "cached_by_flush sample_options sample_collector sample_tracer = [(Some 2, 64)] \<and>
   (case Disable (sample_collection, sample_tracer) of
      None \<Rightarrow> False
    | Some r \<Rightarrow>
        steps (snd (snd r)) =
          [Step_DisableApiTracing, Step_DisableActivityTracing, Step_CleanUp, Step_Finalize,
           Step_SyncAndFlush, Step_GatherAllCallbackAnnotationsAndEvents,
           Step_FinalizeApiCallbackBuffers, Step_FinalizeActivityBuffers, Step_Flush] \<and>
        map (\<lambda>e. (source e, type e, correlation_id e, annotation e))
          (added_events (calls (fst r))) =
          [(Invalid, Unsupported, 0, []), (Invalid, Unsupported, 0, []),
           (Activity, Kernel, 7, ''matmul''), (Activity, Memset, 7, []),
           (Activity, Kernel, 7, ''matmul''), (Activity, Memset, 7, [])] \<and>
        length (calls (fst r)) = 8 \<and> last (calls (fst r)) = CallFlush \<and>
        collector_' (snd (snd r)) = None \<and> option_' (snd (snd r)) = None \<and>
        activity_buffers_' (snd (snd r)) = [])"
proof -
  have ab: "activity_buffers_' sample_tracer = [(Some 1, 128)]"
    by (simp add: sample_tracer_def)
  from Disable_protocol [OF sample_collector_set sample_set(1) sample_set(2) sample_flush_ends,
          of sample_collection, unfolded Let_def sample_events sample_cached_by_flush ab]
  obtain c6 t' where D: "Disable (sample_collection, sample_tracer) =
        Some (Flush c6, snd (CollectAll True True sample_collection), t')"
    and c6: "convert_buffers (cupti_interface_' sample_tracer) ([(Some 1, 128)] @ [(Some 2, 64)])
       (foldl (\<lambda>c e. AddEvent (event e) c)
         (SetAnnotationMap
           (map_of (map (\<lambda>e. (ewa_correlation_id e, info_of e))
             (filter annotated [new_EventWithAnnotation 7 ''matmul'' ''step'',
                                new_EventWithAnnotation 8 [] []]))) sample_collector)
         [new_EventWithAnnotation 7 ''matmul'' ''step'', new_EventWithAnnotation 8 [] []]) = Some c6"
    and st: "steps t' = steps sample_tracer @
          [Step_DisableApiTracing, Step_DisableActivityTracing, Step_CleanUp, Step_Finalize,
           Step_SyncAndFlush, Step_GatherAllCallbackAnnotationsAndEvents,
           Step_FinalizeApiCallbackBuffers, Step_FinalizeActivityBuffers, Step_Flush]"
    and rest: "collector_' t' = None" "option_' t' = None" "activity_buffers_' t' = []"
    by blast
  have calls6: "calls c6 =
     [CallSetAnnotationMap [7 \<mapsto> \<lparr>info_annotation = ''matmul'', info_nvtx_range = ''step''\<rparr>],
      CallAddEvent empty_event, CallAddEvent empty_event,
      CallAddEvent (empty_event\<lparr>type := Kernel, source := Activity,
         annotation := ''matmul'', nvtx_range := ''step'',
         start_time_ns := 10, end_time_ns := 20, context_id := 1, correlation_id := 7\<rparr>),
      CallAddEvent (empty_event\<lparr>type := Memset, source := Activity,
         start_time_ns := 30, end_time_ns := 40, context_id := 1, correlation_id := 7\<rparr>),
      CallAddEvent (empty_event\<lparr>type := Kernel, source := Activity,
         annotation := ''matmul'', nvtx_range := ''step'',
         start_time_ns := 10, end_time_ns := 20, context_id := 1, correlation_id := 7\<rparr>),
      CallAddEvent (empty_event\<lparr>type := Memset, source := Activity,
         start_time_ns := 30, end_time_ns := 40, context_id := 1, correlation_id := 7\<rparr>)]"
    using c6 unfolding append.simps sample_convert_buffers
    by (auto simp add: sample_kernel_def sample_memset_def
        sample_overhead_def AddKernelActivityEvent_def AddMemsetActivityEvent_def
        AddCuptiOverheadActivityEvent_def AddEvent_def LookUpAnnotation_def sample_collector_def
        SetAnnotationMap_def annotated_def info_of_def new_EventWithAnnotation_def
        empty_event_def Let_def)
  show ?thesis
    unfolding D sample_cached_by_flush
    using st rest
    by (simp add: Flush_def calls6 empty_event_def sample_tracer_def)
qed

section \<open>The IndexFlatMap dataset iterator\<close>

lemma GetValue_accepted:
  "accepted_dtype a \<Longrightarrow> NumElements a = 1 \<Longrightarrow> \<exists>x. GetValue a = Returned (Inr x)"
  by (cases a) (auto simp add: accepted_dtype_def length_Suc_conv)

lemma GetValue_abort:
  "accepted_dtype a \<Longrightarrow> NumElements a \<noteq> 1 \<Longrightarrow> GetValue a = Aborted"
proof (cases a)
  case (TensorUInt64 xs)
  assume "NumElements a \<noteq> 1"
  then show ?thesis using TensorUInt64 by (cases xs; cases "tl xs") auto
next
  case (TensorUInt32 xs)
  assume "NumElements a \<noteq> 1"
  then show ?thesis using TensorUInt32 by (cases xs; cases "tl xs") auto
next
  case (TensorInt64 xs)
  assume "NumElements a \<noteq> 1"
  then show ?thesis using TensorInt64 by (cases xs; cases "tl xs") auto
next
  case (TensorInt32 xs)
  assume "NumElements a \<noteq> 1"
  then show ?thesis using TensorInt32 by (cases xs; cases "tl xs") auto
next
  case (TensorOther k)
  assume "accepted_dtype a"
  then show ?thesis using TensorOther by (simp add: accepted_dtype_def)
qed

lemma GetValue_rejected:
  "\<not> accepted_dtype a \<Longrightarrow> \<exists>msg. GetValue a = Returned (Inl (InvalidArgumentError msg))"
  by (cases a) (auto simp add: accepted_dtype_def)

text \<open>
  Claim C8, as amended. Let a run of \<open>index_map_fn\<close> succeed and return the tensors
  \<open>ts\<close>. \<open>GetUnflattenedIndex\<close> returns an \<open>InvalidArgumentError\<close> when \<open>ts\<close> does not
  have two tensors, when the first of two tensors has a dtype other than \<open>DT_UINT64\<close>,
  \<open>DT_UINT32\<close>, \<open>DT_INT64\<close> and \<open>DT_INT32\<close>, and when the first is a one-element tensor
  of such a dtype and the second has another dtype. For two one-element tensors of these
  dtypes it returns the pair of the values read from the first and from the second. When
  the first of two tensors has one of these dtypes and does not have exactly one element,
  reading it aborts.
\<close>

theorem GetUnflattenedIndex_result:
  assumes "index_map_fn (of_nat flattened_index) = (OkStatus, ts)"
  shows "(length ts \<noteq> 2 \<longrightarrow>
            is_InvalidArgumentError (GetUnflattenedIndex index_map_fn flattened_index)) \<and>
         (\<forall>a b. ts = [a, b] \<and> \<not> accepted_dtype a \<longrightarrow>
            is_InvalidArgumentError (GetUnflattenedIndex index_map_fn flattened_index)) \<and>
         (\<forall>a b. ts = [a, b] \<and> accepted_dtype a \<and> NumElements a = 1 \<and> \<not> accepted_dtype b \<longrightarrow>
            is_InvalidArgumentError (GetUnflattenedIndex index_map_fn flattened_index)) \<and>
         (\<forall>a b. ts = [a, b] \<and> accepted_dtype a \<and> NumElements a = 1 \<and>
                accepted_dtype b \<and> NumElements b = 1 \<longrightarrow>
            (\<exists>element_index offset.
               GetValue a = Returned (Inr element_index) \<and> GetValue b = Returned (Inr offset) \<and>
               GetUnflattenedIndex index_map_fn flattened_index =
                 Returned (Inr (element_index, offset)))) \<and>
         (\<forall>a b. ts = [a, b] \<and> accepted_dtype a \<and> NumElements a \<noteq> 1 \<longrightarrow>
            GetUnflattenedIndex index_map_fn flattened_index = Aborted)"
proof (intro conjI allI impI)
  assume "length ts \<noteq> 2"
  then show "is_InvalidArgumentError (GetUnflattenedIndex index_map_fn flattened_index)"
    using assms by (simp add: GetUnflattenedIndex_def is_InvalidArgumentError_def)
next
  fix a b assume "ts = [a, b] \<and> \<not> accepted_dtype a"
  then show "is_InvalidArgumentError (GetUnflattenedIndex index_map_fn flattened_index)"
    using assms GetValue_rejected [of a]
    by (auto simp add: GetUnflattenedIndex_def is_InvalidArgumentError_def)
next
  fix a b assume "ts = [a, b] \<and> accepted_dtype a \<and> NumElements a = 1 \<and> \<not> accepted_dtype b"
  then show "is_InvalidArgumentError (GetUnflattenedIndex index_map_fn flattened_index)"
    using assms GetValue_rejected [of b] GetValue_accepted [of a]
    by (auto simp add: GetUnflattenedIndex_def is_InvalidArgumentError_def)
next
  fix a b assume "ts = [a, b] \<and> accepted_dtype a \<and> NumElements a = 1 \<and>
                accepted_dtype b \<and> NumElements b = 1"
  then show "\<exists>element_index offset.
               GetValue a = Returned (Inr element_index) \<and> GetValue b = Returned (Inr offset) \<and>
               GetUnflattenedIndex index_map_fn flattened_index =
                 Returned (Inr (element_index, offset))"
    using assms GetValue_accepted [of a] GetValue_accepted [of b]
    by (auto simp add: GetUnflattenedIndex_def)
next
  fix a b assume "ts = [a, b] \<and> accepted_dtype a \<and> NumElements a \<noteq> 1"
  then show "GetUnflattenedIndex index_map_fn flattened_index = Aborted"
    using assms GetValue_abort [of a]
    by (auto simp add: GetUnflattenedIndex_def)
qed

theorem GetUnflattenedIndex_result_witness:
  "GetUnflattenedIndex (\<lambda>i. (OkStatus, [TensorInt64 [i], TensorInt32 [- 1]])) 5 =
     Returned (Inr (5, 18446744073709551615)) \<and>
   is_InvalidArgumentError
     (GetUnflattenedIndex (\<lambda>i. (OkStatus, [TensorInt64 [i], TensorOther 1])) 5)"
  using GetUnflattenedIndex_result [of "\<lambda>i. (OkStatus, [TensorInt64 [i], TensorInt32 [- 1]])" 5
          "[TensorInt64 [5], TensorInt32 [- 1]]"]
        GetUnflattenedIndex_result [of "\<lambda>i. (OkStatus, [TensorInt64 [i], TensorOther 1])" 5
          "[TensorInt64 [5], TensorOther 1]"]
  by (simp add: accepted_dtype_def unsigned_minus_1_eq_mask mask_eq_exp_minus_1)


text \<open>
  The claim as stated, an \<open>InvalidArgumentError\<close> whenever a returned tensor has another
  dtype, fails when a tensor read before it has an accepted dtype and two elements: the
  read aborts before the dtype of the second tensor is looked at.
\<close>

theorem GetUnflattenedIndex_counterexample:
  "\<not> accepted_dtype (TensorOther 1) \<and>
   GetUnflattenedIndex (\<lambda>i. (OkStatus, [TensorInt64 [1, 2], TensorOther 1])) 0 = Aborted \<and>
   \<not> is_InvalidArgumentError
     (GetUnflattenedIndex (\<lambda>i. (OkStatus, [TensorInt64 [1, 2], TensorOther 1])) 0)"
  by (simp add: GetUnflattenedIndex_def accepted_dtype_def is_InvalidArgumentError_def)


text \<open>
  Claim C10. \<open>SaveInternal\<close> and \<open>RestoreInternal\<close> return an \<open>UnimplementedError\<close> for
  every iterator, context, writer and reader, and leave the iterator as it is.
\<close>

theorem checkpointing_unimplemented:
  "SaveInternal it ctx writer =
     (UnimplementedError ''TODO(b/325112575): Support save/load for index_flat_map.'', it) \<and>
   RestoreInternal it ctx' reader =
     (UnimplementedError ''TODO(b/325112575): Support save/load for index_flat_map.'', it)"
  by (simp add: SaveInternal_def RestoreInternal_def)

section \<open>The operation dispatch of the MHLO to HLO exporter\<close>





















end
